(* ===== verification/Go_Base.thy ===== *)
theory Go_Base
  imports Main "HOL-Library.Word" "HOL-Library.Sublist"
begin

unbundle bit_operations_syntax

text \<open>
  Prelude of the development: the Go values and the pieces of Go's standard library that every
  component uses.  Bytes are 8-bit words, Go strings are HOL strings (lists of byte-sized
  characters), an \<open>int\<close> is an HOL \<open>int\<close> with the 64-bit range written out where a conversion
  checks it, and a Go result pair \<open>(value, err)\<close> is a value of the sum type \<open>error + value\<close>.
  The functions of \<open>strconv\<close>, \<open>strings\<close> and \<open>encoding/binary\<close> that the program calls are
  written out here once, with the round trips and bounds the components rest on.
\<close>

named_theorems go_defs \<open>definitions unfolded when a concrete call is evaluated\<close>
named_theorems word_bytes \<open>facts on bytes and big-endian fields\<close>

type_synonym byte = "8 word"

section \<open>Results and errors\<close>

text \<open>
  \<open>res_bind\<close> is the \<open>if err != nil { return err }\<close> idiom: the first error ends the function.
\<close>

definition res_bind :: "'e + 'a \<Rightarrow> ('a \<Rightarrow> 'e + 'b) \<Rightarrow> 'e + 'b" where
  "res_bind r f = (case r of Inl e \<Rightarrow> Inl e | Inr a \<Rightarrow> f a)"

lemma res_bind_simps [simp]:
  "res_bind (Inl e) f = Inl e"
  "res_bind (Inr a) f = f a"
  by (simp_all add: res_bind_def)

lemma res_bind_eq_Inr [simp]:
  "res_bind r f = Inr b \<longleftrightarrow> (\<exists>a. r = Inr a \<and> f a = Inr b)"
  by (cases r) auto

lemma res_bind_eq_Inl:
  "res_bind r f = Inl e \<longleftrightarrow> r = Inl e \<or> (\<exists>a. r = Inr a \<and> f a = Inl e)"
  by (cases r) auto

lemma res_bind_cong [fundef_cong]:
  "r = r' \<Longrightarrow> (\<And>a. r' = Inr a \<Longrightarrow> f a = f' a) \<Longrightarrow> res_bind r f = res_bind r' f'"
  by (cases r') auto

text \<open>\<open>require g e\<close> is the guard \<open>if !g { return e }\<close>.\<close>

definition require :: "bool \<Rightarrow> 'e \<Rightarrow> 'e + unit" where
  "require g e = (if g then Inr () else Inl e)"

lemma require_simps [simp]:
  "require g e = Inr u \<longleftrightarrow> g"
  "require g e = Inl e' \<longleftrightarrow> \<not> g \<and> e' = e"
  "require True e = Inr ()"
  "require False e = Inl e"
  by (auto simp: require_def)

lemma res_bind_require [simp]:
  "res_bind (require g e) f = (if g then f () else Inl e)"
  by (simp add: require_def)

definition of_option :: "'e \<Rightarrow> 'a option \<Rightarrow> 'e + 'a" where
  "of_option e x = (case x of None \<Rightarrow> Inl e | Some a \<Rightarrow> Inr a)"

lemma of_option_simps [simp]:
  "of_option e None = Inl e"
  "of_option e (Some a) = Inr a"
  "of_option e x = Inr a \<longleftrightarrow> x = Some a"
  by (auto simp: of_option_def split: option.splits)

lemma of_option_Inl [simp]: "of_option e x = Inl e' \<longleftrightarrow> x = None \<and> e' = e"
  by (auto simp: of_option_def split: option.splits)

text \<open>
  The errors that travel between components are Go \<open>error\<close> values that may wrap several
  sentinel errors (\<open>fmt.Errorf("%w: %w")\<close>): the sentinels \<open>errors.Is\<close> finds in them, and a text.
\<close>

datatype sentinel =
    ErrMappingChanged | ErrKeepAliveFailed | ErrTargetClosed | ErrLocalAddressChanged
  | ErrNoServerAvailable | ErrNoForwardService | EADDRNOTAVAIL | ENODEV | ECONNREFUSED

datatype goerror = GoError (err_tags: "sentinel list") (err_text: string)

definition errors_is :: "goerror \<Rightarrow> sentinel \<Rightarrow> bool" where
  "errors_is e s \<longleftrightarrow> s \<in> set (err_tags e)"

definition errorf :: "string \<Rightarrow> goerror" where
  "errorf msg = GoError [] msg"

definition wrap_errors :: "sentinel list \<Rightarrow> goerror \<Rightarrow> string \<Rightarrow> goerror" where
  "wrap_errors ts e msg = GoError (ts @ err_tags e) (msg @ err_text e)"

lemma errors_is_simps [simp]:
  "errors_is (GoError ts m) s \<longleftrightarrow> s \<in> set ts"
  "\<not> errors_is (errorf msg) s"
  "errors_is (wrap_errors ts e msg) s \<longleftrightarrow> s \<in> set ts \<or> errors_is e s"
  by (auto simp: errors_is_def errorf_def wrap_errors_def)

section \<open>Numbers as text\<close>

fun digits_in :: "nat \<Rightarrow> nat \<Rightarrow> nat list" where
  "digits_in b n = (if b < 2 \<or> n < b then [n] else digits_in b (n div b) @ [n mod b])"

declare digits_in.simps [simp del]

definition digit_char :: "nat \<Rightarrow> char" where
  "digit_char d = (if d < 10 then char_of (48 + d) else char_of (87 + d))"

definition digit_value :: "char \<Rightarrow> nat option" where
  "digit_value c =
     (let n = (of_char c :: nat) in
      if 48 \<le> n \<and> n \<le> 57 then Some (n - 48)
      else if 97 \<le> n \<and> n \<le> 122 then Some (n - 87)
      else if 65 \<le> n \<and> n \<le> 90 then Some (n - 55)
      else None)"

definition format_uint :: "nat \<Rightarrow> nat \<Rightarrow> string" where
  "format_uint b n = map digit_char (digits_in b n)"

definition itoa :: "int \<Rightarrow> string" where
  "itoa i = (if i < 0 then CHR ''-'' # format_uint 10 (nat (- i)) else format_uint 10 (nat i))"

definition pad_zero :: "nat \<Rightarrow> string \<Rightarrow> string" where
  "pad_zero w s = replicate (w - length s) (CHR ''0'') @ s"

fun parse_digits :: "nat \<Rightarrow> nat \<Rightarrow> string \<Rightarrow> nat option" where
  "parse_digits b acc [] = Some acc"
| "parse_digits b acc (c # cs) =
     (case digit_value c of
        None \<Rightarrow> None
      | Some d \<Rightarrow> if d < b then parse_digits b (acc * b + d) cs else None)"

text \<open>
  \<open>strconv.ParseUint(s, base, bits)\<close> for an explicit base: every byte a digit of the base and
  the value at most \<open>2^bits - 1\<close>.  The two error kinds (syntax, range) are not told apart by any
  caller, so both are \<open>None\<close>.
\<close>

definition parse_uint :: "nat \<Rightarrow> nat \<Rightarrow> string \<Rightarrow> nat option" where
  "parse_uint b bits s =
     (if s = [] then None
      else case parse_digits b 0 s of
             None \<Rightarrow> None
           | Some n \<Rightarrow> if n < 2 ^ bits then Some n else None)"

definition split_sign :: "string \<Rightarrow> bool \<times> string" where
  "split_sign s =
     (case s of
        [] \<Rightarrow> (False, [])
      | c # cs \<Rightarrow> if c = CHR ''+'' then (False, cs) else if c = CHR ''-'' then (True, cs) else (False, s))"

text \<open>\<open>strconv.ParseInt\<close> on top of an unsigned parser: sign, then the signed range check.\<close>

definition signed_parse :: "(string \<Rightarrow> nat option) \<Rightarrow> nat \<Rightarrow> string \<Rightarrow> int option" where
  "signed_parse p bits s =
     (if s = [] then None
      else let (neg, u) = split_sign s in
           case p u of
             None \<Rightarrow> None
           | Some n \<Rightarrow>
               if neg then (if n \<le> 2 ^ (bits - 1) then Some (- int n) else None)
               else (if n < 2 ^ (bits - 1) then Some (int n) else None))"

lemma nat_power_less: "n < 2 ^ k \<longleftrightarrow> int n < 2 ^ k" "n \<le> 2 ^ k \<longleftrightarrow> int n \<le> 2 ^ k"
  using of_nat_less_iff [of n "2 ^ k", where 'a = int] of_nat_le_iff [of n "2 ^ k", where 'a = int] by simp_all

text \<open>For evaluation: the bounds as integers, whose powers are computed in binary.\<close>

lemma parse_uint_code [code]:
  "parse_uint b bits s =
     (if s = [] then None
      else case parse_digits b 0 s of
             None \<Rightarrow> None
           | Some n \<Rightarrow> if int n < 2 ^ bits then Some n else None)"
  by (simp only: parse_uint_def nat_power_less)

lemma signed_parse_code [code]:
  "signed_parse p bits s =
     (if s = [] then None
      else let (neg, u) = split_sign s in
           case p u of
             None \<Rightarrow> None
           | Some n \<Rightarrow>
               if neg then (if int n \<le> 2 ^ (bits - 1) then Some (- int n) else None)
               else (if int n < 2 ^ (bits - 1) then Some (int n) else None))"
  by (simp only: signed_parse_def nat_power_less)

definition atoi :: "string \<Rightarrow> int option" where
  "atoi s = signed_parse (parse_uint 10 64) 64 s"

text \<open>
  Base 0 takes the base from the prefix and allows underscores between digits
  (\<open>strconv.underscoreOK\<close>); the flag package reads integers this way.
\<close>

definition is_dec_digit :: "char \<Rightarrow> bool" where
  "is_dec_digit c \<longleftrightarrow> (let n = (of_char c :: nat) in 48 \<le> n \<and> n \<le> 57)"

definition is_hex_digit :: "char \<Rightarrow> bool" where
  "is_hex_digit c \<longleftrightarrow> (case digit_value c of None \<Rightarrow> False | Some d \<Rightarrow> d < 16)"

fun base_prefix :: "string \<Rightarrow> nat \<times> string" where
  "base_prefix (z # x # d # ds) =
     (if z \<noteq> CHR ''0'' then (10, z # x # d # ds)
      else if x = CHR ''b'' \<or> x = CHR ''B'' then (2, d # ds)
      else if x = CHR ''o'' \<or> x = CHR ''O'' then (8, d # ds)
      else if x = CHR ''x'' \<or> x = CHR ''X'' then (16, d # ds)
      else (8, x # d # ds))"
| "base_prefix (z # ds) = (if z = CHR ''0'' then (8, ds) else (10, z # ds))"
| "base_prefix [] = (10, [])"

datatype underscore_state = SawStart | SawDigit | SawUnderscore | SawOther

fun underscore_scan :: "bool \<Rightarrow> underscore_state \<Rightarrow> string \<Rightarrow> bool" where
  "underscore_scan hex saw [] \<longleftrightarrow> saw \<noteq> SawUnderscore"
| "underscore_scan hex saw (c # cs) =
     (if is_dec_digit c \<or> (hex \<and> is_hex_digit c) then underscore_scan hex SawDigit cs
      else if c = CHR ''_'' then (if saw \<noteq> SawDigit then False else underscore_scan hex SawUnderscore cs)
      else if saw = SawUnderscore then False
      else underscore_scan hex SawOther cs)"

definition underscore_ok :: "string \<Rightarrow> bool" where
  "underscore_ok s0 =
     (let s = snd (split_sign s0) in
      case s of
        z # x # ds \<Rightarrow>
          if z = CHR ''0'' \<and> x \<in> set ''bBoOxX''
          then underscore_scan (x \<in> set ''xX'') SawDigit ds
          else underscore_scan False SawStart s
      | _ \<Rightarrow> underscore_scan False SawStart s)"

definition parse_uint0 :: "nat \<Rightarrow> string \<Rightarrow> nat option" where
  "parse_uint0 bits s =
     (if s = [] then None
      else let (b, ds) = base_prefix s in
           case parse_digits b 0 (filter (\<lambda>c. c \<noteq> CHR ''_'') ds) of
             None \<Rightarrow> None
           | Some n \<Rightarrow>
               if n < 2 ^ bits \<and> (CHR ''_'' \<in> set ds \<longrightarrow> underscore_ok s) then Some n else None)"

definition parse_int0 :: "nat \<Rightarrow> string \<Rightarrow> int option" where
  "parse_int0 bits s = signed_parse (parse_uint0 bits) bits s"

lemmas number_defs [go_defs] =
  char_of_eq_iff digits_in.simps digit_char_def digit_value_def format_uint_def itoa_def pad_zero_def
  parse_uint_def split_sign_def signed_parse_def atoi_def is_dec_digit_def is_hex_digit_def
  underscore_ok_def parse_uint0_def parse_int0_def

text \<open>The digits as a table and their values by binary integers, for evaluation.\<close>

lemma below_36: "[0..<36] = [0, 1, 2, 3, 4, 5, 6, 7, 8, 9, 10, 11, 12, 13, 14, 15, 16, 17, 18, 19, 20, 21, 22, 23, 24, 25, 26, 27,
    28, 29, 30, 31, 32, 33, 34, 35]"
  by (simp add: upt_rec)

lemma digit_alphabet: "map digit_char [0..<36] = ''0123456789abcdefghijklmnopqrstuvwxyz''"
  by (simp add: below_36 digit_char_def char_of_eq_iff)

lemma digit_char_code [code]:
  "digit_char d =
     (if d < 36 then ''0123456789abcdefghijklmnopqrstuvwxyz'' ! d else Code.abort (STR ''not a digit'') (\<lambda>_. digit_char d))"
  by (simp flip: digit_alphabet add: digit_char_def)

lemma digit_value_code [code]:
  "digit_value c =
     (let n = (of_char c :: int) in
      if 48 \<le> n \<and> n \<le> 57 then Some (nat (n - 48))
      else if 97 \<le> n \<and> n \<le> 122 then Some (nat (n - 87))
      else if 65 \<le> n \<and> n \<le> 90 then Some (nat (n - 55))
      else None)"
proof -
  have "(of_char c :: int) = int (of_char c)" by (simp add: of_nat_of_char)
  then show ?thesis unfolding digit_value_def Let_def by auto
qed

section \<open>Strings\<close>

fun split_on :: "char \<Rightarrow> string \<Rightarrow> string list" where
  "split_on c [] = [[]]"
| "split_on c (x # xs) =
     (if x = c then [] # split_on c xs
      else case split_on c xs of [] \<Rightarrow> [[x]] | y # ys \<Rightarrow> (x # y) # ys)"

fun join :: "string \<Rightarrow> string list \<Rightarrow> string" where
  "join sep [] = []"
| "join sep [s] = s"
| "join sep (s # t # ts) = s @ sep @ join sep (t # ts)"

definition trim_prefix :: "string \<Rightarrow> string \<Rightarrow> string" where
  "trim_prefix p s = (if prefix p s then drop (length p) s else s)"

text \<open>\<open>strings.Cut\<close> on one byte: the parts around its first occurrence.\<close>

definition cut :: "char \<Rightarrow> string \<Rightarrow> (string \<times> string) option" where
  "cut c s = (if c \<in> set s
              then Some (takeWhile (\<lambda>x. x \<noteq> c) s, tl (dropWhile (\<lambda>x. x \<noteq> c) s))
              else None)"

text \<open>\<open>strings.LastIndex\<close> on one byte.\<close>

definition last_index :: "char \<Rightarrow> string \<Rightarrow> nat option" where
  "last_index c s =
     (if c \<in> set s
      then Some (length s - 1 - length (takeWhile (\<lambda>x. x \<noteq> c) (rev s)))
      else None)"

text \<open>ASCII white space, as \<open>strings.Fields\<close> and \<open>strings.TrimSpace\<close> skip it.\<close>

definition is_space :: "char \<Rightarrow> bool" where
  "is_space c \<longleftrightarrow> (of_char c :: nat) \<in> {9, 10, 11, 12, 13, 32}"

definition trim_space :: "string \<Rightarrow> string" where
  "trim_space s = rev (dropWhile is_space (rev (dropWhile is_space s)))"

function fields :: "string \<Rightarrow> string list" where
  "fields s =
     (let t = dropWhile is_space s in
      if t = [] then []
      else takeWhile (\<lambda>c. \<not> is_space c) t # fields (dropWhile (\<lambda>c. \<not> is_space c) t))"
  by pat_completeness auto
termination
proof (relation "measure length")
  fix s t :: string
  assume t: "t = dropWhile is_space s" and ne: "t \<noteq> []"
  from ne obtain c cs where c: "t = c # cs" by (auto simp: neq_Nil_conv)
  with t have "\<not> is_space c" by (metis hd_dropWhile list.sel(1) ne)
  with c have "length (dropWhile (\<lambda>c. \<not> is_space c) t) \<le> length cs"
    by (simp add: length_dropWhile_le)
  also have "\<dots> < length t" by (simp add: c)
  also have "\<dots> \<le> length s" by (simp add: t length_dropWhile_le)
  finally show "(dropWhile (\<lambda>c. \<not> is_space c) t, s) \<in> measure length" by simp
qed simp

declare fields.simps [simp del]

fun contains_str :: "string \<Rightarrow> string \<Rightarrow> bool" where
  "contains_str [] sub \<longleftrightarrow> sub = []"
| "contains_str (c # cs) sub \<longleftrightarrow> prefix sub (c # cs) \<or> contains_str cs sub"

definition to_upper :: "char \<Rightarrow> char" where
  "to_upper c = (let n = (of_char c :: nat) in if 97 \<le> n \<and> n \<le> 122 then char_of (n - 32) else c)"

definition equal_fold :: "string \<Rightarrow> string \<Rightarrow> bool" where
  "equal_fold s t \<longleftrightarrow> map to_upper s = map to_upper t"

text \<open>
  \<open>strconv.Quote\<close>, which the verb \<open>%q\<close> applies: the escapes of the ASCII range; a byte above it, part
  of a printable rune in every text the program quotes, stands for itself.
\<close>

definition quote_char :: "char \<Rightarrow> string" where
  "quote_char c =
     (let n = (of_char c :: nat) in
      if n = 34 \<or> n = 92 then [CHR 0x5C, c]
      else if n = 7 then [CHR 0x5C, CHR ''a'']
      else if n = 8 then [CHR 0x5C, CHR ''b'']
      else if n = 9 then [CHR 0x5C, CHR ''t'']
      else if n = 10 then [CHR 0x5C, CHR ''n'']
      else if n = 11 then [CHR 0x5C, CHR ''v'']
      else if n = 12 then [CHR 0x5C, CHR ''f'']
      else if n = 13 then [CHR 0x5C, CHR ''r'']
      else if n < 32 \<or> n = 127 then [CHR 0x5C, CHR ''x''] @ pad_zero 2 (format_uint 16 n)
      else [c])"

definition go_quote :: "string \<Rightarrow> string" where
  "go_quote s = [CHR 0x22] @ concat (map quote_char s) @ [CHR 0x22]"

lemmas string_defs [go_defs] =
  trim_prefix_def cut_def last_index_def is_space_def trim_space_def fields.simps
  to_upper_def equal_fold_def prefix_def quote_char_def go_quote_def

lemma split_on_not_Nil [simp]: "split_on c s \<noteq> []"
  by (induction s) (auto split: list.splits)

lemma split_on_no_sep: "c \<notin> set s \<Longrightarrow> split_on c s = [s]"
  by (induction s) auto

lemma split_on_append:
  "c \<notin> set s \<Longrightarrow> split_on c (s @ c # t) = s # split_on c t"
  by (induction s) auto

lemma split_on_append_gen: "split_on c (s @ c # t) = split_on c s @ split_on c t"
proof (induction s)
  case (Cons x xs)
  then show ?case by (cases "split_on c xs") (simp_all del: split_on.simps add: split_on.simps(2))
qed simp

lemma split_on_join:
  "ls \<noteq> [] \<Longrightarrow> (\<And>l. l \<in> set ls \<Longrightarrow> c \<notin> set l) \<Longrightarrow> split_on c (join [c] ls) = ls"
proof (induction ls)
  case (Cons l ls)
  then show ?case by (cases ls) (simp_all add: split_on_no_sep split_on_append)
qed simp

lemma split_on_parts: "p \<in> set (split_on c s) \<Longrightarrow> c \<notin> set p"
  by (induction s arbitrary: p) (auto split: list.splits if_splits)

lemma contains_str_iff: "contains_str s sub \<longleftrightarrow> (\<exists>a b. s = a @ sub @ b)"
proof (induction s)
  case Nil
  show ?case by auto
next
  case (Cons c cs)
  show ?case
  proof
    assume "contains_str (c # cs) sub"
    then consider "prefix sub (c # cs)" | "contains_str cs sub" by auto
    then show "\<exists>a b. c # cs = a @ sub @ b"
    proof cases
      case 1
      then show ?thesis by (metis append_Nil prefix_def)
    next
      case 2
      with Cons.IH obtain a b where "cs = a @ sub @ b" by blast
      then have "c # cs = (c # a) @ sub @ b" by simp
      then show ?thesis by blast
    qed
  next
    assume "\<exists>a b. c # cs = a @ sub @ b"
    then obtain a b where ab: "c # cs = a @ sub @ b" by blast
    show "contains_str (c # cs) sub"
    proof (cases a)
      case Nil
      with ab have "prefix sub (c # cs)" by (metis append_Nil prefixI)
      then show ?thesis by simp
    next
      case (Cons a' as)
      with ab Cons.IH show ?thesis by auto
    qed
  qed
qed

section \<open>Round trips of numbers\<close>

lemma digits_in_small: "n < b \<Longrightarrow> digits_in b n = [n]"
  by (simp add: digits_in.simps)

lemma digits_in_step: "2 \<le> b \<Longrightarrow> b \<le> n \<Longrightarrow> digits_in b n = digits_in b (n div b) @ [n mod b]"
  by (subst digits_in.simps) simp

lemma digits_in_not_Nil [simp]: "digits_in b n \<noteq> []"
  by (subst digits_in.simps) simp

lemma digits_in_bound: "2 \<le> b \<Longrightarrow> d \<in> set (digits_in b n) \<Longrightarrow> d < b"
proof (induction b n rule: digits_in.induct)
  case (1 b n)
  then show ?case by (cases "n < b") (auto simp: digits_in_small digits_in_step)
qed

lemma digit_value_digit_char [simp]: "d < 36 \<Longrightarrow> digit_value (digit_char d) = Some d"
  by (auto simp: digit_value_def digit_char_def)

lemma parse_digits_append:
  "parse_digits b acc (s @ t) = Option.bind (parse_digits b acc s) (\<lambda>a. parse_digits b a t)"
  by (induction s arbitrary: acc) (auto split: option.splits)

lemma parse_digits_digits_in:
  assumes "2 \<le> b" "b \<le> 36"
  shows "parse_digits b 0 (map digit_char (digits_in b n)) = Some n"
proof (induction n rule: less_induct)
  case (less n)
  show ?case
  proof (cases "n < b")
    case True
    with assms show ?thesis by (simp add: digits_in_small)
  next
    case False
    with assms have "n div b < n" by (simp add: div_less_dividend)
    from less.IH [OF this] False assms show ?thesis
      by (simp add: digits_in_step parse_digits_append order_less_le_trans [OF mod_less_divisor])
  qed
qed

lemma format_uint_not_Nil [simp]: "format_uint b n \<noteq> []"
  by (simp add: format_uint_def)

lemma parse_digits_zeros: "0 < b \<Longrightarrow> parse_digits b 0 (replicate k (CHR ''0'') @ s) = parse_digits b 0 s"
  by (induction k) (simp_all add: digit_value_def)

lemma length_digits_in: "n < b ^ k \<Longrightarrow> 0 < k \<Longrightarrow> 2 \<le> b \<Longrightarrow> length (digits_in b n) \<le> k"
proof (induction k arbitrary: n)
  case (Suc k)
  show ?case
  proof (cases "n < b")
    case True
    then show ?thesis by (simp add: digits_in_small)
  next
    case False
    with Suc.prems have "k \<noteq> 0" by (cases k) auto
    moreover have "n div b < b ^ k"
      using Suc.prems by (simp add: div_less_iff_less_mult mult.commute)
    ultimately have "length (digits_in b (n div b)) \<le> k" using Suc by simp
    with False Suc.prems show ?thesis by (simp add: digits_in_step)
  qed
qed simp

lemma parse_uint_format_uint:
  "2 \<le> b \<Longrightarrow> b \<le> 36 \<Longrightarrow> n < 2 ^ bits \<Longrightarrow> parse_uint b bits (format_uint b n) = Some n"
  by (simp add: parse_uint_def parse_digits_digits_in format_uint_def)

lemma parse_uint_bound: "parse_uint b bits s = Some n \<Longrightarrow> n < 2 ^ bits"
  by (auto simp: parse_uint_def split: option.splits if_splits)

lemma digit_char_of_dec: "d < 10 \<Longrightarrow> of_char (digit_char d) = 48 + d"
  by (simp add: digit_char_def)

lemma format_uint_dec_chars:
  assumes "c \<in> set (format_uint 10 n)"
  shows "is_dec_digit c"
proof -
  from assms obtain d where "c = digit_char d" "d \<in> set (digits_in 10 n)"
    by (auto simp: format_uint_def)
  with digits_in_bound [of 10 d n] have "d < 10" "c = digit_char d" by auto
  then show ?thesis by (simp add: is_dec_digit_def digit_char_of_dec)
qed

lemma dec_digit_not:
  "is_dec_digit c \<Longrightarrow> c \<noteq> CHR ''.'' \<and> c \<noteq> CHR '':'' \<and> c \<noteq> CHR ''+'' \<and> c \<noteq> CHR ''-'' \<and> c \<noteq> CHR ''%''
     \<and> c \<noteq> CHR ''_'' \<and> \<not> is_space c"
  by (auto simp: is_dec_digit_def is_space_def)

lemma atoi_itoa:
  assumes "- (2 ^ 63) \<le> i" "i < 2 ^ 63"
  shows "atoi (itoa i) = Some i"
proof (cases "i < 0")
  case True
  with assms have n: "nat (- i) < 2 ^ 64" and "nat (- i) \<le> 2 ^ 63" by auto
  with True parse_uint_format_uint [of 10 "nat (- i)" 64] show ?thesis
    by (simp add: atoi_def itoa_def signed_parse_def split_sign_def)
next
  case False
  with assms have n: "nat i < 2 ^ 64" and r: "nat i < 2 ^ 63" by auto
  obtain c cs where f: "format_uint 10 (nat i) = c # cs"
    by (cases "format_uint 10 (nat i)") (use format_uint_not_Nil in blast)+
  with format_uint_dec_chars [of c "nat i"] have "is_dec_digit c" by simp
  then have "split_sign (c # cs) = (False, c # cs)"
    by (auto simp: split_sign_def dest: dec_digit_not)
  with False f r parse_uint_format_uint [of 10 "nat i" 64, OF _ _ n] show ?thesis
    by (simp add: atoi_def itoa_def signed_parse_def)
qed

lemma signed_parse_range:
  "signed_parse p bits s = Some i \<Longrightarrow> - (2 ^ (bits - 1)) \<le> i \<and> i < 2 ^ (bits - 1)"
proof -
  have pos: "(0::int) < 2 ^ (bits - 1)" by simp
  assume "signed_parse p bits s = Some i"
  then consider n where "i = - int n" "n \<le> 2 ^ (bits - 1)" | n where "i = int n" "n < 2 ^ (bits - 1)"
    by (auto simp: signed_parse_def split: if_splits option.splits prod.splits)
  then show ?thesis
  proof cases
    case 1
    then have "int n \<le> 2 ^ (bits - 1)" by (metis of_nat_le_iff of_nat_numeral of_nat_power)
    with 1 pos show ?thesis by linarith
  next
    case 2
    then have "int n < 2 ^ (bits - 1)" by (metis of_nat_less_iff of_nat_numeral of_nat_power)
    with 2 pos show ?thesis by linarith
  qed
qed

section \<open>Big-endian fields\<close>

text \<open>
  \<open>binary.BigEndian.PutUint16/32\<close> and \<open>Uint16/32\<close>.  A read takes the bytes of the slice
  expression it is applied to; the callers bound the slice first.
\<close>

definition put16 :: "16 word \<Rightarrow> byte list" where
  "put16 w = [ucast (drop_bit 8 w), ucast w]"

definition put32 :: "32 word \<Rightarrow> byte list" where
  "put32 w = [ucast (drop_bit 24 w), ucast (drop_bit 16 w), ucast (drop_bit 8 w), ucast w]"

definition be16 :: "byte \<Rightarrow> byte \<Rightarrow> 16 word" where
  "be16 a b = push_bit 8 (ucast a) OR ucast b"

definition be32 :: "byte \<Rightarrow> byte \<Rightarrow> byte \<Rightarrow> byte \<Rightarrow> 32 word" where
  "be32 a b c d = push_bit 24 (ucast a) OR push_bit 16 (ucast b) OR push_bit 8 (ucast c) OR ucast d"

lemma length_put [simp, word_bytes]: "length (put16 w) = 2" "length (put32 v) = 4"
  by (simp_all add: put16_def put32_def)

lemma be16_put16 [simp, word_bytes]: "be16 (ucast (drop_bit 8 w)) (ucast w) = w"
  unfolding be16_def
  by (rule bit_word_eqI) (auto simp: bit_simps)

lemma be32_put32 [simp, word_bytes]:
  "be32 (ucast (drop_bit 24 w)) (ucast (drop_bit 16 w)) (ucast (drop_bit 8 w)) (ucast w) = w"
  unfolding be32_def
proof (rule bit_word_eqI)
  fix n :: nat
  assume "n < LENGTH(32)"
  then consider "n < 8" | "8 \<le> n" "n < 16" | "16 \<le> n" "n < 24" | "24 \<le> n" "n < 32"
    by fastforce
  then show "bit (push_bit 24 (ucast (ucast (drop_bit 24 w) :: byte)) OR
       push_bit 16 (ucast (ucast (drop_bit 16 w) :: byte)) OR
       push_bit 8 (ucast (ucast (drop_bit 8 w) :: byte)) OR ucast (ucast w :: byte) :: 32 word) n
     \<longleftrightarrow> bit w n"
    by cases (auto simp: bit_simps)
qed

lemma byte_high: "8 \<le> n \<Longrightarrow> bit (b :: byte) n \<longleftrightarrow> False"
  using bit_imp_le_length [of b n] by auto

lemma put16_be16 [simp, word_bytes]: "put16 (be16 a b) = [a, b]"
  unfolding put16_def be16_def
  by (auto intro!: bit_word_eqI simp: bit_simps byte_high)

lemma put32_be32 [simp, word_bytes]: "put32 (be32 a b c d) = [a, b, c, d]"
  unfolding put32_def be32_def
  by (auto intro!: bit_word_eqI simp: bit_simps byte_high)

definition bytes_of :: "string \<Rightarrow> byte list" where
  "bytes_of s = map of_char s"

definition text_of :: "byte list \<Rightarrow> string" where
  "text_of bs = map (\<lambda>b. char_of (unat b)) bs"

text \<open>The same map by the bits of a byte, for evaluation.\<close>

lemma text_of_code [code]:
  "text_of bs = map (\<lambda>b. Char (bit b 0) (bit b 1) (bit b 2) (bit b 3) (bit b 4) (bit b 5) (bit b 6) (bit b 7)) bs"
  by (simp add: text_of_def char_of_def bit_unsigned_iff)

lemmas byte_defs [go_defs] = put16_def put32_def be16_def be32_def bytes_of_def text_of_def

section \<open>Slices\<close>

text \<open>
  The Go slice expression \<open>xs[i:j]\<close> and the index expression \<open>xs[i]\<close> panic out of range; the
  models of the parsers carry that panic as an explicit error value.
\<close>

definition slice :: "'e \<Rightarrow> 'a list \<Rightarrow> nat \<Rightarrow> nat \<Rightarrow> 'e + 'a list" where
  "slice panic xs i j = (if i \<le> j \<and> j \<le> length xs then Inr (take (j - i) (drop i xs)) else Inl panic)"

definition index :: "'e \<Rightarrow> 'a list \<Rightarrow> nat \<Rightarrow> 'e + 'a" where
  "index panic xs i = (if i < length xs then Inr (xs ! i) else Inl panic)"

lemma slice_ok [simp]: "i \<le> j \<Longrightarrow> j \<le> length xs \<Longrightarrow> slice p xs i j = Inr (take (j - i) (drop i xs))"
  by (simp add: slice_def)

lemma index_ok [simp]: "i < length xs \<Longrightarrow> index p xs i = Inr (xs ! i)"
  by (simp add: index_def)

end
