(* ===== verification/Net_Addr.thy ===== *)
theory Net_Addr
  imports Go_Base
begin

text \<open>
  The values of Go's \<open>net/netip\<close> that the program passes around: addresses, address-port pairs,
  their textual form and \<open>netip.ParseAddr\<close>.
\<close>

section \<open>Addresses\<close>

text \<open>
  The zero \<open>netip.Addr\<close> is invalid; an IPv4 address is its four bytes; an IPv6 address its
  sixteen bytes and a zone.
\<close>

datatype addr = AddrInvalid | Addr4 byte byte byte byte | Addr6 "byte list" string

datatype addr_port = AddrPort (ap_addr: addr) (ap_port: "16 word")

definition zero_addr_port :: addr_port where
  "zero_addr_port = AddrPort AddrInvalid 0"

fun addr_valid :: "addr \<Rightarrow> bool" where
  "addr_valid AddrInvalid \<longleftrightarrow> False"
| "addr_valid (Addr4 _ _ _ _) \<longleftrightarrow> True"
| "addr_valid (Addr6 _ _) \<longleftrightarrow> True"

definition ap_valid :: "addr_port \<Rightarrow> bool" where
  "ap_valid p \<longleftrightarrow> addr_valid (ap_addr p)"

fun is4 :: "addr \<Rightarrow> bool" where
  "is4 (Addr4 _ _ _ _) \<longleftrightarrow> True"
| "is4 _ \<longleftrightarrow> False"

definition ipv4_unspecified :: addr where
  "ipv4_unspecified = Addr4 0 0 0 0"

definition ipv6_unspecified :: addr where
  "ipv6_unspecified = Addr6 (replicate 16 0) []"

definition is_unspecified :: "addr \<Rightarrow> bool" where
  "is_unspecified a \<longleftrightarrow> a = ipv4_unspecified \<or> a = ipv6_unspecified"

definition is4in6 :: "byte list \<Rightarrow> bool" where
  "is4in6 bs \<longleftrightarrow> length bs = 16 \<and> take 12 bs = replicate 10 0 @ [0xFF, 0xFF]"

fun unmap :: "addr \<Rightarrow> addr" where
  "unmap (Addr6 bs z) =
     (if is4in6 bs then Addr4 (bs ! 12) (bs ! 13) (bs ! 14) (bs ! 15) else Addr6 bs z)"
| "unmap a = a"

section \<open>Text of an address\<close>

definition byte_text :: "byte \<Rightarrow> string" where
  "byte_text b = format_uint 10 (unat b)"

definition ipv4_text :: "byte \<Rightarrow> byte \<Rightarrow> byte \<Rightarrow> byte \<Rightarrow> string" where
  "ipv4_text a b c d = join ''.'' [byte_text a, byte_text b, byte_text c, byte_text d]"

fun pair_up :: "byte list \<Rightarrow> nat list" where
  "pair_up (a # b # bs) = (256 * unat a + unat b) # pair_up bs"
| "pair_up _ = []"

definition zero_run :: "nat list \<Rightarrow> nat \<Rightarrow> nat" where
  "zero_run gs i = length (takeWhile (\<lambda>g. g = 0) (drop i gs))"

text \<open>The first longest run of at least two zero groups, if there is one.\<close>

definition longest_zero_run :: "nat list \<Rightarrow> (nat \<times> nat) option" where
  "longest_zero_run gs =
     foldl (\<lambda>best i. let l = zero_run gs i in
              case best of
                None \<Rightarrow> if 2 \<le> l then Some (i, l) else None
              | Some (_, m) \<Rightarrow> if m < l then Some (i, l) else best)
       None [0..<length gs]"

definition hex_groups :: "nat list \<Rightarrow> string" where
  "hex_groups gs = join '':'' (map (format_uint 16) gs)"

definition ipv6_text :: "byte list \<Rightarrow> string" where
  "ipv6_text bs =
     (let gs = pair_up bs in
      case longest_zero_run gs of
        None \<Rightarrow> hex_groups gs
      | Some (i, l) \<Rightarrow> hex_groups (take i gs) @ ''::'' @ hex_groups (drop (i + l) gs))"

definition zone_text :: "string \<Rightarrow> string" where
  "zone_text z = (if z = [] then [] else CHR ''%'' # z)"

fun addr_text :: "addr \<Rightarrow> string" where
  "addr_text AddrInvalid = ''invalid IP''"
| "addr_text (Addr4 a b c d) = ipv4_text a b c d"
| "addr_text (Addr6 bs z) =
     (if is4in6 bs
      then ''::ffff:'' @ ipv4_text (bs ! 12) (bs ! 13) (bs ! 14) (bs ! 15) @ zone_text z
      else ipv6_text bs @ zone_text z)"

text \<open>\<open>net.JoinHostPort\<close>.\<close>

definition join_host_port :: "string \<Rightarrow> string \<Rightarrow> string" where
  "join_host_port host port =
     (if CHR '':'' \<in> set host \<or> CHR ''%'' \<in> set host then ''['' @ host @ '']:'' @ port
      else host @ '':'' @ port)"

definition port_text :: "16 word \<Rightarrow> string" where
  "port_text p = format_uint 10 (unat p)"

definition addr_port_text :: "addr_port \<Rightarrow> string" where
  "addr_port_text p =
     (case ap_addr p of
        AddrInvalid \<Rightarrow> ''invalid AddrPort''
      | Addr4 a b c d \<Rightarrow> addr_text (ap_addr p) @ '':'' @ port_text (ap_port p)
      | Addr6 bs z \<Rightarrow> ''['' @ addr_text (ap_addr p) @ '']:'' @ port_text (ap_port p))"

section \<open>netip.ParseAddr\<close>

definition parse_octet :: "string \<Rightarrow> byte option" where
  "parse_octet s =
     (if s = [] \<or> (1 < length s \<and> hd s = CHR ''0'') then None
      else case parse_digits 10 0 s of
             None \<Rightarrow> None
           | Some n \<Rightarrow> if n \<le> 255 then Some (of_nat n) else None)"

definition parse_ipv4_fields :: "string \<Rightarrow> byte list option" where
  "parse_ipv4_fields s =
     (case split_on (CHR ''.'') s of
        [a, b, c, d] \<Rightarrow>
          (case (parse_octet a, parse_octet b, parse_octet c, parse_octet d) of
             (Some w, Some x, Some y, Some z) \<Rightarrow> Some [w, x, y, z]
           | _ \<Rightarrow> None)
      | _ \<Rightarrow> None)"

definition parse_ipv4 :: "string \<Rightarrow> addr option" where
  "parse_ipv4 s =
     (case parse_ipv4_fields s of Some [a, b, c, d] \<Rightarrow> Some (Addr4 a b c d) | _ \<Rightarrow> None)"

text \<open>
  The group loop of \<open>parseIPv6\<close>: \<open>k\<close> groups are still free, \<open>acc\<close> the bytes read, \<open>ell\<close> the
  place of the ellipsis; the result is the bytes, the ellipsis and the text left over.
\<close>

fun ipv6_groups :: "nat \<Rightarrow> byte list \<Rightarrow> nat option \<Rightarrow> string \<Rightarrow> (byte list \<times> nat option \<times> string) option" where
  "ipv6_groups 0 acc ell s = Some (acc, ell, s)"
| "ipv6_groups (Suc k) acc ell s =
     (let h = takeWhile is_hex_digit s; rest = dropWhile is_hex_digit s in
      if h = [] \<or> 4 < length h then None
      else if rest \<noteq> [] \<and> hd rest = CHR ''.'' then
        (if ell = None \<and> length acc \<noteq> 12 then None
         else if 16 < length acc + 4 then None
         else case parse_ipv4_fields s of None \<Rightarrow> None | Some bs \<Rightarrow> Some (acc @ bs, ell, []))
      else case parse_digits 16 0 h of
             None \<Rightarrow> None
           | Some n \<Rightarrow>
               (let acc' = acc @ [of_nat (n div 256), of_nat n] in
                case rest of
                  [] \<Rightarrow> Some (acc', ell, [])
                | c # t \<Rightarrow>
                    if c \<noteq> CHR '':'' \<or> t = [] then None
                    else if hd t = CHR '':'' then
                      (if ell \<noteq> None then None
                       else if tl t = [] then Some (acc', Some (length acc'), [])
                       else ipv6_groups k acc' (Some (length acc')) (tl t))
                    else ipv6_groups k acc' ell t))"

definition parse_ipv6 :: "string \<Rightarrow> addr option" where
  "parse_ipv6 s0 =
     (let (s, zone) = (case cut (CHR ''%'') s0 of None \<Rightarrow> (s0, None) | Some (a, z) \<Rightarrow> (a, Some z)) in
      if zone = Some [] then None
      else let z = (case zone of None \<Rightarrow> [] | Some z \<Rightarrow> z);
               (ell, s1) = (if prefix ''::'' s then (Some 0, drop 2 s) else (None, s)) in
        if ell = Some 0 \<and> s1 = [] then Some (Addr6 (replicate 16 0) z)
        else case ipv6_groups 8 [] ell s1 of
               None \<Rightarrow> None
             | Some (bs, e, left) \<Rightarrow>
                 if left \<noteq> [] then None
                 else if length bs < 16 then
                   (case e of
                      None \<Rightarrow> None
                    | Some i \<Rightarrow>
                        Some (Addr6 (take i bs @ replicate (16 - length bs) 0 @ drop i bs) z))
                 else if e \<noteq> None then None
                 else Some (Addr6 bs z))"

fun parse_addr_from :: "string \<Rightarrow> string \<Rightarrow> addr option" where
  "parse_addr_from s [] = None"
| "parse_addr_from s (c # cs) =
     (if c = CHR ''.'' then parse_ipv4 s
      else if c = CHR '':'' then parse_ipv6 s
      else if c = CHR ''%'' then None
      else parse_addr_from s cs)"

definition parse_addr :: "string \<Rightarrow> addr option" where
  "parse_addr s = parse_addr_from s s"

lemma ipv6_groups_numeral [go_defs]:
  "ipv6_groups (numeral k) acc ell s = ipv6_groups (Suc (pred_numeral k)) acc ell s"
  by (simp add: numeral_eq_Suc)

lemmas addr_defs [go_defs] =
  zero_addr_port_def ap_valid_def ipv4_unspecified_def ipv6_unspecified_def is_unspecified_def
  is4in6_def byte_text_def ipv4_text_def zero_run_def longest_zero_run_def hex_groups_def
  ipv6_text_def zone_text_def join_host_port_def port_text_def addr_port_text_def
  parse_octet_def parse_ipv4_fields_def parse_ipv4_def parse_ipv6_def parse_addr_def

lemma unat_byte_less [simp]: "unat (b :: byte) < 256"
  using unsigned_less [of b, where 'a = nat] by simp

lemma byte_text_chars: "c \<in> set (byte_text b) \<Longrightarrow> is_dec_digit c"
  unfolding byte_text_def by (rule format_uint_dec_chars)

lemma dot_not_in_byte_text: "CHR ''.'' \<notin> set (byte_text b)"
  using byte_text_chars dec_digit_not by blast

lemma hd_format_uint:
  "2 \<le> b \<Longrightarrow> b \<le> 36 \<Longrightarrow> b \<le> n \<Longrightarrow> hd (digits_in b n) \<noteq> 0"
proof (induction n rule: less_induct)
  case (less n)
  have lt: "n div b < n" using less.prems by (simp add: div_less_dividend)
  have nz: "n div b \<noteq> 0" using less.prems by (simp add: div_eq_0_iff)
  show ?case
  proof (cases "n div b < b")
    case True
    with less.prems nz show ?thesis by (simp add: digits_in_step digits_in_small)
  next
    case False
    with less.IH [OF lt] less.prems have "hd (digits_in b (n div b)) \<noteq> 0" by simp
    with less.prems show ?thesis by (simp add: digits_in_step)
  qed
qed

lemma digit_char_zero: "d < 36 \<Longrightarrow> digit_char d = CHR ''0'' \<longleftrightarrow> d = 0"
proof -
  assume "d < 36"
  moreover have "digit_value (CHR ''0'') = Some 0" by (simp add: digit_value_def)
  moreover have "digit_char 0 = CHR ''0''" by (simp add: digit_char_def char_of_eq_iff)
  ultimately show ?thesis
    by (metis digit_value_digit_char option.inject)
qed

lemma parse_octet_byte_text: "parse_octet (byte_text b) = Some b"
proof -
  let ?n = "unat b"
  have "\<not> (1 < length (byte_text b) \<and> hd (byte_text b) = CHR ''0'')"
  proof (cases "?n < 10")
    case True
    then show ?thesis by (simp add: byte_text_def format_uint_def digits_in_small)
  next
    case False
    then have "hd (digits_in 10 ?n) \<noteq> 0" by (simp add: hd_format_uint)
    moreover have "hd (digits_in 10 ?n) < 10"
      by (rule digits_in_bound [of 10 _ ?n]) simp_all
    ultimately show ?thesis
      by (simp add: byte_text_def format_uint_def hd_map digit_char_zero)
  qed
  moreover have "parse_digits 10 0 (byte_text b) = Some ?n"
    by (simp add: byte_text_def format_uint_def parse_digits_digits_in)
  moreover have "?n \<le> 255" using unat_byte_less [of b] by linarith
  ultimately show ?thesis
    by (simp add: parse_octet_def byte_text_def)
qed

lemma split_ipv4_text:
  "split_on (CHR ''.'') (ipv4_text a b c d) = [byte_text a, byte_text b, byte_text c, byte_text d]"
  by (simp add: ipv4_text_def split_on_append split_on_no_sep dot_not_in_byte_text)

lemma parse_ipv4_text: "parse_ipv4 (ipv4_text a b c d) = Some (Addr4 a b c d)"
  by (simp add: parse_ipv4_def parse_ipv4_fields_def split_ipv4_text parse_octet_byte_text)

lemma parse_addr_from_digits:
  "(\<And>c. c \<in> set p \<Longrightarrow> is_dec_digit c) \<Longrightarrow> parse_addr_from s (p @ CHR ''.'' # t) = parse_ipv4 s"
  by (induction p) (auto dest: dec_digit_not)

lemma parse_addr_ipv4_text: "parse_addr (ipv4_text a b c d) = Some (Addr4 a b c d)"
proof -
  have e: "ipv4_text a b c d = byte_text a @ CHR ''.'' # join ''.'' [byte_text b, byte_text c, byte_text d]"
    by (simp add: ipv4_text_def)
  have "parse_addr (ipv4_text a b c d) = parse_ipv4 (ipv4_text a b c d)"
    unfolding parse_addr_def by (subst (2) e, rule parse_addr_from_digits) (rule byte_text_chars)
  then show ?thesis by (simp add: parse_ipv4_text)
qed

end
