(* ===== verification/Socket_Options.thy ===== *)
theory Socket_Options
  imports Net_Addr
begin

text \<open>
  \<open>internal/socketopts\<close>: the network and the local address of a socket from its source, and the
  control function that sets the options of a socket before it is bound or connected, for Linux and
  for the other systems.  The system calls themselves are arguments.
\<close>

section \<open>Network and local address\<close>

definition network_for_source :: "string \<Rightarrow> addr_port \<Rightarrow> string" where
  "network_for_source network source =
     (if \<not> ap_valid source \<or> \<not> is4 (ap_addr source) then network
      else if network = ''tcp'' then ''tcp4''
      else if network = ''udp'' then ''udp4''
      else network)"

datatype net_addr = NoAddr | TCPAddr addr "16 word" | UDPAddr addr "16 word"

definition local_addr :: "string \<Rightarrow> addr_port \<Rightarrow> string + net_addr" where
  "local_addr network source =
     (if \<not> ap_valid source then Inr NoAddr
      else if network = ''tcp'' \<or> network = ''tcp4'' then Inr (TCPAddr (ap_addr source) (ap_port source))
      else if network = ''udp'' \<or> network = ''udp4'' then Inr (UDPAddr (ap_addr source) (ap_port source))
      else Inl network)"

record sock_options =
  so_interface :: string
  so_reuse :: bool
  so_disable_reuse_port :: bool

section \<open>The constants of the architectures\<close>

text \<open>
  The four MIPS architectures of Go have socket constants of their own.  \<open>soReusePort\<close> is chosen by
  the build constraints of two files; the others are constants of the package \<open>syscall\<close>.
\<close>

definition mips_family :: "string \<Rightarrow> bool" where
  "mips_family goarch \<longleftrightarrow> goarch \<in> set [''mips'', ''mipsle'', ''mips64'', ''mips64le'']"

definition so_reuse_port_mips :: int where
  "so_reuse_port_mips = 0x200"

definition so_reuse_port_generic :: int where
  "so_reuse_port_generic = 0x0f"

definition so_reuse_port :: "string \<Rightarrow> int" where
  "so_reuse_port goarch = (if mips_family goarch then so_reuse_port_mips else so_reuse_port_generic)"

definition so_reuse_addr :: "string \<Rightarrow> int" where
  "so_reuse_addr goarch = (if mips_family goarch then 4 else 2)"

definition sol_socket :: "string \<Rightarrow> int" where
  "sol_socket goarch = (if mips_family goarch then 0xffff else 1)"

definition so_bind_to_device :: int where
  "so_bind_to_device = 0x19"

section \<open>Setters and their calls\<close>

text \<open>
  A call of a setter names the descriptor, the level, the option and the value.  A setter may be
  missing; its answer may depend on the calls before it.
\<close>

datatype option_call = SetInt int int int int | SetString int int int string

record setters =
  st_int :: "(option_call list \<Rightarrow> int \<Rightarrow> int \<Rightarrow> int \<Rightarrow> int \<Rightarrow> goerror option) option"
  st_string :: "(option_call list \<Rightarrow> int \<Rightarrow> int \<Rightarrow> int \<Rightarrow> string \<Rightarrow> goerror option) option"

definition err_missing_setter :: goerror where
  "err_missing_setter = errorf ''socketopts: missing setter for requested option''"

definition err_unsupported :: goerror where
  "err_unsupported = errorf ''socket options are only supported on linux''"

text \<open>
  The closure of \<open>ControlWith\<close> on Linux, run on the descriptor \<open>fd\<close>: the error it leaves behind and
  the calls, in order.  The first failure ends it.
\<close>

definition set_reuse :: "string \<Rightarrow> sock_options \<Rightarrow> setters \<Rightarrow> int \<Rightarrow> goerror option \<times> option_call list" where
  "set_reuse goarch opts st fd =
     (if \<not> so_reuse opts then (None, [])
      else (case st_int st of
          None \<Rightarrow> (None, [])
        | Some set_int \<Rightarrow>
            let addr_call = SetInt fd (sol_socket goarch) (so_reuse_addr goarch) 1;
                port_call = SetInt fd (sol_socket goarch) (so_reuse_port goarch) 1
            in (case set_int [] fd (sol_socket goarch) (so_reuse_addr goarch) 1 of
                  Some e \<Rightarrow> (Some e, [addr_call])
                | None \<Rightarrow>
                    if so_disable_reuse_port opts then (None, [addr_call])
                    else (set_int [addr_call] fd (sol_socket goarch) (so_reuse_port goarch) 1, [addr_call, port_call]))))"

definition set_interface ::
  "string \<Rightarrow> sock_options \<Rightarrow> setters \<Rightarrow> int \<Rightarrow> option_call list \<Rightarrow> goerror option \<times> option_call list" where
  "set_interface goarch opts st fd calls =
     (if so_interface opts = [] then (None, calls)
      else (case st_string st of
              None \<Rightarrow> (Some err_missing_setter, calls)
            | Some set_string \<Rightarrow>
                (set_string calls fd (sol_socket goarch) so_bind_to_device (so_interface opts),
                 calls @ [SetString fd (sol_socket goarch) so_bind_to_device (so_interface opts)])))"

text \<open>\<open>raw\<close> is what \<open>conn.Control\<close> does: it runs the closure on a descriptor, or fails without running it.\<close>

definition control_with_linux ::
  "string \<Rightarrow> sock_options \<Rightarrow> setters \<Rightarrow> goerror + int \<Rightarrow> goerror option \<times> option_call list" where
  "control_with_linux goarch opts st raw =
     (case raw of
        Inl e \<Rightarrow> (Some e, [])
      | Inr fd \<Rightarrow>
          (case set_reuse goarch opts st fd of
             (Some e, calls) \<Rightarrow> (Some e, calls)
           | (None, calls) \<Rightarrow> set_interface goarch opts st fd calls))"

definition control_with_other :: "sock_options \<Rightarrow> goerror option \<times> option_call list" where
  "control_with_other opts =
     (if so_interface opts = [] \<and> \<not> so_reuse opts then None else Some err_unsupported, [])"

text \<open>\<open>Control\<close> sets the options with the two system calls.\<close>

definition control_linux ::
  "string \<Rightarrow> (option_call list \<Rightarrow> int \<Rightarrow> int \<Rightarrow> int \<Rightarrow> int \<Rightarrow> goerror option) \<Rightarrow>
   (option_call list \<Rightarrow> int \<Rightarrow> int \<Rightarrow> int \<Rightarrow> string \<Rightarrow> goerror option) \<Rightarrow>
   sock_options \<Rightarrow> goerror + int \<Rightarrow> goerror option \<times> option_call list" where
  "control_linux goarch setsockopt_int setsockopt_string opts =
     control_with_linux goarch opts \<lparr>st_int = Some setsockopt_int, st_string = Some setsockopt_string\<rparr>"

definition control_other :: "sock_options \<Rightarrow> goerror option \<times> option_call list" where
  "control_other opts = control_with_other opts"

lemmas socket_options_defs [go_defs] =
  mips_family_def so_reuse_port_def so_reuse_addr_def sol_socket_def set_reuse_def set_interface_def
  control_with_linux_def control_with_other_def control_linux_def control_other_def

section \<open>What the control function does\<close>

text \<open>The calls that a set of options asks for, in their order.\<close>

definition wanted_calls :: "string \<Rightarrow> sock_options \<Rightarrow> int \<Rightarrow> option_call list" where
  "wanted_calls goarch opts fd =
     (if so_reuse opts then SetInt fd (sol_socket goarch) (so_reuse_addr goarch) 1 #
        (if so_disable_reuse_port opts then [] else [SetInt fd (sol_socket goarch) (so_reuse_port goarch) 1]) else []) @
     (if so_interface opts = [] then []
      else [SetString fd (sol_socket goarch) so_bind_to_device (so_interface opts)])"

fun answer_call ::
  "(option_call list \<Rightarrow> int \<Rightarrow> int \<Rightarrow> int \<Rightarrow> int \<Rightarrow> goerror option) \<Rightarrow>
   (option_call list \<Rightarrow> int \<Rightarrow> int \<Rightarrow> int \<Rightarrow> string \<Rightarrow> goerror option) \<Rightarrow>
   option_call list \<Rightarrow> option_call \<Rightarrow> goerror option" where
  "answer_call f g h (SetInt fd level opt v) = f h fd level opt v"
| "answer_call f g h (SetString fd level opt v) = g h fd level opt v"

text \<open>A list of calls made one after the other until one fails.\<close>

fun run_calls :: "(option_call list \<Rightarrow> option_call \<Rightarrow> goerror option) \<Rightarrow> option_call list \<Rightarrow> option_call list \<Rightarrow>
  goerror option \<times> option_call list" where
  "run_calls answer h [] = (None, h)"
| "run_calls answer h (c # cs) =
     (case answer h c of Some e \<Rightarrow> (Some e, h @ [c]) | None \<Rightarrow> run_calls answer (h @ [c]) cs)"

lemma control_linux_runs_wanted:
  "control_linux goarch f g opts (Inr fd) = run_calls (answer_call f g) [] (wanted_calls goarch opts fd)"
  by (auto simp: control_linux_def control_with_linux_def set_reuse_def set_interface_def wanted_calls_def Let_def
      split: option.splits)

lemma run_calls_ok: "fst (run_calls answer h cs) = None \<Longrightarrow> snd (run_calls answer h cs) = h @ cs"
  by (induction cs arbitrary: h) (auto split: option.splits)

text \<open>
  When \<open>Control\<close> reports no error every option that was asked for is set: nothing is skipped.  With
  setters of the caller this holds for the interface only; a missing integer setter leaves the reuse
  options unset without an error.
\<close>

lemma control_linux_success:
  assumes "control_linux goarch f g opts raw = (None, calls)"
  obtains fd where "raw = Inr fd" "calls = wanted_calls goarch opts fd"
proof (cases raw)
  case (Inl e)
  with assms show ?thesis by (simp add: control_linux_def control_with_linux_def)
next
  case (Inr fd)
  with assms run_calls_ok [of "answer_call f g" "[]" "wanted_calls goarch opts fd"] that show ?thesis
    by (simp add: control_linux_runs_wanted)
qed

lemma missing_int_setter_is_silent:
  "control_with_linux goarch \<lparr>so_interface = [], so_reuse = True, so_disable_reuse_port = d\<rparr>
     \<lparr>st_int = None, st_string = s\<rparr> (Inr fd) = (None, [])"
  by (simp add: control_with_linux_def set_reuse_def set_interface_def)

lemma missing_string_setter_fails:
  "iface \<noteq> [] \<Longrightarrow>
   control_with_linux goarch \<lparr>so_interface = iface, so_reuse = False, so_disable_reuse_port = d\<rparr>
     \<lparr>st_int = i, st_string = None\<rparr> (Inr fd) = (Some err_missing_setter, [])"
  by (simp add: control_with_linux_def set_reuse_def set_interface_def split: option.splits)

lemma reuse_port_differs: "so_reuse_port ''mipsle'' \<noteq> so_reuse_port ''arm64''"
  by (simp add: so_reuse_port_def mips_family_def so_reuse_port_mips_def so_reuse_port_generic_def)

end
