(* ===== verification/Stun_Message.thy ===== *)
theory Stun_Message
  imports Socket_Options
begin

text \<open>
  \<open>internal/stun/message.go\<close>: the STUN binding request and the parser of a binding response.
  Messages are byte lists and every slice expression of the parser is the panicking \<open>slice\<close>, so
  that "never reads out of range" is a statement about the result.
\<close>

datatype stun_error =
    ShortResponse | InvalidMessageType | NotBindingSuccess | InvalidMagicCookie
  | TransactionMismatch | TruncatedAttributes | TruncatedAttribute | TruncatedPadding
  | AddressNotFound | FingerprintLength nat | FingerprintPosition | FingerprintMismatch "32 word" "32 word"
  | ShortAddressAttribute | ShortIPv4Attribute | ShortIPv6Attribute | UnsupportedFamily byte
  | SlicePanic

text \<open>The texts of the errors; \<open>%#08x\<close> writes eight digits behind its prefix.\<close>

definition hex32_text :: "32 word \<Rightarrow> string" where
  "hex32_text w = ''0x'' @ pad_zero 8 (format_uint 16 (unat w))"

fun stun_error_text :: "stun_error \<Rightarrow> string" where
  "stun_error_text ShortResponse = ''short STUN response''"
| "stun_error_text InvalidMessageType = ''invalid STUN message type: top two bits must be zero''"
| "stun_error_text NotBindingSuccess = ''not a STUN binding success response''"
| "stun_error_text InvalidMagicCookie = ''invalid STUN magic cookie''"
| "stun_error_text TransactionMismatch = ''STUN transaction id mismatch''"
| "stun_error_text TruncatedAttributes = ''truncated STUN attributes''"
| "stun_error_text TruncatedAttribute = ''truncated STUN attribute''"
| "stun_error_text TruncatedPadding = ''truncated STUN attribute padding''"
| "stun_error_text AddressNotFound = ''mapped address attribute not found''"
| "stun_error_text (FingerprintLength n) = ''invalid STUN FINGERPRINT length '' @ itoa (int n)"
| "stun_error_text FingerprintPosition = ''invalid STUN FINGERPRINT position''"
| "stun_error_text (FingerprintMismatch computed sent) =
     ''invalid STUN FINGERPRINT: got '' @ hex32_text sent @ '' want '' @ hex32_text computed"
| "stun_error_text ShortAddressAttribute = ''short STUN address attribute''"
| "stun_error_text ShortIPv4Attribute = ''short STUN IPv4 address attribute''"
| "stun_error_text ShortIPv6Attribute = ''short STUN IPv6 address attribute''"
| "stun_error_text (UnsupportedFamily f) = ''unsupported STUN address family '' @ itoa (uint f)"
| "stun_error_text SlicePanic = ''runtime error: slice bounds out of range''"

definition binding_request :: "16 word" where "binding_request = 0x0001"
definition binding_success :: "16 word" where "binding_success = 0x0101"
definition attr_mapped_address :: "16 word" where "attr_mapped_address = 0x0001"
definition attr_xor_mapped_address :: "16 word" where "attr_xor_mapped_address = 0x0020"
definition attr_fingerprint :: "16 word" where "attr_fingerprint = 0x8028"
definition fingerprint_xor :: "32 word" where "fingerprint_xor = 0x5354554e"
definition magic_cookie :: "32 word" where "magic_cookie = 0x2112a442"

definition build_binding_request :: "byte list \<Rightarrow> byte list" where
  "build_binding_request txid = put16 binding_request @ put16 0 @ put32 magic_cookie @ txid"

section \<open>CRC-32\<close>

text \<open>\<open>crc32.ChecksumIEEE\<close>: the reflected polynomial, initial value and final complement.\<close>

definition crc32_bit :: "32 word \<Rightarrow> 32 word" where
  "crc32_bit c = (if bit c 0 then drop_bit 1 c XOR 0xEDB88320 else drop_bit 1 c)"

definition crc32_byte :: "32 word \<Rightarrow> byte \<Rightarrow> 32 word" where
  "crc32_byte c b = (crc32_bit ^^ 8) (c XOR ucast b)"

definition crc32_ieee :: "byte list \<Rightarrow> 32 word" where
  "crc32_ieee bs = NOT (foldl crc32_byte 0xFFFFFFFF bs)"

section \<open>Attributes\<close>

definition read16 :: "byte list \<Rightarrow> nat \<Rightarrow> stun_error + 16 word" where
  "read16 bs i =
     res_bind (slice SlicePanic bs i (i + 2)) (\<lambda>s. Inr (be16 (s ! 0) (s ! 1)))"

definition read32 :: "byte list \<Rightarrow> nat \<Rightarrow> stun_error + 32 word" where
  "read32 bs i =
     res_bind (slice SlicePanic bs i (i + 4)) (\<lambda>s. Inr (be32 (s ! 0) (s ! 1) (s ! 2) (s ! 3)))"

definition verify_fingerprint :: "byte list \<Rightarrow> byte list \<Rightarrow> stun_error + unit" where
  "verify_fingerprint head value =
     (if length value \<noteq> 4 then Inl (FingerprintLength (length value))
      else if length head < 20 then Inl FingerprintPosition
      else res_bind (read32 value 0) (\<lambda>want.
           let got = crc32_ieee head XOR fingerprint_xor in
           if want \<noteq> got then Inl (FingerprintMismatch got want) else Inr ()))"

definition xor_bytes :: "byte list \<Rightarrow> byte list \<Rightarrow> byte list" where
  "xor_bytes xs ms = map2 (XOR) xs ms"

definition addr_from_bytes :: "byte list \<Rightarrow> addr" where
  "addr_from_bytes bs =
     (if length bs = 4 then Addr4 (bs ! 0) (bs ! 1) (bs ! 2) (bs ! 3) else Addr6 bs [])"

definition parse_address_attribute :: "16 word \<Rightarrow> byte list \<Rightarrow> byte list \<Rightarrow> stun_error + addr_port" where
  "parse_address_attribute typ value xor_mask =
     (if length value < 4 then Inl ShortAddressAttribute
      else
        res_bind (read16 value 2) (\<lambda>port0.
        res_bind (index SlicePanic value 1) (\<lambda>family.
        if family = 0x01 then
          (if length value < 8 then Inl ShortIPv4Attribute
           else res_bind (slice SlicePanic value 4 8) (\<lambda>ip.
                if typ = attr_xor_mapped_address
                then Inr (AddrPort (addr_from_bytes (xor_bytes ip xor_mask))
                                   (port0 XOR ucast (drop_bit 16 magic_cookie)))
                else Inr (AddrPort (addr_from_bytes ip) port0)))
        else if family = 0x02 then
          (if length value < 20 then Inl ShortIPv6Attribute
           else res_bind (slice SlicePanic value 4 20) (\<lambda>ip.
                if typ = attr_xor_mapped_address
                then Inr (AddrPort (addr_from_bytes (xor_bytes ip xor_mask))
                                   (port0 XOR ucast (drop_bit 16 magic_cookie)))
                else Inr (AddrPort (addr_from_bytes ip) port0)))
        else Inl (UnsupportedFamily family))))"

text \<open>\<open>(attrLen + 3) &^ 3\<close>: the attribute length rounded up to a multiple of four.\<close>

definition padded_len :: "nat \<Rightarrow> nat" where
  "padded_len n = (n + 3) div 4 * 4"

text \<open>
  The \<open>switch\<close> on one attribute: the first address attribute is decoded, a fingerprint is
  verified over everything before it, anything else is skipped.
\<close>

definition attr_switch ::
  "byte list \<Rightarrow> byte list \<Rightarrow> 16 word \<Rightarrow> byte list \<Rightarrow> nat \<Rightarrow> addr_port option \<Rightarrow> stun_error + addr_port option" where
  "attr_switch msg xor_mask typ value offset found =
     (if found = None \<and> (typ = attr_mapped_address \<or> typ = attr_xor_mapped_address)
      then res_bind (parse_address_attribute typ value xor_mask) (\<lambda>a. Inr (Some a))
      else if typ = attr_fingerprint
      then res_bind (slice SlicePanic msg 0 (20 + offset)) (\<lambda>head.
           res_bind (verify_fingerprint head value) (\<lambda>_. Inr found))
      else Inr found)"

text \<open>
  The attribute loop: \<open>payload\<close> is the unread part, \<open>offset\<close> how much of the attributes has been
  consumed (needed for the fingerprint, which covers everything before it).
\<close>

function attr_loop ::
  "byte list \<Rightarrow> byte list \<Rightarrow> byte list \<Rightarrow> nat \<Rightarrow> addr_port option \<Rightarrow> stun_error + addr_port option" where
  "attr_loop msg xor_mask payload offset found =
     (if length payload < 4 then Inr found
      else
        res_bind (read16 payload 0) (\<lambda>typ.
        res_bind (read16 payload 2) (\<lambda>len.
        let attr_len = unat len in
        if length payload < 4 + attr_len then Inl TruncatedAttribute
        else
          res_bind (slice SlicePanic payload 4 (4 + attr_len)) (\<lambda>value.
          res_bind (attr_switch msg xor_mask typ value offset found) (\<lambda>found'.
          let padded = padded_len attr_len in
          if length payload < 4 + padded then Inl TruncatedPadding
          else attr_loop msg xor_mask (drop (4 + padded) payload) (offset + 4 + padded) found')))))"
  by pat_completeness auto
termination
  by (relation "measure (\<lambda>(_, _, payload, _, _). length payload)") auto

declare attr_loop.simps [simp del]

definition parse_mapped_address :: "byte list \<Rightarrow> byte list \<Rightarrow> stun_error + addr_port" where
  "parse_mapped_address msg txid =
     (if length msg < 20 then Inl ShortResponse
      else
        res_bind (index SlicePanic msg 0) (\<lambda>b0.
        if b0 AND 0xc0 \<noteq> 0 then Inl InvalidMessageType
        else
        res_bind (read16 msg 0) (\<lambda>typ.
        if typ \<noteq> binding_success then Inl NotBindingSuccess
        else
        res_bind (read32 msg 4) (\<lambda>cookie.
        if cookie \<noteq> magic_cookie then Inl InvalidMagicCookie
        else
        res_bind (slice SlicePanic msg 8 20) (\<lambda>id.
        if id \<noteq> txid then Inl TransactionMismatch
        else
        res_bind (read16 msg 2) (\<lambda>size.
        if length msg < 20 + unat size then Inl TruncatedAttributes
        else
        res_bind (slice SlicePanic msg 20 (20 + unat size)) (\<lambda>payload.
        res_bind (attr_loop msg (put32 magic_cookie @ txid) payload 0 None) (\<lambda>found.
        of_option AddressNotFound found))))))))"

lemmas stun_const_defs [go_defs] =
  binding_request_def binding_success_def attr_mapped_address_def attr_xor_mapped_address_def
  attr_fingerprint_def fingerprint_xor_def magic_cookie_def

lemmas stun_message_defs [go_defs] =
  build_binding_request_def crc32_bit_def crc32_byte_def crc32_ieee_def read16_def read32_def
  verify_fingerprint_def xor_bytes_def addr_from_bytes_def parse_address_attribute_def
  padded_len_def attr_switch_def attr_loop.simps parse_mapped_address_def

lemma read16_ok: "i + 2 \<le> length bs \<Longrightarrow> read16 bs i = Inr (be16 (bs ! i) (bs ! (i + 1)))"
  by (simp add: read16_def)

lemma read32_ok:
  "i + 4 \<le> length bs \<Longrightarrow> read32 bs i = Inr (be32 (bs ! i) (bs ! (i + 1)) (bs ! (i + 2)) (bs ! (i + 3)))"
  by (simp add: read32_def)

lemma verify_fingerprint_no_panic: "verify_fingerprint head value \<noteq> Inl SlicePanic"
  by (simp add: verify_fingerprint_def read32_ok Let_def)

lemma parse_address_attribute_no_panic: "parse_address_attribute typ value m \<noteq> Inl SlicePanic"
  by (simp add: parse_address_attribute_def read16_ok)

lemma attr_switch_no_panic:
  "20 + offset \<le> length msg \<Longrightarrow> attr_switch msg m typ value offset found \<noteq> Inl SlicePanic"
  using verify_fingerprint_no_panic parse_address_attribute_no_panic
  by (auto simp: attr_switch_def res_bind_eq_Inl)

lemma padded_len_ge: "n \<le> padded_len n" "padded_len n \<le> n + 3" "4 dvd padded_len n"
  by (auto simp: padded_len_def)

lemma attr_loop_short: "length payload < 4 \<Longrightarrow> attr_loop msg m payload offset found = Inr found"
  by (subst attr_loop.simps) simp

lemma attr_loop_step:
  assumes "4 \<le> length payload" and "n = unat (be16 (payload ! 2) (payload ! 3))"
  shows "attr_loop msg m payload offset found =
    (if length payload < 4 + n then Inl TruncatedAttribute
     else res_bind (attr_switch msg m (be16 (payload ! 0) (payload ! 1)) (take n (drop 4 payload)) offset found)
       (\<lambda>found'. if length payload < 4 + padded_len n then Inl TruncatedPadding
          else attr_loop msg m (drop (4 + padded_len n) payload) (offset + 4 + padded_len n) found'))"
  unfolding assms(2) using assms(1) by (subst attr_loop.simps) (simp add: read16_ok Let_def)

lemma attr_loop_no_panic:
  "20 + offset + length payload \<le> length msg \<Longrightarrow> attr_loop msg m payload offset found \<noteq> Inl SlicePanic"
proof (induction payload arbitrary: offset found rule: length_induct)
  case (1 payload)
  show ?case
  proof (cases "length payload < 4")
    case True
    then show ?thesis by (simp add: attr_loop_short)
  next
    case False
    let ?n = "unat (be16 (payload ! 2) (payload ! 3))"
    let ?rest = "drop (4 + padded_len ?n) payload"
    have IH: "attr_loop msg m ?rest (offset + 4 + padded_len ?n) f \<noteq> Inl SlicePanic"
      if "4 + padded_len ?n \<le> length payload" for f
      using 1 that False by simp
    show ?thesis
      using False "1.prems" attr_switch_no_panic [of offset msg m] IH
      by (auto simp: attr_loop_step res_bind_eq_Inl)
  qed
qed

lemma parse_mapped_address_checks:
  assumes "20 \<le> length msg" and "n = unat (be16 (msg ! 2) (msg ! 3))"
  shows "parse_mapped_address msg txid =
    (if msg ! 0 AND 0xc0 \<noteq> 0 then Inl InvalidMessageType
     else if be16 (msg ! 0) (msg ! 1) \<noteq> binding_success then Inl NotBindingSuccess
     else if be32 (msg ! 4) (msg ! 5) (msg ! 6) (msg ! 7) \<noteq> magic_cookie then Inl InvalidMagicCookie
     else if take 12 (drop 8 msg) \<noteq> txid then Inl TransactionMismatch
     else if length msg < 20 + n then Inl TruncatedAttributes
     else res_bind (attr_loop msg (put32 magic_cookie @ txid) (take n (drop 20 msg)) 0 None)
            (of_option AddressNotFound))"
proof -
  from assms(1) have "0 < length msg" by linarith
  with assms(1) show ?thesis
    unfolding assms(2)
    by (simp add: parse_mapped_address_def read16_ok read32_ok)
qed


section \<open>Responses as RFC 5389 lays them out\<close>

definition encode_attr :: "16 word \<times> byte list \<Rightarrow> byte list" where
  "encode_attr tv = (let (typ, value) = tv in
     put16 typ @ put16 (of_nat (length value)) @ value @ replicate (padded_len (length value) - length value) 0)"

definition encode_attrs :: "(16 word \<times> byte list) list \<Rightarrow> byte list" where
  "encode_attrs tvs = concat (map encode_attr tvs)"

definition response_header :: "byte list \<Rightarrow> nat \<Rightarrow> byte list" where
  "response_header txid n = put16 binding_success @ put16 (of_nat n) @ put32 magic_cookie @ txid"

fun addr_bytes :: "addr \<Rightarrow> byte list" where
  "addr_bytes AddrInvalid = []"
| "addr_bytes (Addr4 a b c d) = [a, b, c, d]"
| "addr_bytes (Addr6 bs _) = bs"

fun wire_addr :: "addr \<Rightarrow> bool" where
  "wire_addr AddrInvalid \<longleftrightarrow> False"
| "wire_addr (Addr4 _ _ _ _) \<longleftrightarrow> True"
| "wire_addr (Addr6 bs z) \<longleftrightarrow> length bs = 16 \<and> z = []"

definition encode_xor_address :: "addr_port \<Rightarrow> byte list \<Rightarrow> byte list" where
  "encode_xor_address ap txid =
     [0, if is4 (ap_addr ap) then 0x01 else 0x02] @
     put16 (ap_port ap XOR ucast (drop_bit 16 magic_cookie)) @
     xor_bytes (addr_bytes (ap_addr ap)) (put32 magic_cookie @ txid)"

lemma encode_attr_eq:
  "encode_attr (t, v) = put16 t @ put16 (of_nat (length v)) @ v @ replicate (padded_len (length v) - length v) 0"
  by (simp add: encode_attr_def)

lemma length_encode_attr: "length (encode_attr (t, v)) = 4 + padded_len (length v)"
  using padded_len_ge [of "length v"] by (simp add: encode_attr_eq)

lemma encode_attrs_simps [simp]:
  "encode_attrs [] = []"
  "encode_attrs (a # as) = encode_attr a @ encode_attrs as"
  "encode_attrs (as @ bs) = encode_attrs as @ encode_attrs bs"
  by (simp_all add: encode_attrs_def)

lemma unat_len16: "n < 65536 \<Longrightarrow> unat (of_nat n :: 16 word) = n"
  by (simp add: unsigned_of_nat take_bit_nat_eq_self)

lemma attr_loop_encode:
  assumes "length v < 65536"
  shows "attr_loop msg m (encode_attr (t, v) @ rest) off found =
    res_bind (attr_switch msg m t v off found)
      (attr_loop msg m rest (off + length (encode_attr (t, v))))"
proof -
  obtain p where p: "p = encode_attr (t, v) @ rest" by blast
  have b: "be16 (p ! 0) (p ! 1) = t" "unat (be16 (p ! 2) (p ! 3)) = length v"
    using assms by (simp_all add: p encode_attr_eq put16_def numeral_2_eq_2 numeral_3_eq_3 unat_len16 be16_put16 [unfolded One_nat_def])
  have d: "take (length v) (drop 4 p) = v" by (simp add: p encode_attr_eq put16_def)
  have r: "drop (4 + padded_len (length v)) p = rest"
    unfolding p by (metis append_eq_conv_conj length_encode_attr)
  have l: "length p = 4 + padded_len (length v) + length rest" by (simp add: p length_encode_attr)
  have "attr_loop msg m p off found = res_bind (attr_switch msg m t v off found)
      (attr_loop msg m rest (off + length (encode_attr (t, v))))"
    using l padded_len_ge(1) [of "length v"]
    by (subst attr_loop_step [of _ "length v"]) (simp_all add: b [simplified] d r length_encode_attr add.assoc)
  then show ?thesis by (simp add: p)
qed

definition skipped :: "addr_port option \<Rightarrow> 16 word \<times> byte list \<Rightarrow> bool" where
  "skipped found tv \<longleftrightarrow> (let (t, v) = tv in
     length v < 65536 \<and> t \<noteq> attr_fingerprint \<and>
     (found = None \<longrightarrow> t \<noteq> attr_mapped_address \<and> t \<noteq> attr_xor_mapped_address))"

lemma attr_loop_skip:
  "(\<forall>tv \<in> set tvs. skipped found tv) \<Longrightarrow>
   attr_loop msg m (encode_attrs tvs @ rest) off found =
   attr_loop msg m rest (off + length (encode_attrs tvs)) found"
proof (induction tvs arbitrary: off)
  case Nil
  then show ?case by simp
next
  case (Cons tv tvs)
  obtain t v where tv: "tv = (t, v)" by (cases tv)
  with Cons.prems have sk: "skipped found (t, v)" by simp
  then have "attr_switch msg m t v off found = Inr found"
    by (auto simp: attr_switch_def skipped_def)
  with sk Cons tv show ?case
    by (simp add: attr_loop_encode skipped_def add.assoc)
qed

lemma xor_bytes_twice: "length bs \<le> length m \<Longrightarrow> xor_bytes (xor_bytes bs m) m = bs"
  by (induction bs m rule: list_induct2') (auto simp: xor_bytes_def xor.assoc)

lemma length_xor_bytes [simp]: "length (xor_bytes bs m) = min (length bs) (length m)"
  by (simp add: xor_bytes_def)

lemma addr_from_bytes_wire: "wire_addr a \<Longrightarrow> addr_from_bytes (addr_bytes a) = a"
  by (cases a) (auto simp: addr_from_bytes_def)

lemma xor16_cancel: "(x XOR k) XOR k = (x :: 'a::len word)"
  by (simp add: xor.assoc)

lemma be16_field: "be16 (([x, y] @ put16 w @ z) ! 2) (([x, y] @ put16 w @ z) ! 3) = w"
  by (simp add: put16_def numeral_2_eq_2 numeral_3_eq_3)

lemma parse_encoded_xor_address:
  assumes "wire_addr a" and "length txid = 12"
  shows "parse_address_attribute attr_xor_mapped_address
           (encode_xor_address (AddrPort a p) txid) (put32 magic_cookie @ txid) = Inr (AddrPort a p)"
proof -
  let ?m = "put32 magic_cookie @ txid"
  let ?x = "xor_bytes (addr_bytes a) ?m"
  let ?v = "encode_xor_address (AddrPort a p) txid"
  have v: "?v = [0, if is4 a then 0x01 else 0x02] @
      put16 (p XOR ucast (drop_bit 16 magic_cookie)) @ ?x"
    by (simp add: encode_xor_address_def)
  have x: "xor_bytes ?x ?m = addr_bytes a"
    using assms by (intro xor_bytes_twice) (cases a, auto)
  have port: "be16 (?v ! 2) (?v ! 3) = p XOR ucast (drop_bit 16 magic_cookie)"
    unfolding v by (rule be16_field)
  have fam: "?v ! 1 = (if is4 a then 0x01 else 0x02)" by (simp add: v)
  have len: "length ?v = (if is4 a then 8 else 20)"
    using assms by (cases a) (auto simp: encode_xor_address_def)
  have d: "drop 4 ?v = ?x" by (simp add: v put16_def)
  have t: "length ?x = (if is4 a then 4 else 16)"
    using assms by (cases a) auto
  then have tk: "is4 a \<Longrightarrow> take 4 ?x = ?x" "\<not> is4 a \<Longrightarrow> take 16 ?x = ?x"
    by (simp_all del: length_xor_bytes)
  show ?thesis
    using len addr_from_bytes_wire [OF assms(1)]
    by (simp add: parse_address_attribute_def read16_ok port [simplified] fam [simplified] d tk x xor16_cancel)
qed

definition skippable :: "16 word \<times> byte list \<Rightarrow> bool" where
  "skippable tv \<longleftrightarrow> length (snd tv) < 65536 \<and> fst tv \<notin> {attr_fingerprint, attr_mapped_address, attr_xor_mapped_address}"

definition ignorable :: "16 word \<times> byte list \<Rightarrow> bool" where
  "ignorable tv \<longleftrightarrow> length (snd tv) < 65536 \<and> fst tv \<noteq> attr_fingerprint"

definition address_response :: "byte list \<Rightarrow> (16 word \<times> byte list) list \<Rightarrow> addr_port \<Rightarrow> (16 word \<times> byte list) list \<Rightarrow> byte list" where
  "address_response txid pre ap post =
     encode_attrs pre @ encode_attr (attr_xor_mapped_address, encode_xor_address ap txid) @ encode_attrs post"

lemma length_encode_xor_address: "length txid = 12 \<Longrightarrow> length (encode_xor_address ap txid) < 65536"
  by (simp add: encode_xor_address_def)

lemma attr_loop_address_response:
  assumes "\<forall>tv \<in> set pre. skippable tv" "\<forall>tv \<in> set post. ignorable tv"
    and "wire_addr a" "length txid = 12"
  shows "attr_loop msg (put32 magic_cookie @ txid) (address_response txid pre (AddrPort a p) post @ rest) 0 None =
    attr_loop msg (put32 magic_cookie @ txid) rest (length (address_response txid pre (AddrPort a p) post)) (Some (AddrPort a p))"
proof -
  have pre: "\<forall>tv \<in> set pre. skipped None tv"
    using assms(1) by (auto simp: skipped_def skippable_def)
  have post: "\<forall>tv \<in> set post. skipped (Some (AddrPort a p)) tv"
    using assms(2) by (auto simp: skipped_def ignorable_def)
  show ?thesis
    unfolding address_response_def append_assoc attr_loop_skip [OF pre]
      attr_loop_encode [OF length_encode_xor_address [OF assms(4)]]
    by (simp add: attr_switch_def parse_encoded_xor_address [OF assms(3,4)] attr_loop_skip [OF post] add.assoc)
qed

lemma parse_with_header:
  assumes "length txid = 12" "length body < 65536"
  shows "parse_mapped_address (response_header txid (length body) @ body) txid =
    res_bind (attr_loop (response_header txid (length body) @ body) (put32 magic_cookie @ txid) body 0 None)
      (of_option AddressNotFound)"
proof -
  obtain msg where msg: "msg = response_header txid (length body) @ body" by blast
  obtain h where h: "h = put16 binding_success @ put16 (of_nat (length body)) @ put32 magic_cookie" by blast
  have m: "msg = h @ txid @ body" "length h = 8"
    by (simp_all add: msg h response_header_def)
  have l: "length msg = 20 + length body" using assms m by simp
  have i: "msg ! k = h ! k" if "k < 8" for k using m that by (simp add: nth_append)
  have b: "be16 (h ! 0) (h ! 1) = binding_success" "unat (be16 (h ! 2) (h ! 3)) = length body"
    "be32 (h ! 4) (h ! 5) (h ! 6) (h ! 7) = magic_cookie"
    using assms(2) by (simp_all add: h put16_def put32_def unat_len16)
  have z: "h ! 0 AND 0xc0 = 0" by (simp add: h put16_def binding_success_def)
  have "take 12 (drop 8 msg) = txid" "take (length body) (drop 20 msg) = body"
    using assms m by simp_all
  with l b z i show ?thesis
    unfolding msg [symmetric]
    by (subst parse_mapped_address_checks [of _ "length body"]) simp_all
qed

lemma parse_address_response:
  assumes "\<forall>tv \<in> set pre. skippable tv" "\<forall>tv \<in> set post. ignorable tv"
    and "wire_addr a" "length txid = 12"
    and "length (address_response txid pre (AddrPort a p) post) < 65536"
  shows "parse_mapped_address
    (response_header txid (length (address_response txid pre (AddrPort a p) post)) @
     address_response txid pre (AddrPort a p) post) txid = Inr (AddrPort a p)"
  using attr_loop_address_response [OF assms(1-4), of _ p "[]"]
  by (simp add: parse_with_header assms(4,5) attr_loop_short)

lemma read32_put32: "read32 (put32 w) 0 = Inr w"
  by (simp add: read32_def) (simp add: put32_def)

lemma attr_loop_fingerprint:
  "attr_loop msg m (encode_attr (attr_fingerprint, put32 w)) off found =
   res_bind (attr_switch msg m attr_fingerprint (put32 w) off found) Inr"
proof -
  have f: "attr_loop msg m [] k = Inr" for k by (rule ext) (simp add: attr_loop_short)
  show ?thesis
    using attr_loop_encode [of "put32 w" msg m attr_fingerprint "[]" off found] by (simp add: f)
qed

text \<open>
  C12: a response whose attributes are any skippable ones, then XOR-MAPPED-ADDRESS of an IPv4 or
  IPv6 address, then any non-fingerprint ones is decoded to exactly that address and port.
\<close>

theorem parse_xor_address_roundtrip:
  assumes "\<forall>tv \<in> set pre. skippable tv" "\<forall>tv \<in> set post. ignorable tv"
    and "wire_addr a" "length txid = 12"
    and "length (address_response txid pre (AddrPort a p) post) < 65536"
  shows "parse_mapped_address
    (response_header txid (length (address_response txid pre (AddrPort a p) post)) @
     address_response txid pre (AddrPort a p) post) txid = Inr (AddrPort a p)"
  using assms by (rule parse_address_response)

theorem parse_xor_address_roundtrip_witness:
  "parse_mapped_address
    (response_header (replicate 12 7)
       (length (address_response (replicate 12 7) [(0x8022, [1, 2, 3])] (AddrPort (Addr4 203 0 113 9) 40000) [])) @
     address_response (replicate 12 7) [(0x8022, [1, 2, 3])] (AddrPort (Addr4 203 0 113 9) 40000) [])
    (replicate 12 7) = Inr (AddrPort (Addr4 203 0 113 9) 40000)"
  by (rule parse_xor_address_roundtrip)
    (simp_all add: skippable_def stun_const_defs address_response_def encode_attr_def padded_len_def
      encode_xor_address_def)

text \<open>
  C16: when such a response ends in a FINGERPRINT attribute, the parser accepts it exactly when the
  fingerprint is the CRC-32 of everything before the attribute, XORed with \<open>0x5354554e\<close>.
\<close>

theorem parse_fingerprint_checked:
  assumes "\<forall>tv \<in> set pre. skippable tv" "\<forall>tv \<in> set post. ignorable tv"
    and "wire_addr a" "length txid = 12"
    and "body = address_response txid pre (AddrPort a p) post" "length body + 8 < 65536"
    and "head = response_header txid (length body + 8) @ body"
  shows "parse_mapped_address (head @ encode_attr (attr_fingerprint, put32 w)) txid =
    (let good = crc32_ieee head XOR fingerprint_xor in
     if w = good then Inr (AddrPort a p) else Inl (FingerprintMismatch good w))"
proof -
  let ?fp = "encode_attr (attr_fingerprint, put32 w)"
  have lfp: "length ?fp = 8" by (simp add: length_encode_attr padded_len_def)
  have lh: "length head = 20 + length body" using assms(4,7) by (simp add: response_header_def)
  have "parse_mapped_address (response_header txid (length (body @ ?fp)) @ body @ ?fp) txid =
    res_bind (attr_loop (head @ ?fp) (put32 magic_cookie @ txid) (body @ ?fp) 0 None) (of_option AddressNotFound)"
    using assms(6) lfp by (subst parse_with_header [OF assms(4)]) (simp_all add: assms(7))
  moreover have "attr_switch (head @ ?fp) m attr_fingerprint (put32 w) (length body) found =
      (let good = crc32_ieee head XOR fingerprint_xor in
       if w = good then Inr found else Inl (FingerprintMismatch good w))" if "found \<noteq> None" for m found
    using that lh by (auto simp: attr_switch_def verify_fingerprint_def read32_put32 Let_def)
  ultimately show ?thesis
    using attr_loop_address_response [OF assms(1-4), of "head @ ?fp" p ?fp] lfp assms(7)
    by (simp add: attr_loop_fingerprint assms(5) Let_def)
qed

theorem parse_fingerprint_checked_witness:
  "\<exists>head. parse_mapped_address (head @ encode_attr (attr_fingerprint, put32 5)) (replicate 12 7) =
    (let good = crc32_ieee head XOR fingerprint_xor in
     if 5 = good then Inr (AddrPort (Addr4 203 0 113 9) 40000) else Inl (FingerprintMismatch good 5))"
  by (rule exI, rule parse_fingerprint_checked [where pre = "[]" and post = "[]" and txid = "replicate 12 7"
       and a = "Addr4 203 0 113 9" and p = 40000, OF _ _ _ _ refl _ refl])
    (simp_all add: address_response_def encode_attr_def padded_len_def encode_xor_address_def)

text \<open>
  Every address the parser returns comes from a message with a clean type, the success type,
  the magic cookie, the request's transaction id and all the attribute bytes its header announces.
\<close>

theorem parse_mapped_address_sound:
  assumes "parse_mapped_address msg txid = Inr ap"
  shows "20 \<le> length msg \<and> msg ! 0 AND 0xc0 = 0 \<and> take 2 msg = put16 binding_success \<and>
    take 4 (drop 4 msg) = put32 magic_cookie \<and> take 12 (drop 8 msg) = txid \<and>
    20 + unat (be16 (msg ! 2) (msg ! 3)) \<le> length msg"
proof -
  from assms have l: "20 \<le> length msg" by (auto simp: parse_mapped_address_def split: if_splits)
  then obtain a b c d e f g h rest where m: "msg = a # b # c # d # e # f # g # h # rest"
    by (auto simp: numeral_eq_Suc Suc_le_length_iff)
  from assms have "msg ! 0 AND 0xc0 = 0" "be16 (msg ! 0) (msg ! 1) = binding_success"
    "be32 (msg ! 4) (msg ! 5) (msg ! 6) (msg ! 7) = magic_cookie" "take 12 (drop 8 msg) = txid"
    "20 + unat (be16 (msg ! 2) (msg ! 3)) \<le> length msg"
    by (simp_all add: parse_mapped_address_checks [OF l refl] split: if_splits)
  moreover have "take 2 msg = put16 (be16 (msg ! 0) (msg ! 1))"
    "take 4 (drop 4 msg) = put32 (be32 (msg ! 4) (msg ! 5) (msg ! 6) (msg ! 7))"
    by (simp_all add: m)
  ultimately show ?thesis using l by simp
qed

theorem parse_mapped_address_sound_witness:
  "take 12 (drop 8 (response_header (replicate 12 7) 12 @ encode_attr (attr_xor_mapped_address,
     encode_xor_address (AddrPort (Addr4 203 0 113 9) 40000) (replicate 12 7)))) = replicate 12 7"
proof -
  have "parse_mapped_address (response_header (replicate 12 7) 12 @ encode_attr (attr_xor_mapped_address,
     encode_xor_address (AddrPort (Addr4 203 0 113 9) 40000) (replicate 12 7))) (replicate 12 7)
     = Inr (AddrPort (Addr4 203 0 113 9) 40000)"
    using parse_address_response [of "[]" "[]" "Addr4 203 0 113 9" "replicate 12 7" 40000]
    by (simp add: address_response_def encode_xor_address_def length_encode_attr padded_len_def)
  from parse_mapped_address_sound [OF this] show ?thesis by simp
qed

end
