(* ===== verification/Endpoint.thy ===== *)
theory Endpoint
  imports Net_Addr
begin

text \<open>
  \<open>internal/endpoint\<close>: splitting a \<open>host[:port]\<close> text into host and port, with the bracketed
  form for IPv6 literals and a default port.
\<close>

datatype endpoint_error = EmptyHost | InvalidPort string

fun endpoint_error_text :: "endpoint_error \<Rightarrow> string" where
  "endpoint_error_text EmptyHost = ''empty host''"
| "endpoint_error_text (InvalidPort value) = ''invalid port in '' @ go_quote value"

definition parse_port :: "string \<Rightarrow> int option" where
  "parse_port value =
     (case atoi value of
        None \<Rightarrow> None
      | Some parsed \<Rightarrow> if parsed < 1 \<or> 65535 < parsed then None else Some parsed)"

definition split_host_port_default :: "string \<Rightarrow> int \<Rightarrow> endpoint_error + string \<times> int" where
  "split_host_port_default value default_port =
     (if value = [] then Inl EmptyHost
      else
        res_bind
          (if prefix ''['' value then
             (case last_index (CHR '']'') value of
                None \<Rightarrow> Inl EmptyHost
              | Some end \<Rightarrow>
                  let host = take (end - 1) (drop 1 value); rest = drop (end + 1) value in
                  if rest = [] then Inr (host, default_port)
                  else if \<not> prefix '':'' rest then Inl (InvalidPort value)
                  else (case parse_port (drop 1 rest) of
                          None \<Rightarrow> Inl (InvalidPort value)
                        | Some parsed \<Rightarrow> Inr (host, parsed)))
           else if count_list value (CHR '':'') = 1 then
             (case last_index (CHR '':'') value of
                None \<Rightarrow> Inr (value, default_port)
              | Some idx \<Rightarrow>
                  (case parse_port (drop (idx + 1) value) of
                     None \<Rightarrow> Inl (InvalidPort value)
                   | Some parsed \<Rightarrow> Inr (take idx value, parsed)))
           else Inr (value, default_port))
          (\<lambda>(host, port). if host = [] then Inl EmptyHost else Inr (host, port)))"

lemmas endpoint_defs [go_defs] = parse_port_def split_host_port_default_def

lemma parse_port_range: "parse_port s = Some p \<Longrightarrow> 1 \<le> p \<and> p \<le> 65535"
  by (auto simp: parse_port_def split: option.splits if_splits)

lemma parse_port_itoa: "1 \<le> p \<Longrightarrow> p \<le> 65535 \<Longrightarrow> parse_port (itoa p) = Some p"
  by (simp add: parse_port_def atoi_itoa)

lemma last_index_append:
  "c \<notin> set t \<Longrightarrow> last_index c (s @ c # t) = Some (length s)"
  by (auto simp: last_index_def takeWhile_append)

lemma itoa_dec: "0 \<le> i \<Longrightarrow> c \<in> set (itoa i) \<Longrightarrow> is_dec_digit c"
  by (simp add: itoa_def) (rule format_uint_dec_chars)

lemma itoa_no_sep: "0 \<le> i \<Longrightarrow> CHR '':'' \<notin> set (itoa i) \<and> CHR '']'' \<notin> set (itoa i)"
  using itoa_dec [of i "CHR '':''"] itoa_dec [of i "CHR '']''"] by (auto simp: is_dec_digit_def)

lemma split_bracketed:
  assumes "host \<noteq> []" "1 \<le> p" "p \<le> 65535"
  shows "split_host_port_default (''['' @ host @ '']:'' @ itoa p) d = Inr (host, p)"
proof -
  let ?v = "''['' @ host @ '']:'' @ itoa p"
  have "last_index (CHR '']'') ((''['' @ host) @ CHR '']'' # (CHR '':'' # itoa p)) = Some (length (''['' @ host))"
    using assms itoa_no_sep [of p] by (intro last_index_append) auto
  then have li: "last_index (CHR '']'') ?v = Some (Suc (length host))" by simp
  show ?thesis
    using assms by (simp add: split_host_port_default_def li [simplified] parse_port_itoa)
qed

lemma split_plain:
  assumes "host \<noteq> []" "CHR '':'' \<notin> set host" "\<not> prefix ''['' host" "1 \<le> p" "p \<le> 65535"
  shows "split_host_port_default (host @ '':'' @ itoa p) d = Inr (host, p)"
proof -
  let ?v = "host @ '':'' @ itoa p"
  have np: "\<not> prefix ''['' ?v"
    using assms by (cases host) auto
  have cnt: "count_list ?v (CHR '':'') = 1"
    using assms itoa_no_sep [of p] by (simp add: count_list_0_iff)
  have li: "last_index (CHR '':'') ?v = Some (length host)"
    using last_index_append [of "CHR '':''" "itoa p" host] assms itoa_no_sep [of p] by simp
  show ?thesis
    using assms np cnt li by (simp add: split_host_port_default_def parse_port_itoa)
qed

lemma split_result:
  assumes "split_host_port_default v d = Inr (h, p)"
  shows "h \<noteq> [] \<and> (p = d \<or> 1 \<le> p \<and> p \<le> 65535)"
  using assms parse_port_range
  by (fastforce simp: split_host_port_default_def Let_def split: if_splits option.splits)

text \<open>
  \<open>SplitHostPortDefault\<close> undoes \<open>net.JoinHostPort\<close>: for a non-empty host, IPv6 literals included,
  and a port in 1..65535 it gives back exactly that host and that port, whatever the default.
\<close>

theorem split_host_port_roundtrip:
  assumes "host \<noteq> []" "1 \<le> p" "p \<le> 65535" "CHR '':'' \<in> set host \<or> \<not> prefix ''['' host"
  shows "split_host_port_default (join_host_port host (itoa p)) d = Inr (host, p)"
proof (cases "CHR '':'' \<in> set host")
  case True
  then show ?thesis using assms split_bracketed [of host p d] by (simp add: join_host_port_def)
next
  case False
  then show ?thesis using assms split_plain [of host p d] split_bracketed [of host p d] by (simp add: join_host_port_def)
qed

theorem split_host_port_roundtrip_witness:
  "split_host_port_default (join_host_port ''2001:db8::1'' (itoa 3478)) 9 = Inr (''2001:db8::1'', 3478)"
  by (rule split_host_port_roundtrip) simp_all

end
