(* ===== verification/Config.thy ===== *)
theory Config
  imports Endpoint
begin

text \<open>
  \<open>internal/config\<close>: the command line, its validation and normalisation.  The flag parser is the
  \<open>flag\<close> package's (one argument at a time, \<open>-name\<close>, \<open>--name\<close>, \<open>-name=value\<close>, boolean flags
  without a value), applied to the flags that \<open>ParseArgs\<close> declares.  The environment and
  \<open>os.Stat\<close> are arguments.
\<close>

record server =
  sv_host :: string
  sv_port :: int

record config =
  cfg_instance_id :: string
  cfg_route_mark :: string
  cfg_route_table :: string
  cfg_route_priority :: string
  cfg_udp :: bool
  cfg_verbose :: bool
  cfg_exit_when_changed :: bool
  cfg_upnp :: bool
  cfg_keep_alive_interval :: int
  cfg_stun_servers :: "server list"
  cfg_keep_alive_server :: string
  cfg_bind_value :: string
  cfg_bind_port :: int
  cfg_forward_method :: string
  cfg_target_ip :: string
  cfg_target_port :: int
  cfg_retry_target :: bool
  cfg_notify_path :: string
  cfg_check :: bool

datatype config_error =
    BadFlagSyntax string | FlagNotDefined string | FlagHelp | FlagNeedsArgument string
  | InvalidFlagValue string string
  | IncompleteRoutePolicy | InvalidRouteMark string | InvalidRouteTable string
  | InvalidRoutePriority string
  | NotPositive int | IntervalTooLarge int | InvalidPortNumber int | FileNotFound string
  | InvalidIPAddress string | InvalidInterfaceName string
  | EmptySTUNServer | InvalidSTUNServer string | InvalidKeepAliveServer endpoint_error

definition max_keep_alive_interval :: int where
  "max_keep_alive_interval = 24 * 60 * 60"

section \<open>The flag package\<close>

datatype flag_kind = BoolFlag | ValueFlag

definition formal_flag :: "string \<Rightarrow> flag_kind option" where
  "formal_flag name =
     (if name \<in> {''v'', ''q'', ''u'', ''U'', ''check'', ''r''} then Some BoolFlag
      else if name \<in> {''k'', ''s'', ''h'', ''e'', ''i'', ''b'', ''m'', ''t'', ''p''} then Some ValueFlag
      else None)"

definition parse_bool :: "string \<Rightarrow> bool option" where
  "parse_bool s =
     (if s \<in> {''1'', ''t'', ''T'', ''TRUE'', ''true'', ''True''} then Some True
      else if s \<in> {''0'', ''f'', ''F'', ''FALSE'', ''false'', ''False''} then Some False
      else None)"

definition set_flag :: "string \<Rightarrow> string \<Rightarrow> config \<times> string list \<Rightarrow> config_error + config \<times> string list" where
  "set_flag name value st =
     (let (cfg, stuns) = st;
          bool = (\<lambda>f. case parse_bool value of
                        None \<Rightarrow> Inl (InvalidFlagValue name value)
                      | Some b \<Rightarrow> Inr (f b cfg, stuns));
          int = (\<lambda>f. case parse_int0 64 value of
                       None \<Rightarrow> Inl (InvalidFlagValue name value)
                     | Some i \<Rightarrow> Inr (f i cfg, stuns))
      in if name = ''v'' then bool (\<lambda>b c. c\<lparr>cfg_verbose := b\<rparr>)
         else if name = ''q'' then bool (\<lambda>b c. c\<lparr>cfg_exit_when_changed := b\<rparr>)
         else if name = ''u'' then bool (\<lambda>b c. c\<lparr>cfg_udp := b\<rparr>)
         else if name = ''U'' then bool (\<lambda>b c. c\<lparr>cfg_upnp := b\<rparr>)
         else if name = ''check'' then bool (\<lambda>b c. c\<lparr>cfg_check := b\<rparr>)
         else if name = ''r'' then bool (\<lambda>b c. c\<lparr>cfg_retry_target := b\<rparr>)
         else if name = ''k'' then int (\<lambda>i c. c\<lparr>cfg_keep_alive_interval := i\<rparr>)
         else if name = ''b'' then int (\<lambda>i c. c\<lparr>cfg_bind_port := i\<rparr>)
         else if name = ''p'' then int (\<lambda>i c. c\<lparr>cfg_target_port := i\<rparr>)
         else if name = ''s'' then Inr (cfg, stuns @ [value])
         else if name = ''h'' then Inr (cfg\<lparr>cfg_keep_alive_server := value\<rparr>, stuns)
         else if name = ''e'' then Inr (cfg\<lparr>cfg_notify_path := value\<rparr>, stuns)
         else if name = ''i'' then Inr (cfg\<lparr>cfg_bind_value := value\<rparr>, stuns)
         else if name = ''m'' then Inr (cfg\<lparr>cfg_forward_method := value\<rparr>, stuns)
         else if name = ''t'' then Inr (cfg\<lparr>cfg_target_ip := value\<rparr>, stuns)
         else Inl (FlagNotDefined name))"

definition split_flag :: "string \<Rightarrow> string \<times> string option" where
  "split_flag name = (case cut (CHR ''='') name of None \<Rightarrow> (name, None) | Some (n, v) \<Rightarrow> (n, Some v))"

text \<open>Parsing stops at the first argument that is not a flag, or after \<open>--\<close>; the rest is ignored.\<close>

fun parse_flags :: "config \<times> string list \<Rightarrow> string list \<Rightarrow> config_error + config \<times> string list" where
  "parse_flags st [] = Inr st"
| "parse_flags st (s # rest) =
     (if length s < 2 \<or> hd s \<noteq> CHR ''-'' then Inr st
      else if s = ''--'' then Inr st
      else
        let name0 = (if s ! 1 = CHR ''-'' then drop 2 s else drop 1 s) in
        if name0 = [] \<or> hd name0 = CHR ''-'' \<or> hd name0 = CHR ''='' then Inl (BadFlagSyntax s)
        else
          let (name, value) = split_flag name0 in
          (case formal_flag name of
             None \<Rightarrow> Inl (if name = ''help'' \<or> name = ''h'' then FlagHelp else FlagNotDefined name)
           | Some BoolFlag \<Rightarrow>
               res_bind (set_flag name (case value of Some v \<Rightarrow> v | None \<Rightarrow> ''true'') st)
                 (\<lambda>st'. parse_flags st' rest)
           | Some ValueFlag \<Rightarrow>
               (case value of
                  Some v \<Rightarrow> res_bind (set_flag name v st) (\<lambda>st'. parse_flags st' rest)
                | None \<Rightarrow>
                    (case rest of
                       [] \<Rightarrow> Inl (FlagNeedsArgument name)
                     | v # rest' \<Rightarrow> res_bind (set_flag name v st) (\<lambda>st'. parse_flags st' rest')))))"

section \<open>Addresses and names\<close>

definition valid_port :: "int \<Rightarrow> bool" where
  "valid_port port \<longleftrightarrow> 0 \<le> port \<and> port \<le> 65535"

fun ipv4_literal_scan :: "bool \<Rightarrow> string \<Rightarrow> bool" where
  "ipv4_literal_scan has_dot [] \<longleftrightarrow> has_dot"
| "ipv4_literal_scan has_dot (c # cs) =
     (if c = CHR ''.'' then ipv4_literal_scan True cs
      else if \<not> is_dec_digit c then False
      else ipv4_literal_scan has_dot cs)"

definition looks_like_ipv4_literal :: "string \<Rightarrow> bool" where
  "looks_like_ipv4_literal value \<longleftrightarrow> value \<noteq> [] \<and> ipv4_literal_scan False value"

definition interface_letter :: "char \<Rightarrow> bool" where
  "interface_letter c \<longleftrightarrow>
     (let n = (of_char c :: nat) in
      (97 \<le> n \<and> n \<le> 122) \<or> (65 \<le> n \<and> n \<le> 90) \<or> c \<in> set ''_.:@-'')"

fun interface_scan :: "bool \<Rightarrow> string \<Rightarrow> bool" where
  "interface_scan has_letter [] \<longleftrightarrow> has_letter"
| "interface_scan has_letter (c # cs) =
     (if interface_letter c then interface_scan True cs
      else if is_dec_digit c then interface_scan has_letter cs
      else False)"

definition valid_interface_name :: "string \<Rightarrow> bool" where
  "valid_interface_name value \<longleftrightarrow> value \<noteq> [] \<and> length value \<le> 64 \<and> interface_scan False value"

fun parse_all :: "string list \<Rightarrow> nat list option" where
  "parse_all [] = Some []"
| "parse_all (p # ps) =
     (case parse_uint 10 32 p of
        None \<Rightarrow> None
      | Some n \<Rightarrow> (case parse_all ps of None \<Rightarrow> None | Some ns \<Rightarrow> Some (n # ns)))"

text \<open>
  The one to four numbers of the address, assembled in 64-bit arithmetic and truncated to
  32 bits as the code does.
\<close>

definition assemble_ipv4 :: "nat list \<Rightarrow> 32 word option" where
  "assemble_ipv4 nums =
     (case map (\<lambda>n. (of_nat n :: 64 word)) nums of
        [a] \<Rightarrow> Some (ucast a)
      | [a, b] \<Rightarrow>
          if 255 < a \<or> 0xffffff < b then None else Some (ucast (push_bit 24 a OR b))
      | [a, b, c] \<Rightarrow>
          if 255 < a \<or> 255 < b \<or> 0xffff < c then None
          else Some (ucast (push_bit 24 a OR push_bit 16 b OR c))
      | [a, b, c, d] \<Rightarrow>
          if 255 < a \<or> 255 < b \<or> 255 < c \<or> 255 < d then None
          else Some (ucast (push_bit 24 a OR push_bit 16 b OR push_bit 8 c OR d))
      | _ \<Rightarrow> None)"

definition normalize_ipv4 :: "string \<Rightarrow> string option" where
  "normalize_ipv4 value =
     (let parts = split_on (CHR ''.'') value in
      if 4 < length parts then None
      else case parse_all parts of
             None \<Rightarrow> None
           | Some nums \<Rightarrow>
               (case assemble_ipv4 nums of
                  None \<Rightarrow> None
                | Some ip \<Rightarrow>
                    (case put32 ip of [a, b, c, d] \<Rightarrow> Some (ipv4_text a b c d) | _ \<Rightarrow> None)))"

section \<open>Validation\<close>

definition validate_route_policy :: "config \<Rightarrow> config_error + unit" where
  "validate_route_policy cfg =
     (if cfg_route_mark cfg = [] \<and> cfg_route_table cfg = [] \<and> cfg_route_priority cfg = [] then Inr ()
      else if cfg_route_mark cfg = [] \<or> cfg_route_table cfg = [] \<or> cfg_route_priority cfg = []
        then Inl IncompleteRoutePolicy
      else if parse_uint0 32 (cfg_route_mark cfg) = None then Inl (InvalidRouteMark (cfg_route_mark cfg))
      else if parse_uint 10 32 (cfg_route_table cfg) = None then Inl (InvalidRouteTable (cfg_route_table cfg))
      else if parse_uint 10 32 (cfg_route_priority cfg) = None
        then Inl (InvalidRoutePriority (cfg_route_priority cfg))
      else Inr ())"

definition normalize_bind :: "config \<Rightarrow> config_error + config" where
  "normalize_bind cfg =
     (case normalize_ipv4 (cfg_bind_value cfg) of
        Some normalized \<Rightarrow> Inr (cfg\<lparr>cfg_bind_value := normalized\<rparr>)
      | None \<Rightarrow>
          if looks_like_ipv4_literal (cfg_bind_value cfg) then Inl (InvalidIPAddress (cfg_bind_value cfg))
          else if \<not> valid_interface_name (cfg_bind_value cfg)
            then Inl (InvalidInterfaceName (cfg_bind_value cfg))
          else Inr cfg)"

text \<open>\<open>stat p\<close> is \<open>Some is_dir\<close> when \<open>os.Stat\<close> succeeds.\<close>

definition validate_config :: "(string \<Rightarrow> bool option) \<Rightarrow> config \<Rightarrow> config_error + config" where
  "validate_config stat cfg =
     res_bind (validate_route_policy cfg) (\<lambda>_.
     res_bind (require (0 < cfg_keep_alive_interval cfg) (NotPositive (cfg_keep_alive_interval cfg))) (\<lambda>_.
     res_bind (require (cfg_keep_alive_interval cfg \<le> max_keep_alive_interval)
                       (IntervalTooLarge (cfg_keep_alive_interval cfg))) (\<lambda>_.
     res_bind (require (valid_port (cfg_bind_port cfg)) (InvalidPortNumber (cfg_bind_port cfg))) (\<lambda>_.
     res_bind (require (valid_port (cfg_target_port cfg)) (InvalidPortNumber (cfg_target_port cfg))) (\<lambda>_.
     res_bind (require (cfg_notify_path cfg = [] \<or> stat (cfg_notify_path cfg) = Some False)
                       (FileNotFound (cfg_notify_path cfg))) (\<lambda>_.
     res_bind (normalize_bind cfg) (\<lambda>cfg.
     (case normalize_ipv4 (cfg_target_ip cfg) of
        None \<Rightarrow> Inl (InvalidIPAddress (cfg_target_ip cfg))
      | Some normalized \<Rightarrow> Inr (cfg\<lparr>cfg_target_ip := normalized\<rparr>)))))))))"

section \<open>STUN servers and ParseArgs\<close>

definition default_stun_servers :: "bool \<Rightarrow> string list" where
  "default_stun_servers udp =
     (let base = [''fwa.lifesizecloud.com'', ''global.turn.twilio.com'', ''turn.cloudflare.com'',
                  ''stun.nextcloud.com'', ''stun.freeswitch.org'', ''stun.voip.blackberry.com'',
                  ''stun.sipnet.com'', ''stun.radiojar.com'', ''stun.sonetel.com'', ''stun.telnyx.com'']
      in if udp
         then [''stun.miwifi.com'', ''stun.chat.bilibili.com'', ''stun.hitv.com'', ''stun.cdnbye.com'',
               ''stun.douyucdn.cn:18000''] @ base
         else base @ [''turn.cloud-rtc.com:80''])"

definition trim_stun_scheme :: "string \<Rightarrow> string" where
  "trim_stun_scheme value =
     (if prefix ''tcp://'' value then trim_prefix ''tcp://'' value
      else if prefix ''udp://'' value then trim_prefix ''udp://'' value
      else value)"

definition parse_stun_server :: "string \<Rightarrow> config_error + server" where
  "parse_stun_server value =
     (if value = [] then Inl EmptySTUNServer
      else let v = trim_stun_scheme value in
           case split_host_port_default v 3478 of
             Inl _ \<Rightarrow> Inl (InvalidSTUNServer v)
           | Inr (host, port) \<Rightarrow> Inr \<lparr>sv_host = host, sv_port = port\<rparr>)"

fun parse_stun_servers :: "string list \<Rightarrow> config_error + server list" where
  "parse_stun_servers [] = Inr []"
| "parse_stun_servers (v # vs) =
     res_bind (parse_stun_server v) (\<lambda>s. res_bind (parse_stun_servers vs) (\<lambda>ss. Inr (s # ss)))"

definition initial_config :: "(string \<Rightarrow> string) \<Rightarrow> config" where
  "initial_config getenv =
     \<lparr>cfg_instance_id = getenv ''QNATTER_INSTANCE'', cfg_route_mark = getenv ''QNATTER_ROUTE_MARK'',
      cfg_route_table = getenv ''QNATTER_ROUTE_TABLE'', cfg_route_priority = getenv ''QNATTER_ROUTE_PRIORITY'',
      cfg_udp = False, cfg_verbose = False, cfg_exit_when_changed = False, cfg_upnp = False,
      cfg_keep_alive_interval = 15, cfg_stun_servers = [], cfg_keep_alive_server = [],
      cfg_bind_value = ''0.0.0.0'', cfg_bind_port = 0, cfg_forward_method = [],
      cfg_target_ip = ''0.0.0.0'', cfg_target_port = 0, cfg_retry_target = False,
      cfg_notify_path = [], cfg_check = False\<rparr>"

definition finish_keep_alive_server :: "config \<Rightarrow> config_error + config" where
  "finish_keep_alive_server cfg =
     (if cfg_keep_alive_server cfg = [] then
        Inr (cfg\<lparr>cfg_keep_alive_server := (if cfg_udp cfg then ''119.29.29.29'' else ''www.qq.com'')\<rparr>)
      else case split_host_port_default (cfg_keep_alive_server cfg) 0 of
             Inl e \<Rightarrow> Inl (InvalidKeepAliveServer e)
           | Inr _ \<Rightarrow> Inr cfg)"

definition parse_args :: "(string \<Rightarrow> string) \<Rightarrow> (string \<Rightarrow> bool option) \<Rightarrow> string list \<Rightarrow> config_error + config" where
  "parse_args getenv stat args =
     res_bind (parse_flags (initial_config getenv, []) args) (\<lambda>(cfg0, stuns0).
     res_bind (validate_config stat cfg0) (\<lambda>cfg1.
     let stuns = (if stuns0 = [] then default_stun_servers (cfg_udp cfg1) else stuns0) in
     res_bind (parse_stun_servers stuns) (\<lambda>servers.
     finish_keep_alive_server (cfg1\<lparr>cfg_stun_servers := servers\<rparr>))))"

section \<open>The text of a rejection\<close>

text \<open>
  The flag package tells a number that is none from one that is out of range.  \<open>strconv\<close> reports
  the first of the two that its scan from the left meets; misplaced underscores are found last.
\<close>

datatype uint_scan = ScanSyntax | ScanRange | ScanValue nat

fun scan_uint :: "nat \<Rightarrow> nat \<Rightarrow> string \<Rightarrow> uint_scan" where
  "scan_uint b n [] = ScanValue n"
| "scan_uint b n (c # cs) =
     (if c = CHR ''_'' then scan_uint b n cs
      else case digit_value c of
             None \<Rightarrow> ScanSyntax
           | Some d \<Rightarrow>
               if b \<le> d then ScanSyntax
               else if 2 ^ 64 \<le> int (n * b + d) then ScanRange
               else scan_uint b (n * b + d) cs)"

definition int_error_text :: "string \<Rightarrow> string" where
  "int_error_text s =
     (let u = snd (split_sign s); (b, ds) = base_prefix u; syntax = ''parse error''; range = ''value out of range'' in
      if u = [] then syntax
      else case scan_uint b 0 ds of
             ScanSyntax \<Rightarrow> syntax
           | ScanRange \<Rightarrow> range
           | ScanValue _ \<Rightarrow> if CHR ''_'' \<in> set ds \<and> \<not> underscore_ok u then syntax else range)"

definition flag_value_text :: "string \<Rightarrow> string \<Rightarrow> string" where
  "flag_value_text name value =
     (if formal_flag name = Some BoolFlag
      then ''invalid boolean value '' @ go_quote value @ '' for -'' @ name @ '': parse error''
      else ''invalid value '' @ go_quote value @ '' for flag -'' @ name @ '': '' @ int_error_text value)"

fun config_error_text :: "config_error \<Rightarrow> string" where
  "config_error_text (BadFlagSyntax s) = ''bad flag syntax: '' @ s"
| "config_error_text (FlagNotDefined name) = ''flag provided but not defined: -'' @ name"
| "config_error_text FlagHelp = ''flag: help requested''"
| "config_error_text (FlagNeedsArgument name) = ''flag needs an argument: -'' @ name"
| "config_error_text (InvalidFlagValue name value) = flag_value_text name value"
| "config_error_text IncompleteRoutePolicy = ''incomplete route policy''"
| "config_error_text (InvalidRouteMark v) = ''invalid route mark: '' @ v"
| "config_error_text (InvalidRouteTable v) = ''invalid route table: '' @ v"
| "config_error_text (InvalidRoutePriority v) = ''invalid route priority: '' @ v"
| "config_error_text (NotPositive i) = ''not a positive integer: '' @ itoa i"
| "config_error_text (IntervalTooLarge i) =
     ''keep-alive interval is too large: '' @ itoa i @ '' (max '' @ itoa max_keep_alive_interval @ '')''"
| "config_error_text (InvalidPortNumber i) = ''invalid port number: '' @ itoa i"
| "config_error_text (FileNotFound path) = ''file not found: '' @ path"
| "config_error_text (InvalidIPAddress v) = ''invalid IP address: '' @ v"
| "config_error_text (InvalidInterfaceName v) = ''invalid interface name: '' @ v"
| "config_error_text EmptySTUNServer = ''empty STUN server''"
| "config_error_text (InvalidSTUNServer v) = ''invalid STUN server '' @ go_quote v"
| "config_error_text (InvalidKeepAliveServer e) = endpoint_error_text e"

text \<open>The scan agrees with the parser: what it reads to the end is the number that the parser reads.\<close>

lemma scan_uint_value: "scan_uint b n ds = ScanValue m \<Longrightarrow> parse_digits b n (filter (\<lambda>c. c \<noteq> CHR ''_'') ds) = Some m"
  by (induction ds arbitrary: n) (auto split: if_splits option.splits)

lemma int_error_text_samples:
  "int_error_text ''12a'' = ''parse error''"
  "int_error_text ''99999999999999999999a'' = ''value out of range''"
  "int_error_text ''-9223372036854775809'' = ''value out of range''"
  "int_error_text ''1__0'' = ''parse error''"
  by (simp_all add: int_error_text_def go_defs)

section \<open>What a parsed configuration satisfies\<close>
lemmas config_defs [go_defs] =
  max_keep_alive_interval_def formal_flag_def parse_bool_def set_flag_def split_flag_def
  valid_port_def looks_like_ipv4_literal_def interface_letter_def valid_interface_name_def
  assemble_ipv4_def normalize_ipv4_def validate_route_policy_def normalize_bind_def validate_config_def
  default_stun_servers_def trim_stun_scheme_def parse_stun_server_def initial_config_def
  finish_keep_alive_server_def parse_args_def int_error_text_def flag_value_text_def

definition canonical_ipv4 :: "string \<Rightarrow> bool" where
  "canonical_ipv4 s \<longleftrightarrow> (case parse_ipv4 s of Some (Addr4 a b c d) \<Rightarrow> ipv4_text a b c d = s | _ \<Rightarrow> False)"

definition valid_route_policy :: "config \<Rightarrow> bool" where
  "valid_route_policy cfg \<longleftrightarrow>
     (cfg_route_mark cfg = [] \<and> cfg_route_table cfg = [] \<and> cfg_route_priority cfg = []) \<or>
     (parse_uint0 32 (cfg_route_mark cfg) \<noteq> None \<and> parse_uint 10 32 (cfg_route_table cfg) \<noteq> None \<and>
      parse_uint 10 32 (cfg_route_priority cfg) \<noteq> None)"

definition valid_server :: "server \<Rightarrow> bool" where
  "valid_server s \<longleftrightarrow> sv_host s \<noteq> [] \<and> 1 \<le> sv_port s \<and> sv_port s \<le> 65535"

definition config_valid :: "config \<Rightarrow> bool" where
  "config_valid cfg \<longleftrightarrow>
     0 < cfg_keep_alive_interval cfg \<and> cfg_keep_alive_interval cfg \<le> max_keep_alive_interval \<and>
     valid_port (cfg_bind_port cfg) \<and> valid_port (cfg_target_port cfg) \<and>
     canonical_ipv4 (cfg_target_ip cfg) \<and>
     (canonical_ipv4 (cfg_bind_value cfg) \<or> valid_interface_name (cfg_bind_value cfg)) \<and>
     cfg_stun_servers cfg \<noteq> [] \<and> (\<forall>s \<in> set (cfg_stun_servers cfg). valid_server s) \<and>
     cfg_keep_alive_server cfg \<noteq> [] \<and> valid_route_policy cfg"

lemma canonical_ipv4_text [simp]: "canonical_ipv4 (ipv4_text a b c d)"
  by (simp add: canonical_ipv4_def parse_ipv4_text)

lemma put32_cases: "\<exists>a b c d. put32 w = [a, b, c, d]"
  by (simp add: put32_def)

lemma normalize_ipv4_canonical: "normalize_ipv4 s = Some t \<Longrightarrow> canonical_ipv4 t"
  by (auto simp: normalize_ipv4_def Let_def put32_def split: option.splits if_splits)

lemma parse_stun_server_valid: "parse_stun_server v = Inr s \<Longrightarrow> valid_server s"
  by (auto simp: parse_stun_server_def valid_server_def Let_def split: if_splits sum.splits dest!: split_result)

lemma parse_stun_servers_valid:
  "parse_stun_servers vs = Inr ss \<Longrightarrow> length ss = length vs \<and> (\<forall>s \<in> set ss. valid_server s)"
  by (induction vs arbitrary: ss) (auto dest: parse_stun_server_valid)

lemma default_stun_servers_not_Nil: "default_stun_servers udp \<noteq> []"
  by (simp add: default_stun_servers_def Let_def)

lemma validate_route_policy_Inr: "validate_route_policy cfg = Inr u \<longleftrightarrow> valid_route_policy cfg"
  by (auto simp: validate_route_policy_def valid_route_policy_def parse_uint0_def parse_uint_def)

definition bind_checked :: "string \<Rightarrow> string \<Rightarrow> bool" where
  "bind_checked v b \<longleftrightarrow>
     normalize_ipv4 v = Some b \<or>
     normalize_ipv4 v = None \<and> b = v \<and> \<not> looks_like_ipv4_literal b \<and> valid_interface_name b"

lemma normalize_bind_Inr:
  "normalize_bind cfg = Inr cfg' \<longleftrightarrow>
     (\<exists>b. cfg' = cfg\<lparr>cfg_bind_value := b\<rparr> \<and> bind_checked (cfg_bind_value cfg) b)"
  by (auto simp: normalize_bind_def bind_checked_def split: option.splits)

lemma validate_config_InrD:
  "validate_config stat cfg = Inr cfg' \<Longrightarrow>
     valid_route_policy cfg \<and> 0 < cfg_keep_alive_interval cfg \<and>
     cfg_keep_alive_interval cfg \<le> max_keep_alive_interval \<and>
     valid_port (cfg_bind_port cfg) \<and> valid_port (cfg_target_port cfg) \<and>
     (cfg_notify_path cfg = [] \<or> stat (cfg_notify_path cfg) = Some False) \<and>
     (\<exists>b t. bind_checked (cfg_bind_value cfg) b \<and> normalize_ipv4 (cfg_target_ip cfg) = Some t \<and>
            cfg' = cfg\<lparr>cfg_bind_value := b, cfg_target_ip := t\<rparr>)"
  unfolding validate_config_def
  by (auto simp: validate_route_policy_Inr normalize_bind_Inr require_def split: option.splits if_splits; blast)

lemma finish_keep_alive_server_InrD:
  "finish_keep_alive_server cfg = Inr cfg' \<Longrightarrow>
     \<exists>k. k \<noteq> [] \<and> cfg' = cfg\<lparr>cfg_keep_alive_server := k\<rparr>"
  by (auto simp: finish_keep_alive_server_def split: if_splits sum.splits intro: exI [of _ "cfg_keep_alive_server cfg"])

text \<open>
  C10: whatever the arguments, environment and file system, a configuration that \<open>ParseArgs\<close>
  returns is well formed: interval in 1..86400, ports in range, target a canonical IPv4
  literal, bind value a canonical IPv4 literal or an interface name, at least one STUN server,
  every server with a host and a port in 1..65535, a keep-alive server, and a route policy that
  is absent or complete and numeric.
\<close>

theorem parse_args_valid:
  assumes "parse_args getenv stat args = Inr cfg"
  shows "config_valid cfg"
proof -
  from assms obtain cfg0 stuns0 cfg1 servers where
    v: "validate_config stat cfg0 = Inr cfg1" and
    s: "parse_stun_servers (if stuns0 = [] then default_stun_servers (cfg_udp cfg1) else stuns0) = Inr servers" and
    f: "finish_keep_alive_server (cfg1\<lparr>cfg_stun_servers := servers\<rparr>) = Inr cfg"
    by (auto simp: parse_args_def Let_def)
  from parse_stun_servers_valid [OF s] default_stun_servers_not_Nil
  have "servers \<noteq> []" "\<forall>s \<in> set servers. valid_server s" by (auto split: if_splits)
  moreover from validate_config_InrD [OF v] obtain b t where
    "cfg1 = cfg0\<lparr>cfg_bind_value := b, cfg_target_ip := t\<rparr>" "canonical_ipv4 t"
    "canonical_ipv4 b \<or> valid_interface_name b"
    by (auto simp: bind_checked_def dest: normalize_ipv4_canonical)
  moreover from finish_keep_alive_server_InrD [OF f] obtain k where
    "k \<noteq> []" "cfg = cfg1\<lparr>cfg_stun_servers := servers, cfg_keep_alive_server := k\<rparr>" by auto
  ultimately show ?thesis
    using validate_config_InrD [OF v] by (simp add: config_valid_def valid_route_policy_def)
qed

theorem parse_args_valid_witness:
  "\<exists>cfg. parse_args (\<lambda>_. []) (\<lambda>_. None) [''-k'', ''20'', ''-p'', ''8080'', ''-u''] = Inr cfg \<and> config_valid cfg"
proof -
  have "\<exists>cfg. parse_args (\<lambda>_. []) (\<lambda>_. None) [''-k'', ''20'', ''-p'', ''8080'', ''-u''] = Inr cfg"
    by (simp add: go_defs)
  then show ?thesis using parse_args_valid by blast
qed

lemma parse_uint_byte_text: "parse_uint 10 32 (byte_text b) = Some (unat b)"
proof -
  have "unat b < 2 ^ 32" by (rule order_less_le_trans [OF unat_byte_less]) simp
  then show ?thesis by (simp add: byte_text_def parse_uint_format_uint)
qed

lemma of_nat_unat_byte: "(of_nat (unat b) :: 64 word) = ucast (b :: byte)"
  by (simp add: unsigned_of_nat unsigned_ucast_eq)

lemma byte_le_255: "\<not> 255 < (ucast (b :: byte) :: 64 word)"
proof -
  have "take_bit 64 (unat b) = unat b"
    by (rule take_bit_nat_eq_self, rule order_less_le_trans [OF unat_byte_less]) simp
  moreover have "unat b \<le> 255" using unat_byte_less [of b] by linarith
  ultimately show ?thesis by (simp add: word_less_nat_alt unsigned_ucast_eq)
qed

lemma assemble_bytes:
  "assemble_ipv4 [unat a, unat b, unat c, unat d] = Some (be32 (a :: byte) b c d)"
proof -
  have "(ucast (push_bit 24 (ucast a) OR push_bit 16 (ucast b) OR push_bit 8 (ucast c) OR (ucast d) :: 64 word) :: 32 word)
        = be32 a b c d"
    unfolding be32_def by (rule bit_word_eqI) (auto simp: bit_simps)
  then show ?thesis by (simp add: assemble_ipv4_def of_nat_unat_byte byte_le_255)
qed

lemma normalize_ipv4_text: "normalize_ipv4 (ipv4_text a b c d) = Some (ipv4_text a b c d)"
  by (simp add: normalize_ipv4_def split_ipv4_text parse_uint_byte_text assemble_bytes)

lemma canonical_normal: "canonical_ipv4 t \<Longrightarrow> normalize_ipv4 t = Some t"
  using normalize_ipv4_text by (auto simp: canonical_ipv4_def split: option.splits addr.splits)

text \<open>
  \<open>normalizeIPv4\<close> is the identity on every canonical dotted quad, and everything it returns
  is canonical, so it is idempotent.
\<close>

theorem normalize_ipv4_idempotent:
  "normalize_ipv4 (ipv4_text a b c d) = Some (ipv4_text a b c d) \<and>
   (\<forall>s t. normalize_ipv4 s = Some t \<longrightarrow> canonical_ipv4 t \<and> normalize_ipv4 t = Some t)"
  using canonical_normal normalize_ipv4_canonical normalize_ipv4_text by blast

theorem normalize_ipv4_idempotent_witness:
  "canonical_ipv4 ''10.1.2.3'' \<and> normalize_ipv4 ''10.66051'' = Some ''10.1.2.3''"
proof -
  have n: "normalize_ipv4 ''10.66051'' = Some ''10.1.2.3''" by (simp add: go_defs)
  with normalize_ipv4_idempotent [of 0 0 0 0] show ?thesis by blast
qed

end
