(* ===== verification/Stun_Client.thy ===== *)
theory Stun_Client
  imports Stun_Message Config "HOL-Library.Multiset"
begin

text \<open>
  \<open>internal/stun/client.go\<close>: the client that asks the configured servers in turn, rotates a
  failing server to the end of its list and remembers the local address it was given; and
  \<open>readResponse\<close>, which reads one message from a datagram or a stream.  The exchange with a
  server and the transaction id source are parameters: the network and the random generator.
\<close>

record stun_mapping =
  mp_inner :: addr_port
  mp_outer :: addr_port
  mp_server :: server

text \<open>The options of the network transport; a zero time limit is three seconds.\<close>

record network_transport =
  nt_timeout :: int
  nt_interface :: string
  nt_reuse :: bool

definition transport_timeout :: "network_transport \<Rightarrow> int" where
  "transport_timeout t = (if nt_timeout t = 0 then 3 * 1000000000 else nt_timeout t)"

record stun_client =
  sc_servers :: "server list"
  sc_source :: addr_port
  sc_udp :: bool
  sc_transport :: network_transport
  sc_initial_source :: addr_port

text \<open>A failed attempt: the network, the server and the text of its error.\<close>

type_synonym stun_failure = "string \<times> server \<times> string"

datatype stun_client_error =
    EmptyServerList
  | TransactionIDError goerror
  | NoServer "sentinel list" "stun_failure list"

definition server_address :: "server \<Rightarrow> string" where
  "server_address s = join_host_port (sv_host s) (itoa (sv_port s))"

fun failure_text :: "stun_failure \<Rightarrow> string" where
  "failure_text (network, server, e) = network @ ''://'' @ server_address server @ '' is unavailable: '' @ e"

text \<open>The texts of the two \<open>syscall\<close> errors that \<open>GetMapping\<close> wraps.\<close>

fun errno_text :: "sentinel \<Rightarrow> string" where
  "errno_text EADDRNOTAVAIL = ''cannot assign requested address''"
| "errno_text ENODEV = ''no such device''"
| "errno_text _ = []"

text \<open>The error of \<open>GetMapping\<close>: what \<open>errors.Is\<close> finds in it, and its text with all failures.\<close>

fun client_err :: "stun_client_error \<Rightarrow> goerror" where
  "client_err EmptyServerList = errorf ''STUN server list is empty''"
| "client_err (TransactionIDError e) = e"
| "client_err (NoServer ts failures) =
     GoError (ErrNoServerAvailable # ts)
       (''no STUN server is available right now'' @
        (if failures = [] then []
         else concat (map (\<lambda>t. '': '' @ errno_text t) ts) @ '': '' @ join ''; '' (map failure_text failures)))"

definition rotate_server :: "server list \<Rightarrow> server list" where
  "rotate_server servers =
     (if length servers < 2 then servers else tl servers @ [hd servers])"

text \<open>
  The environment of one call: a state threaded through the transaction-id source and the
  exchange, so that every answer may differ.  An exchange returns the local address and the
  response bytes, or an error.
\<close>

type_synonym 'w txid_source = "'w \<Rightarrow> (goerror + byte list) \<times> 'w"
type_synonym 'w exchange =
  "string \<Rightarrow> server \<Rightarrow> addr_port \<Rightarrow> byte list \<Rightarrow> 'w \<Rightarrow> (goerror + addr_port \<times> byte list) \<times> 'w"

definition stun_network :: "stun_client \<Rightarrow> string" where
  "stun_network c = (if sc_udp c then ''udp'' else ''tcp'')"

text \<open>
  The attempt loop: \<open>n\<close> attempts are left; the two flags and the failures are the loop's locals.
\<close>

fun mapping_attempts ::
  "'w txid_source \<Rightarrow> 'w exchange \<Rightarrow> nat \<Rightarrow> bool \<Rightarrow> bool \<Rightarrow> stun_failure list \<Rightarrow> stun_client \<Rightarrow> 'w \<Rightarrow>
   (stun_client_error + stun_mapping) \<times> stun_client \<times> 'w" where
  "mapping_attempts txid exch 0 no_addr no_dev failures c w =
     (if failures = [] then (Inl (NoServer [] []), c, w)
      else if no_addr then
        (Inl (NoServer [EADDRNOTAVAIL] failures), c\<lparr>sc_source := sc_initial_source c\<rparr>, w)
      else if no_dev then
        (Inl (NoServer [ENODEV] failures), c\<lparr>sc_source := sc_initial_source c\<rparr>, w)
      else (Inl (NoServer [] failures), c, w))"
| "mapping_attempts txid exch (Suc n) no_addr no_dev failures c w =
     (case txid w of
        (Inl e, w1) \<Rightarrow> (Inl (TransactionIDError e), c, w1)
      | (Inr tid, w1) \<Rightarrow>
          let server = hd (sc_servers c);
              failed = (\<lambda>text. failures @ [(stun_network c, server, text)]);
              rotated = c\<lparr>sc_servers := rotate_server (sc_servers c)\<rparr>
          in (case exch (stun_network c) server (sc_source c) (build_binding_request tid) w1 of
               (Inl e, w2) \<Rightarrow>
                 mapping_attempts txid exch n (no_addr \<or> errors_is e EADDRNOTAVAIL)
                   (no_dev \<or> errors_is e ENODEV) (failed (err_text e)) rotated w2
             | (Inr (inner, response), w2) \<Rightarrow>
                 (case parse_mapped_address response tid of
                    Inl e \<Rightarrow> mapping_attempts txid exch n no_addr no_dev (failed (stun_error_text e)) rotated w2
                  | Inr outer \<Rightarrow>
                      (Inr \<lparr>mp_inner = inner, mp_outer = outer, mp_server = server\<rparr>,
                       c\<lparr>sc_source := inner\<rparr>, w2))))"

definition get_mapping ::
  "'w txid_source \<Rightarrow> 'w exchange \<Rightarrow> stun_client \<Rightarrow> 'w \<Rightarrow> (stun_client_error + stun_mapping) \<times> stun_client \<times> 'w" where
  "get_mapping txid exch c w =
     (if sc_servers c = [] then (Inl EmptyServerList, c, w)
      else
        let c1 = (if ap_valid (sc_initial_source c) then c
                  else c\<lparr>sc_initial_source := sc_source c\<rparr>)
        in mapping_attempts txid exch (length (sc_servers c1)) False False [] c1 w)"

text \<open>\<open>exchange\<close>: the replacement of the caller, or the transport.\<close>

definition stun_exchange :: "'w exchange option \<Rightarrow> (network_transport \<Rightarrow> 'w exchange) \<Rightarrow> stun_client \<Rightarrow> 'w exchange" where
  "stun_exchange do_exchange transport c =
     (case do_exchange of Some f \<Rightarrow> f | None \<Rightarrow> transport (sc_transport c))"

text \<open>\<open>transactionID\<close>: the replacement of the caller, or a fresh one.\<close>

definition stun_transaction_id :: "'w txid_source option \<Rightarrow> 'w txid_source \<Rightarrow> 'w txid_source" where
  "stun_transaction_id txid fresh = (case txid of Some f \<Rightarrow> f | None \<Rightarrow> fresh)"

text \<open>\<open>NewTransactionID\<close>: the tag \<open>NATR\<close> and eight random bytes.\<close>

definition new_transaction_id :: "goerror + byte list \<Rightarrow> goerror + byte list" where
  "new_transaction_id random8 = res_bind random8 (\<lambda>r. Inr (bytes_of ''NATR'' @ take 8 r))"

section \<open>Reading a response\<close>

definition max_message_size :: nat where
  "max_message_size = 1500"

datatype read_error = StreamEnded | ReadFailed | ResponseTooLarge nat

text \<open>
  A connection is the list of chunks that successive \<open>Read\<close> calls find.  On a datagram socket a
  chunk is a datagram, and what does not fit the buffer is lost; on a stream the rest of a chunk
  stays for the next read.  When the list is empty the peer has closed or the deadline has passed.
\<close>

fun datagram_read :: "nat \<Rightarrow> byte list list \<Rightarrow> read_error + byte list" where
  "datagram_read n [] = Inl ReadFailed"
| "datagram_read n (chunk # chunks) = Inr (take n chunk)"

text \<open>\<open>io.ReadFull\<close>: read until \<open>n\<close> bytes have arrived.\<close>

function read_full :: "nat \<Rightarrow> byte list list \<Rightarrow> read_error + byte list \<times> byte list list" where
  "read_full n chunks =
     (if n = 0 then Inr ([], chunks)
      else case chunks of
             [] \<Rightarrow> Inl StreamEnded
           | chunk # rest \<Rightarrow>
               if n < length chunk then Inr (take n chunk, drop n chunk # rest)
               else (case read_full (n - length chunk) rest of
                       Inl e \<Rightarrow> Inl e
                     | Inr (tail, left) \<Rightarrow> Inr (chunk @ tail, left)))"
  by pat_completeness auto
termination
  by (relation "measure (\<lambda>(_, chunks). length chunks)") auto

declare read_full.simps [simp del]

definition read_response :: "string \<Rightarrow> byte list list \<Rightarrow> read_error + byte list" where
  "read_response network chunks =
     (if prefix ''udp'' network then
        datagram_read max_message_size chunks
      else
        res_bind (read_full 20 chunks) (\<lambda>(header, rest).
        let size = unat (be16 (header ! 2) (header ! 3)); total = 20 + size in
        if max_message_size < total then Inl (ResponseTooLarge total)
        else if 0 < size then
          res_bind (read_full size rest) (\<lambda>(body, _). Inr (header @ body))
        else Inr header))"

lemmas stun_client_defs [go_defs] =
  rotate_server_def stun_network_def transport_timeout_def get_mapping_def server_address_def stun_exchange_def
  stun_transaction_id_def new_transaction_id_def
  max_message_size_def read_full.simps read_response_def

lemma rotate_server_rotate1: "rotate_server xs = rotate1 xs"
  by (cases xs; cases "tl xs") (auto simp: rotate_server_def)

section \<open>Framing does not depend on segmentation\<close>

lemma read_full_enough:
  "n \<le> length (concat chunks) \<Longrightarrow>
   \<exists>left. read_full n chunks = Inr (take n (concat chunks), left) \<and> concat left = drop n (concat chunks)"
proof (induction n chunks rule: read_full.induct)
  case (1 n chunks)
  show ?case
  proof (cases "n = 0")
    case True
    then show ?thesis by (simp add: read_full.simps)
  next
    case nz: False
    with "1.prems" obtain chunk rest where c: "chunks = chunk # rest" by (cases chunks) auto
    show ?thesis
    proof (cases "n < length chunk")
      case True
      with nz c show ?thesis by (simp add: read_full.simps [of n])
    next
      case False
      from False "1.prems" c have p: "n - length chunk \<le> length (concat rest)"
        by (simp add: le_diff_conv add.commute)
      from "1.IH" [OF nz c False p] obtain left where
        "read_full (n - length chunk) rest = Inr (take (n - length chunk) (concat rest), left)"
        "concat left = drop (n - length chunk) (concat rest)" by blast
      with nz c False show ?thesis by (simp add: read_full.simps [of n])
    qed
  qed
qed

lemma read_full_short: "length (concat chunks) < n \<Longrightarrow> read_full n chunks = Inl StreamEnded"
proof (induction n chunks rule: read_full.induct)
  case (1 n chunks)
  then show ?case
    by (subst read_full.simps) (auto split: list.splits)
qed

lemma read_response_stream:
  assumes "\<not> prefix ''udp'' network" and "s = concat chunks"
    and "n = unat (be16 (s ! 2) (s ! 3))"
  shows "read_response network chunks =
    (if length s < 20 then Inl StreamEnded
     else if max_message_size < 20 + n then Inl (ResponseTooLarge (20 + n))
     else if length s < 20 + n then Inl StreamEnded
     else Inr (take (20 + n) s))"
proof (cases "length s < 20")
  case True
  with assms show ?thesis by (simp add: read_response_def read_full_short)
next
  case False
  then obtain left where l: "read_full 20 chunks = Inr (take 20 s, left)" "concat left = drop 20 s"
    using read_full_enough [of 20 chunks] assms(2) by auto
  have i: "take 20 s ! 2 = s ! 2" "take 20 s ! 3 = s ! 3" using False by simp_all
  show ?thesis
  proof (cases "length s < 20 + n")
    case True
    with False l i assms(1,3) show ?thesis
      by (auto simp: read_response_def Let_def read_full_short)
  next
    case enough: False
    with l have "n \<le> length (concat left)" by simp
    from read_full_enough [OF this] l obtain left' where
      "read_full n left = Inr (take n (drop 20 s), left')" by auto
    with False enough l i assms(1,3) show ?thesis
      by (auto simp: read_response_def Let_def take_add)
  qed
qed

text \<open>
  C13: on a stream, what \<open>readResponse\<close> returns depends only on the bytes that arrive, never on
  how TCP segments them: two chunkings of the same bytes give the same result, errors included.
\<close>

theorem read_response_segmentation:
  assumes "\<not> prefix ''udp'' network" "concat chunks = concat chunks'"
  shows "read_response network chunks = read_response network chunks'"
  using read_response_stream [OF assms(1) refl refl, of chunks]
    read_response_stream [OF assms(1) refl refl, of chunks'] assms(2) by simp

theorem read_response_segmentation_witness:
  "read_response ''tcp'' [[1, 1], [0], [4, 9], replicate 19 0] = read_response ''tcp'' [[1], [1, 0, 4, 9] @ replicate 19 0]"
  by (rule read_response_segmentation) simp_all

text \<open>
  A complete message of at most 1500 bytes is returned whole and without the bytes that
  follow it in the stream, however the stream is cut.
\<close>

theorem read_response_frames_message:
  assumes "\<not> prefix ''udp'' network" "concat chunks = msg @ rest"
    and "length msg = 20 + unat (be16 (msg ! 2) (msg ! 3))" "length msg \<le> max_message_size"
  shows "read_response network chunks = Inr msg"
proof -
  have "concat chunks ! 2 = msg ! 2" "concat chunks ! 3 = msg ! 3"
    using assms(2,3) by (simp_all add: nth_append)
  with assms show ?thesis
    by (subst read_response_stream [OF assms(1) refl refl]) auto
qed

theorem read_response_frames_message_witness:
  "read_response ''tcp'' [[1, 1], [0], [4, 9], replicate 15 0, [5, 6, 7], [8, 9]] =
   Inr ([1, 1, 0, 4, 9] @ replicate 15 0 @ [5, 6, 7, 8])"
  by (rule read_response_frames_message [where rest = "[9]"])
    (simp_all add: max_message_size_def be16_def)

section \<open>Failover\<close>

lemma rotate_rotate_server: "rotate k (rotate_server xs) = rotate (Suc k) xs"
  by (simp add: rotate_server_rotate1 rotate1_rotate_swap)

lemma mapping_attempts_frame:
  "mapping_attempts txid exch n na nd fs c w = (r, c', w') \<Longrightarrow>
   sc_udp c' = sc_udp c \<and> sc_initial_source c' = sc_initial_source c"
  by (induction txid exch n na nd fs c w rule: mapping_attempts.induct)
    (auto simp: Let_def split: if_splits prod.splits sum.splits)

lemma mapping_attempts_success:
  "mapping_attempts txid exch n na nd fs c w = (Inr m, c', w') \<Longrightarrow> sc_servers c \<noteq> [] \<Longrightarrow>
   (\<exists>k<n. sc_servers c' = rotate k (sc_servers c)) \<and> mp_server m = hd (sc_servers c') \<and>
   sc_source c' = mp_inner m"
proof (induction n arbitrary: na nd fs c w)
  case 0
  then show ?case by (auto split: if_splits)
next
  case (Suc n)
  let ?rot = "c\<lparr>sc_servers := rotate_server (sc_servers c)\<rparr>"
  have ne: "sc_servers ?rot \<noteq> []" using Suc.prems(2) by (simp add: rotate_server_rotate1)
  have step: "(\<exists>k<Suc n. sc_servers c' = rotate k (sc_servers c)) \<and> mp_server m = hd (sc_servers c') \<and>
      sc_source c' = mp_inner m"
    if "mapping_attempts txid exch n na' nd' fs' ?rot w1 = (Inr m, c', w')" for na' nd' fs' w1
    using Suc.IH [OF that ne] rotate_rotate_server by auto
  have zero: "\<exists>k < Suc n. sc_servers c = rotate k (sc_servers c)"
    by (rule exI [of _ 0]) simp
  from Suc.prems(1) zero show ?case
    by (auto simp: Let_def split: prod.splits sum.splits dest: step simp del: fun_upd_apply)
qed

text \<open>The servers that a list of failures says were tried, with their network.\<close>

definition tried :: "stun_failure list \<Rightarrow> (string \<times> server) list" where
  "tried failures = map (\<lambda>(network, server, _). (network, server)) failures"

lemma tried_simps [simp]:
  "tried [] = []" "tried (fs @ gs) = tried fs @ tried gs" "tried ((n, s, e) # fs) = (n, s) # tried fs"
  by (simp_all add: tried_def)

lemma mapping_attempts_exhausted:
  "mapping_attempts txid exch n na nd fs c w = (Inl (NoServer ts fs'), c', w') \<Longrightarrow>
   sc_servers c' = rotate n (sc_servers c) \<and> set ts \<subseteq> {EADDRNOTAVAIL, ENODEV} \<and>
   sc_source c' = (if ts = [] then sc_source c else sc_initial_source c) \<and>
   tried fs' = tried fs @ map (\<lambda>i. (stun_network c, hd (rotate i (sc_servers c)))) [0..<n]"
proof (induction n arbitrary: na nd fs c w)
  case 0
  then show ?case by (auto split: if_splits)
next
  case (Suc n)
  have upt: "map f [0..<Suc n] = f 0 # map (\<lambda>i. f (Suc i)) [0..<n]" for f :: "nat \<Rightarrow> string \<times> server"
    by (simp only: map_upt_Suc)
  from Suc.prems show ?case
    by (auto simp: Let_def rotate_rotate_server stun_network_def upt
        split: prod.splits sum.splits dest!: Suc.IH simp del: upt_Suc)
qed

lemma mset_rotate_server: "mset (rotate k xs) = mset xs"
proof -
  have "mset (rotate k xs) = mset (take (k mod length xs) xs @ drop (k mod length xs) xs)"
    by (simp only: rotate_drop_take mset_append add.commute)
  then show ?thesis by simp
qed

text \<open>The state with which \<open>GetMapping\<close> enters its attempt loop.\<close>

lemma get_mapping_enters:
  assumes "sc_servers c \<noteq> []"
  obtains c1 where
    "get_mapping txid exch c w = mapping_attempts txid exch (length (sc_servers c)) False False [] c1 w"
    "sc_servers c1 = sc_servers c" "sc_source c1 = sc_source c" "sc_udp c1 = sc_udp c"
    "sc_initial_source c1 = (if ap_valid (sc_initial_source c) then sc_initial_source c else sc_source c)"
    "stun_network c1 = stun_network c"
proof (rule that [of "if ap_valid (sc_initial_source c) then c else c\<lparr>sc_initial_source := sc_source c\<rparr>"])
qed (use assms in \<open>simp_all add: get_mapping_def Let_def stun_network_def\<close>)

lemma get_mapping_success_facts:
  assumes "get_mapping txid exch c w = (Inr m, c', w')"
  shows "sc_servers c' \<noteq> []" "hd (sc_servers c') = mp_server m"
    and "mset (sc_servers c') = mset (sc_servers c)" "\<exists>k < length (sc_servers c). sc_servers c' = rotate k (sc_servers c)"
    and "sc_source c' = mp_inner m" "sc_udp c' = sc_udp c"
proof -
  from assms have ne: "sc_servers c \<noteq> []" by (auto simp: get_mapping_def)
  then obtain c1 where c1: "get_mapping txid exch c w = mapping_attempts txid exch (length (sc_servers c)) False False [] c1 w"
    "sc_servers c1 = sc_servers c" "sc_udp c1 = sc_udp c" by (rule get_mapping_enters)
  with assms have run: "mapping_attempts txid exch (length (sc_servers c)) False False [] c1 w = (Inr m, c', w')"
    by simp
  from ne c1(2) have "sc_servers c1 \<noteq> []" by simp
  note S = mapping_attempts_success [OF run this]
  from S c1(2) obtain k where k: "k < length (sc_servers c)" "sc_servers c' = rotate k (sc_servers c)" by auto
  from k ne show "sc_servers c' \<noteq> []" by simp
  from S show "hd (sc_servers c') = mp_server m" "sc_source c' = mp_inner m" by simp_all
  from k(2) show "mset (sc_servers c') = mset (sc_servers c)"
    by (simp add: mset_rotate_server)
  from k show "\<exists>k < length (sc_servers c). sc_servers c' = rotate k (sc_servers c)" by blast
  from mapping_attempts_frame [OF run] c1(3) show "sc_udp c' = sc_udp c" by simp
qed

text \<open>
  When \<open>GetMapping\<close> returns a mapping, the server that answered heads the list, the list is
  a rotation of the configured one (nobody is dropped or duplicated), and the client's source is
  pinned to the local address the answer was obtained from.
\<close>

theorem get_mapping_success:
  assumes "get_mapping txid exch c w = (Inr m, c', w')"
  shows "sc_servers c' \<noteq> [] \<and>
    hd (sc_servers c') = mp_server m \<and>
    mset (sc_servers c') = mset (sc_servers c) \<and>
    (\<exists>k < length (sc_servers c). sc_servers c' = rotate k (sc_servers c)) \<and>
    sc_source c' = mp_inner m \<and>
    sc_udp c' = sc_udp c"
  using get_mapping_success_facts [OF assms] by blast

lemma get_mapping_exhausted_facts:
  assumes "get_mapping txid exch c w = (Inl (NoServer ts failures), c', w')"
  shows "tried failures = map (Pair (stun_network c)) (sc_servers c)"
    and "sc_servers c' = sc_servers c"
    and "errors_is (client_err (NoServer ts failures)) ErrNoServerAvailable"
    and "set ts \<subseteq> {EADDRNOTAVAIL, ENODEV}"
    and "sc_source c' = (if ts \<noteq> [] \<and> ap_valid (sc_initial_source c) then sc_initial_source c else sc_source c)"
proof -
  from assms have ne: "sc_servers c \<noteq> []" by (auto simp: get_mapping_def)
  then obtain c1 where c1: "get_mapping txid exch c w = mapping_attempts txid exch (length (sc_servers c)) False False [] c1 w"
    "sc_servers c1 = sc_servers c" "sc_source c1 = sc_source c" "stun_network c1 = stun_network c"
    "sc_initial_source c1 = (if ap_valid (sc_initial_source c) then sc_initial_source c else sc_source c)"
    by (rule get_mapping_enters)
  with assms have run: "mapping_attempts txid exch (length (sc_servers c)) False False [] c1 w =
      (Inl (NoServer ts failures), c', w')" by simp
  note E = mapping_attempts_exhausted [OF run, unfolded tried_simps append_Nil]
  from E have f: "tried failures = map (\<lambda>i. (stun_network c1, hd (rotate i (sc_servers c1)))) [0..<length (sc_servers c)]"
    and sv: "sc_servers c' = rotate (length (sc_servers c)) (sc_servers c1)" and ts: "set ts \<subseteq> {EADDRNOTAVAIL, ENODEV}"
    and src: "sc_source c' = (if ts = [] then sc_source c1 else sc_initial_source c1)" by blast+
  have "map (\<lambda>i. (stun_network c, hd (rotate i (sc_servers c)))) [0..<length (sc_servers c)] =
      map (\<lambda>i. (stun_network c, sc_servers c ! i)) [0..<length (sc_servers c)]"
    using ne by (intro map_cong) (simp_all add: hd_rotate_conv_nth)
  also have "\<dots> = map (Pair (stun_network c)) (sc_servers c)"
    by (rule nth_equalityI) simp_all
  finally show "tried failures = map (Pair (stun_network c)) (sc_servers c)" using f c1(2,4) by (simp only:)
  from sv c1(2) show "sc_servers c' = sc_servers c" by simp
  show "errors_is (client_err (NoServer ts failures)) ErrNoServerAvailable"
    by (simp add: errors_is_def)
  from ts show "set ts \<subseteq> {EADDRNOTAVAIL, ENODEV}" by simp
  from src c1(3,5) show "sc_source c' = (if ts \<noteq> [] \<and> ap_valid (sc_initial_source c) then sc_initial_source c else sc_source c)"
    by auto
qed


text \<open>The answer an exchange would give for a server is usable.\<close>

definition usable :: "(goerror + addr_port \<times> byte list) \<Rightarrow> byte list \<Rightarrow> addr_port \<Rightarrow> addr_port \<Rightarrow> bool" where
  "usable answer tid inner outer =
     (case answer of
        Inl _ \<Rightarrow> False
      | Inr (local, response) \<Rightarrow> local = inner \<and> parse_mapped_address response tid = Inr outer)"

definition unusable :: "(goerror + addr_port \<times> byte list) \<Rightarrow> byte list \<Rightarrow> bool" where
  "unusable answer tid =
     (case answer of
        Inl _ \<Rightarrow> True
      | Inr (_, response) \<Rightarrow> (\<exists>e. parse_mapped_address response tid = Inl e))"

lemma mapping_attempts_first:
  assumes "k < n" "sc_servers c \<noteq> []"
    and "txid = (\<lambda>w. (Inr tid, w))"
    and "\<And>s src req w. exch (stun_network c) s src req w = (answer s, w)"
    and "usable (answer (hd (rotate k (sc_servers c)))) tid inner outer"
    and "\<And>j. j < k \<Longrightarrow> unusable (answer (hd (rotate j (sc_servers c)))) tid"
  shows "mapping_attempts txid exch n na nd fs c w =
    (Inr \<lparr>mp_inner = inner, mp_outer = outer, mp_server = hd (rotate k (sc_servers c))\<rparr>,
     c\<lparr>sc_servers := rotate k (sc_servers c), sc_source := inner\<rparr>, w)"
  using assms
proof (induction k arbitrary: n na nd fs c)
  case 0
  then obtain n' where "n = Suc n'" by (cases n) auto
  with 0 show ?case by (auto simp: usable_def Let_def split: sum.splits prod.splits)
next
  case (Suc k)
  then obtain n' where n: "n = Suc n'" by (cases n) auto
  let ?rot = "c\<lparr>sc_servers := rotate_server (sc_servers c)\<rparr>"
  have net: "stun_network ?rot = stun_network c" by (simp add: stun_network_def)
  have ih: "mapping_attempts txid exch n' na' nd' fs' ?rot w =
      (Inr \<lparr>mp_inner = inner, mp_outer = outer, mp_server = hd (rotate (Suc k) (sc_servers c))\<rparr>,
       c\<lparr>sc_servers := rotate (Suc k) (sc_servers c), sc_source := inner\<rparr>, w)" for na' nd' fs'
  proof -
    have "mapping_attempts txid exch n' na' nd' fs' ?rot w =
      (Inr \<lparr>mp_inner = inner, mp_outer = outer, mp_server = hd (rotate k (sc_servers ?rot))\<rparr>,
       ?rot\<lparr>sc_servers := rotate k (sc_servers ?rot), sc_source := inner\<rparr>, w)"
    proof (rule Suc.IH)
      show "sc_servers ?rot \<noteq> []" using Suc.prems(2) by (simp add: rotate_server_rotate1)
      show "k < n'" using Suc.prems(1) n by simp
      show "usable (answer (hd (rotate k (sc_servers ?rot)))) tid inner outer"
        using Suc.prems(5) by (simp add: rotate_rotate_server)
      show "unusable (answer (hd (rotate j (sc_servers ?rot)))) tid" if "j < k" for j
        using Suc.prems(6) [of "Suc j"] that by (simp add: rotate_rotate_server)
    qed (simp_all only: net Suc.prems(3,4))
    then show ?thesis by (simp add: rotate_rotate_server)
  qed
  have "unusable (answer (hd (sc_servers c))) tid" using Suc.prems(6) [of 0] by simp
  with Suc.prems(3,4) n ih show ?case
    by (auto simp: unusable_def Let_def split: sum.splits prod.splits)
qed



text \<open>A client of two servers: the first cannot be reached, the second answers in encoded form.\<close>

definition sample_client :: stun_client where
  "sample_client = \<lparr>sc_servers = [\<lparr>sv_host = ''a'', sv_port = 1\<rparr>, \<lparr>sv_host = ''b'', sv_port = 2\<rparr>],
     sc_source = AddrPort (Addr4 10 0 0 2) 7, sc_udp = True,
     sc_transport = \<lparr>nt_timeout = 0, nt_interface = [], nt_reuse = True\<rparr>, sc_initial_source = AddrPort (Addr4 0 0 0 0) 0\<rparr>"

definition sample_response :: "byte list" where
  "sample_response = response_header (replicate 12 7)
       (length (address_response (replicate 12 7) [] (AddrPort (Addr4 203 0 113 9) 40000) [])) @
     address_response (replicate 12 7) [] (AddrPort (Addr4 203 0 113 9) 40000) []"

definition sample_exchange :: "bool \<Rightarrow> unit exchange" where
  "sample_exchange up network s src request w =
     (if up \<and> sv_host s = ''b'' then Inr (AddrPort (Addr4 10 0 0 3) 7, sample_response)
      else Inl (GoError [EADDRNOTAVAIL] ''dial''), w)"

lemma sample_response_parses:
  "parse_mapped_address sample_response (replicate 12 7) = Inr (AddrPort (Addr4 203 0 113 9) 40000)"
  unfolding sample_response_def
  by (rule parse_address_response) (simp_all add: address_response_def encode_attr_def encode_xor_address_def
      encode_attrs_def put16_def padded_len_def)


theorem get_mapping_success_witness:
  "\<exists>m c' w'. get_mapping (\<lambda>w. (Inr (replicate 12 7), w)) (sample_exchange True)
       (sample_client\<lparr>sc_servers := [\<lparr>sv_host = ''b'', sv_port = 2\<rparr>]\<rparr>) () = (Inr m, c', w') \<and>
     hd (sc_servers c') = mp_server m"
proof -
  let ?c = "sample_client\<lparr>sc_servers := [\<lparr>sv_host = ''b'', sv_port = 2\<rparr>]\<rparr>"
  obtain m c' w' where r: "get_mapping (\<lambda>w. (Inr (replicate 12 7), w)) (sample_exchange True) ?c () = (Inr m, c', w')"
    by (auto simp: get_mapping_def sample_client_def sample_exchange_def sample_response_parses Let_def ap_valid_def)
  from get_mapping_success [OF r] r show ?thesis by blast
qed


end
