(* ===== verification/Keep_Alive.thy ===== *)
theory Keep_Alive
  imports Config Socket_Options
begin

text \<open>
  \<open>internal/keepalive\<close>: the TCP and UDP clients that hold the NAT mapping open from its local
  port.  The network is a history: every call on a socket is an event, and the environment
  answers a call from the whole history so far, so nothing is assumed about it.  A connection is
  named by the position of its \<open>Dial\<close> in the history, which makes it fresh.
\<close>

section \<open>The network as a history of calls\<close>

datatype read_failure = ReadFailure (rf_timeout: bool) (rf_error: goerror)

datatype net_call =
    DialCall string net_addr sock_options string "goerror option"
  | DeadlineCall nat "goerror option"
  | WriteCall nat string "goerror option"
  | ReadCall nat nat "read_failure option"
  | CloseCall nat "goerror option"

type_synonym net_history = "net_call list"

record net_env =
  ne_dial :: "net_history \<Rightarrow> string \<Rightarrow> net_addr \<Rightarrow> sock_options \<Rightarrow> string \<Rightarrow> goerror option"
  ne_set_deadline :: "net_history \<Rightarrow> nat \<Rightarrow> goerror option"
  ne_write :: "net_history \<Rightarrow> nat \<Rightarrow> string \<Rightarrow> goerror option"
  ne_read :: "net_history \<Rightarrow> nat \<Rightarrow> nat \<times> read_failure option"
  ne_close :: "net_history \<Rightarrow> nat \<Rightarrow> goerror option"

definition dialed :: "net_history \<Rightarrow> nat set" where
  "dialed h = {i. i < length h \<and> (\<exists>network local opts address. h ! i = DialCall network local opts address None)}"

definition closed :: "net_history \<Rightarrow> nat set" where
  "closed h = {i. \<exists>e. CloseCall i e \<in> set h}"

text \<open>The connections that are open after a history: \<open>Close\<close> releases the descriptor even when it fails.\<close>

definition live :: "net_history \<Rightarrow> nat set" where
  "live h = dialed h - closed h"

definition dial_options :: "string \<Rightarrow> sock_options" where
  "dial_options iface = \<lparr>so_interface = iface, so_reuse = True, so_disable_reuse_port = False\<rparr>"

text \<open>\<open>DialContext\<close> of a dialer with its local address and options: the connection is the place of the call.\<close>

definition dial_with ::
  "net_env \<Rightarrow> string \<Rightarrow> net_addr \<Rightarrow> sock_options \<Rightarrow> string \<Rightarrow> net_history \<Rightarrow> (goerror + nat) \<times> net_history" where
  "dial_with env network local opts address h =
     (let answer = ne_dial env h network local opts address
      in ((case answer of None \<Rightarrow> Inr (length h) | Some e \<Rightarrow> Inl e),
          h @ [DialCall network local opts address answer]))"

text \<open>Dialling from a source: it decides the network and the local address of the dialer.\<close>

definition dial_from ::
  "net_env \<Rightarrow> string \<Rightarrow> addr_port \<Rightarrow> sock_options \<Rightarrow> string \<Rightarrow> int \<Rightarrow> net_history \<Rightarrow> (goerror + nat) \<times> net_history" where
  "dial_from env proto source opts host port h =
     (let network = network_for_source proto source in
      case local_addr network source of
        Inl bad \<Rightarrow> (Inl (errorf (''unsupported network '' @ go_quote bad)), h)
      | Inr local \<Rightarrow> dial_with env network local opts (join_host_port host (itoa port)) h)"

definition close_conn :: "net_env \<Rightarrow> nat \<Rightarrow> net_history \<Rightarrow> goerror option \<times> net_history" where
  "close_conn env i h = (let e = ne_close env h i in (e, h @ [CloseCall i e]))"

section \<open>The TCP client\<close>

record tcp_client =
  tc_host :: string
  tc_port :: int
  tc_source :: addr_port
  tc_interface :: string
  tc_conn :: "nat option"

definition tcp_request :: "string \<Rightarrow> string" where
  "tcp_request host =
     ''HEAD /qnatter-keep-alive HTTP/1.1'' @ [CHR 0x0D, CHR 0x0A] @
     ''Host: '' @ host @ [CHR 0x0D, CHR 0x0A] @
     ''User-Agent: curl/8.0.0 (QNatter)'' @ [CHR 0x0D, CHR 0x0A] @
     ''Accept: */*'' @ [CHR 0x0D, CHR 0x0A] @
     ''Connection: keep-alive'' @ [CHR 0x0D, CHR 0x0A] @
     [CHR 0x0D, CHR 0x0A]"

definition tcp_close :: "net_env \<Rightarrow> tcp_client \<Rightarrow> net_history \<Rightarrow> goerror option \<times> tcp_client \<times> net_history" where
  "tcp_close env c h =
     (case tc_conn c of
        None \<Rightarrow> (None, c, h)
      | Some i \<Rightarrow> let (e, h') = close_conn env i h in (e, c\<lparr>tc_conn := None\<rparr>, h'))"

definition tcp_disconnect :: "net_env \<Rightarrow> tcp_client \<Rightarrow> net_history \<Rightarrow> tcp_client \<times> net_history" where
  "tcp_disconnect env c h = snd (tcp_close env c h)"

text \<open>
  The read loop.  It ends at the first error or empty read; a peer that keeps sending is only
  stopped by the deadline, so the loop has fuel and \<open>None\<close> is a loop that has not ended yet.
\<close>

datatype read_end = StillAlive | Dropped goerror

fun tcp_read_loop :: "net_env \<Rightarrow> nat \<Rightarrow> nat \<Rightarrow> bool \<Rightarrow> net_history \<Rightarrow> (read_end \<times> net_history) option" where
  "tcp_read_loop env i 0 received h = None"
| "tcp_read_loop env i (Suc fuel) received h =
     (let (n, failure) = ne_read env h i;
          h' = h @ [ReadCall i n failure];
          received' = (received \<or> 0 < n)
      in case failure of
           Some f \<Rightarrow> Some (if rf_timeout f \<and> received' then StillAlive else Dropped (rf_error f), h')
         | None \<Rightarrow>
             if n = 0 then Some (Dropped (errorf ''unexpected EOF''), h')
             else tcp_read_loop env i fuel received' h')"

definition tcp_failed ::
  "net_env \<Rightarrow> goerror \<Rightarrow> tcp_client \<Rightarrow> net_history \<Rightarrow> (goerror option \<times> tcp_client \<times> net_history) option" where
  "tcp_failed env e c h = (case tcp_disconnect env c h of (c', h') \<Rightarrow> Some (Some e, c', h'))"

definition tcp_exchange ::
  "net_env \<Rightarrow> nat \<Rightarrow> nat \<Rightarrow> tcp_client \<Rightarrow> net_history \<Rightarrow> (goerror option \<times> tcp_client \<times> net_history) option" where
  "tcp_exchange env fuel i c h =
     (let deadline = ne_set_deadline env h i; h1 = h @ [DeadlineCall i deadline] in
      case deadline of
        Some e \<Rightarrow> tcp_failed env e c h1
      | None \<Rightarrow>
          let request = tcp_request (tc_host c);
              written = ne_write env h1 i request;
              h2 = h1 @ [WriteCall i request written]
          in (case written of
               Some e \<Rightarrow> tcp_failed env e c h2
             | None \<Rightarrow>
                 (case tcp_read_loop env i fuel False h2 of
                    None \<Rightarrow> None
                  | Some (StillAlive, h3) \<Rightarrow> Some (None, c, h3)
                  | Some (Dropped e, h3) \<Rightarrow> tcp_failed env e c h3)))"

definition tcp_keep_alive ::
  "net_env \<Rightarrow> nat \<Rightarrow> tcp_client \<Rightarrow> net_history \<Rightarrow> (goerror option \<times> tcp_client \<times> net_history) option" where
  "tcp_keep_alive env fuel c h =
     (case tc_conn c of
        Some i \<Rightarrow> tcp_exchange env fuel i c h
      | None \<Rightarrow>
          (case dial_from env ''tcp'' (tc_source c) (dial_options (tc_interface c)) (tc_host c) (tc_port c) h of
             (Inl e, h') \<Rightarrow> Some (Some e, c, h')
           | (Inr i, h') \<Rightarrow> tcp_exchange env fuel i (c\<lparr>tc_conn := Some i\<rparr>) h'))"

section \<open>The UDP client\<close>

record udp_client =
  uc_host :: string
  uc_port :: int
  uc_source :: addr_port
  uc_interface :: string
  uc_conn :: "nat option"

text \<open>\<open>dnsKeepAliveQuery\<close>, byte for byte; the two random bytes are an argument.\<close>

definition dns_keep_alive_query :: "byte \<Rightarrow> byte \<Rightarrow> byte list" where
  "dns_keep_alive_query r0 r1 =
     [r0, r1] @ put16 0x0100 @ put16 0x0001 @ replicate 6 0 @
     [9] @ bytes_of ''keepalive'' @ [6] @ bytes_of ''qnatter'' @ [0] @
     put16 0x0001 @ put16 0x0001"

definition udp_close :: "net_env \<Rightarrow> udp_client \<Rightarrow> net_history \<Rightarrow> goerror option \<times> udp_client \<times> net_history" where
  "udp_close env c h =
     (case uc_conn c of
        None \<Rightarrow> (None, c, h)
      | Some i \<Rightarrow> let (e, h') = close_conn env i h in (e, c\<lparr>uc_conn := None\<rparr>, h'))"

definition udp_dial :: "net_env \<Rightarrow> udp_client \<Rightarrow> net_history \<Rightarrow> (goerror + nat) \<times> net_history" where
  [simp]: "udp_dial env c h = dial_from env ''udp'' (uc_source c) (dial_options (uc_interface c)) (uc_host c) (uc_port c) h"

definition udp_disconnect :: "net_env \<Rightarrow> udp_client \<Rightarrow> net_history \<Rightarrow> udp_client \<times> net_history" where
  [simp]: "udp_disconnect env c h = snd (udp_close env c h)"

definition udp_failed ::
  "net_env \<Rightarrow> goerror \<Rightarrow> udp_client \<Rightarrow> net_history \<Rightarrow> goerror option \<times> udp_client \<times> net_history" where
  "udp_failed env e c h = (Some e, udp_disconnect env c h)"

definition udp_exchange ::
  "net_env \<Rightarrow> byte list \<Rightarrow> nat \<Rightarrow> udp_client \<Rightarrow> net_history \<Rightarrow> goerror option \<times> udp_client \<times> net_history" where
  "udp_exchange env query i c h =
     (let deadline = ne_set_deadline env h i; h1 = h @ [DeadlineCall i deadline] in
      case deadline of
        Some e \<Rightarrow> udp_failed env e c h1
      | None \<Rightarrow>
          let written = ne_write env h1 i (text_of query);
              h2 = h1 @ [WriteCall i (text_of query) written]
          in (case written of
               Some e \<Rightarrow> udp_failed env e c h2
             | None \<Rightarrow>
                 let (n, failure) = ne_read env h2 i; h3 = h2 @ [ReadCall i n failure] in
                 (case failure of
                    Some f \<Rightarrow> udp_failed env (rf_error f) c h3
                  | None \<Rightarrow>
                      if n = 0 then udp_failed env (errorf ''keep-alive server closed connection'') c h3
                      else (None, c, h3))))"

definition udp_keep_alive ::
  "net_env \<Rightarrow> byte list \<Rightarrow> udp_client \<Rightarrow> net_history \<Rightarrow> goerror option \<times> udp_client \<times> net_history" where
  "udp_keep_alive env query c h =
     (case uc_conn c of
        Some i \<Rightarrow> udp_exchange env query i c h
      | None \<Rightarrow>
          (case udp_dial env c h of
             (Inl e, h') \<Rightarrow> (Some e, c, h')
           | (Inr i, h') \<Rightarrow> udp_exchange env query i (c\<lparr>uc_conn := Some i\<rparr>) h'))"

lemmas keep_alive_defs [go_defs] =
  dial_options_def dial_with_def dial_from_def close_conn_def tcp_request_def tcp_close_def tcp_disconnect_def
  tcp_failed_def tcp_exchange_def tcp_keep_alive_def dns_keep_alive_query_def udp_close_def
  udp_failed_def udp_exchange_def udp_keep_alive_def

section \<open>The contract of a keep-alive client\<close>

lemma closed_append [simp]:
  "closed (h @ [DeadlineCall i d]) = closed h"
  "closed (h @ [WriteCall i r w]) = closed h"
  "closed (h @ [ReadCall i n f]) = closed h"
  "closed (h @ [DialCall m l p a e]) = closed h"
  "closed (h @ [CloseCall i e']) = insert i (closed h)"
  by (auto simp: closed_def)

lemma dialed_append [simp]:
  "dialed (h @ [DeadlineCall i d]) = dialed h"
  "dialed (h @ [WriteCall i r w]) = dialed h"
  "dialed (h @ [ReadCall i n f]) = dialed h"
  "dialed (h @ [DialCall m l p a (Some e)]) = dialed h"
  "dialed (h @ [DialCall m l p a None]) = insert (length h) (dialed h)"
  "dialed (h @ [CloseCall i e']) = dialed h"
  by (auto simp: dialed_def nth_append less_Suc_eq)

text \<open>The calls that neither open nor close a connection.\<close>

fun silent :: "net_call \<Rightarrow> bool" where
  "silent (DialCall _ _ _ _ e) \<longleftrightarrow> e \<noteq> None"
| "silent (CloseCall _ _) \<longleftrightarrow> False"
| "silent _ \<longleftrightarrow> True"

lemma silent_append:
  assumes "list_all silent xs"
  shows "closed (h @ xs) = closed h" "dialed (h @ xs) = dialed h" "live (h @ xs) = live h"
proof -
  have "closed (h @ xs) = closed h \<and> dialed (h @ xs) = dialed h"
    using assms
  proof (induction xs rule: rev_induct)
    case (snoc x xs)
    then show ?case
      by (cases x) (auto simp flip: append_assoc)
  qed simp
  then show "closed (h @ xs) = closed h" "dialed (h @ xs) = dialed h" "live (h @ xs) = live h"
    by (simp_all add: live_def)
qed

text \<open>Every close names a connection dialled before it.\<close>

definition orderly :: "net_history \<Rightarrow> bool" where
  "orderly h \<longleftrightarrow> closed h \<subseteq> dialed h"

lemma dialed_bound: "i \<in> dialed h \<Longrightarrow> i < length h"
  by (simp add: dialed_def)

lemma live_dial: "orderly h \<Longrightarrow> live (h @ [DialCall n l p a None]) = insert (length h) (live h)"
  using dialed_bound [of "length h" h] by (auto simp: live_def orderly_def)

lemma live_close: "live (h @ [CloseCall i e]) = live h - {i}"
  by (auto simp: live_def)

lemma orderly_close: "orderly h \<Longrightarrow> i \<in> live h \<Longrightarrow> orderly (h @ [CloseCall i e])"
  by (auto simp: orderly_def live_def)

text \<open>
  \<open>owns held h B\<close>: of the open connections, the client holds exactly \<open>held\<close>; \<open>B\<close> are the
  connections of the rest of the program.
\<close>

definition owns :: "nat option \<Rightarrow> net_history \<Rightarrow> nat set \<Rightarrow> bool" where
  "owns held h B \<longleftrightarrow> orderly h \<and> live h = B \<union> set_option held \<and> set_option held \<inter> B = {}"

lemma owns_silent [simp]: "list_all silent xs \<Longrightarrow> owns held (h @ xs) B \<longleftrightarrow> owns held h B"
  by (simp add: owns_def orderly_def silent_append)

lemma owns_dial:
  assumes "owns None h B"
  shows "owns (Some (length h)) (h @ [DialCall n l p a None]) B"
proof -
  have "length h \<notin> B"
    using assms dialed_bound [of "length h" h] by (auto simp: owns_def live_def)
  with assms live_dial [of h] show ?thesis by (auto simp: owns_def orderly_def)
qed

lemma owns_close: "owns (Some i) h B \<Longrightarrow> owns None (h @ [CloseCall i e]) B"
  using orderly_close [of h i e] by (auto simp: owns_def live_close)

text \<open>A client's life: any number of calls, one per tick, whatever they return.\<close>

primrec repeat_calls ::
  "('c \<Rightarrow> net_history \<Rightarrow> ('r \<times> 'c \<times> net_history) option) \<Rightarrow> nat \<Rightarrow> 'c \<Rightarrow> net_history \<Rightarrow> ('c \<times> net_history) option" where
  "repeat_calls call 0 c h = Some (c, h)"
| "repeat_calls call (Suc n) c h =
     (case call c h of None \<Rightarrow> None | Some (r, c', h') \<Rightarrow> repeat_calls call n c' h')"

text \<open>
  The interface \<open>KeepAlive\<close> of the engine.  \<open>keep_alive\<close> is partial: \<open>None\<close> is a call that has
  not returned.
\<close>

locale keepalive_client =
  fixes conn :: "'c \<Rightarrow> nat option"
    and keep_alive :: "'c \<Rightarrow> net_history \<Rightarrow> (goerror option \<times> 'c \<times> net_history) option"
    and close :: "'c \<Rightarrow> net_history \<Rightarrow> goerror option \<times> 'c \<times> net_history"
  assumes keep_alive_owns:
      "owns (conn c) h B \<Longrightarrow> keep_alive c h = Some (r, c', h') \<Longrightarrow> owns (conn c') h' B"
    and keep_alive_failed:
      "keep_alive c h = Some (Some e, c', h') \<Longrightarrow> conn c' = None"
    and keep_alive_ok:
      "keep_alive c h = Some (None, c', h') \<Longrightarrow> conn c' \<noteq> None"
    and close_owns: "owns (conn c) h B \<Longrightarrow> close c h = (r, c', h') \<Longrightarrow> owns None h' B"
    and close_conn: "close c h = (r, c', h') \<Longrightarrow> conn c' = None"
    and close_idle: "conn c = None \<Longrightarrow> close c h = (None, c, h)"
begin

lemma keep_alives_owns:
  "owns (conn c) h B \<Longrightarrow> repeat_calls keep_alive n c h = Some (c', h') \<Longrightarrow> owns (conn c') h' B"
proof (induction n arbitrary: c h)
  case 0
  then show ?case by simp
next
  case (Suc n)
  from Suc.prems(2) obtain r c1 h1 where s: "keep_alive c h = Some (r, c1, h1)" "repeat_calls keep_alive n c1 h1 = Some (c', h')"
    by (auto split: option.splits)
  from Suc.IH [OF keep_alive_owns [OF Suc.prems(1) s(1)] s(2)] show ?case .
qed

lemma life_releases:
  assumes "owns (conn c) h B" "repeat_calls keep_alive n c h = Some (c1, h1)" "close c1 h1 = (r, c2, h2)"
  shows "live h2 = B \<and> conn c2 = None \<and> close c2 h2 = (None, c2, h2)"
proof -
  from close_owns [OF keep_alives_owns [OF assms(1,2)] assms(3)] have "live h2 = B" by (simp add: owns_def)
  with close_conn [OF assms(3)] close_idle show ?thesis by auto
qed

end

lemma dial_with_owns:
  assumes "owns None h B" "dial_with env network local opts address h = (r, h')"
  shows "case r of Inl e \<Rightarrow> owns None h' B | Inr i \<Rightarrow> owns (Some i) h' B"
  using assms owns_dial [of h B]
  by (auto simp: dial_with_def Let_def split: option.splits)

lemma dial_from_owns:
  assumes "owns None h B" "dial_from env proto source opts host port h = (r, h')"
  shows "case r of Inl e \<Rightarrow> owns None h' B | Inr i \<Rightarrow> owns (Some i) h' B"
proof (cases "local_addr (network_for_source proto source) source")
  case Inl
  with assms show ?thesis by (auto simp: dial_from_def)
next
  case Inr
  with assms(2) have "dial_with env (network_for_source proto source) (projr (local_addr (network_for_source proto source) source))
      opts (join_host_port host (itoa port)) h = (r, h')" by (simp add: dial_from_def Let_def)
  then show ?thesis by (rule dial_with_owns [OF assms(1)])
qed

lemma close_conn_owns: "owns (Some i) h B \<Longrightarrow> close_conn env i h = (e, h') \<Longrightarrow> owns None h' B"
  by (auto simp: close_conn_def Let_def owns_close)

lemma tcp_close_idle: "tc_conn c = None \<Longrightarrow> tcp_close env c h = (None, c, h)"
  by (simp add: tcp_close_def)

lemma tcp_close_conn: "tcp_close env c h = (r, c', h') \<Longrightarrow> tc_conn c' = None"
  by (auto simp: tcp_close_def split: option.splits prod.splits)

lemma tcp_close_owns: "owns (tc_conn c) h B \<Longrightarrow> tcp_close env c h = (r, c', h') \<Longrightarrow> owns None h' B"
  by (auto simp: tcp_close_def close_conn_owns split: option.splits prod.splits)

lemma tcp_read_loop_owns:
  "owns held h B \<Longrightarrow> tcp_read_loop env i fuel received h = Some (r, h') \<Longrightarrow> owns held h' B"
  by (induction env i fuel received h rule: tcp_read_loop.induct)
    (auto simp: Let_def split: prod.splits option.splits if_splits)

lemma tcp_failed_conn: "tcp_failed env e c h = Some (r, c', h') \<Longrightarrow> tc_conn c' = None \<and> r = Some e"
  by (cases "tcp_close env c h") (auto simp: tcp_failed_def tcp_disconnect_def dest: tcp_close_conn)

lemma tcp_failed_owns:
  "tcp_failed env e c h = Some (r, c', h') \<Longrightarrow> owns (tc_conn c) h B \<Longrightarrow> owns None h' B \<and> tc_conn c' = None \<and> r = Some e"
  by (cases "tcp_close env c h")
    (auto simp: tcp_failed_def tcp_disconnect_def dest: tcp_close_owns tcp_close_conn)

lemma tcp_exchange_owns:
  assumes "tcp_exchange env fuel i c h = Some (r, c', h')" "owns (tc_conn c) h B"
  shows "owns (tc_conn c') h' B"
proof -
  have fail: ?thesis if "tcp_failed env e c h2 = Some (r, c', h')" "owns (tc_conn c) h2 B" for e h2
    using tcp_failed_owns [OF that] by simp
  have loop: "owns (tc_conn c) h3 B"
    if "tcp_read_loop env i fuel False (h @ [DeadlineCall i None, WriteCall i request None]) = Some (e, h3)" for request e h3
    using tcp_read_loop_owns [OF _ that] assms(2) by simp
  from assms show ?thesis
    by (auto simp: tcp_exchange_def Let_def intro: fail dest: loop
        split: option.splits prod.splits read_end.splits)
qed

lemma tcp_exchange_conn:
  "tcp_exchange env fuel i c h = Some (r, c', h') \<Longrightarrow> tc_conn c' = (if r = None then tc_conn c else None)"
  by (auto simp: tcp_exchange_def Let_def dest!: tcp_failed_conn
        split: option.splits prod.splits read_end.splits)

lemma tcp_keep_alive_owns:
  "owns (tc_conn c) h B \<Longrightarrow> tcp_keep_alive env fuel c h = Some (r, c', h') \<Longrightarrow> owns (tc_conn c') h' B"
  using dial_from_owns [of h B]
  by (fastforce simp: tcp_keep_alive_def split: option.splits prod.splits sum.splits dest: tcp_exchange_owns)

lemma tcp_keep_alive_conn:
  "tcp_keep_alive env fuel c h = Some (r, c', h') \<Longrightarrow> tc_conn c' = None \<longleftrightarrow> r \<noteq> None"
  by (auto simp: tcp_keep_alive_def dest!: tcp_exchange_conn split: option.splits prod.splits sum.splits if_splits)

interpretation tcp: keepalive_client tc_conn "tcp_keep_alive env fuel" "tcp_close env"
proof unfold_locales
  show "owns (tc_conn c) h B \<Longrightarrow> tcp_keep_alive env fuel c h = Some (r, c', h') \<Longrightarrow> owns (tc_conn c') h' B"
    for c h B r c' h' by (rule tcp_keep_alive_owns)
qed (auto dest: tcp_keep_alive_conn tcp_close_owns tcp_close_conn simp: tcp_close_idle)

section \<open>The UDP client\<close>

lemma udp_close_idle: "uc_conn c = None \<Longrightarrow> udp_close env c h = (None, c, h)"
  by (simp add: udp_close_def)

lemma udp_close_conn: "udp_close env c h = (r, c', h') \<Longrightarrow> uc_conn c' = None"
  by (auto simp: udp_close_def split: option.splits prod.splits)

lemma udp_close_owns: "owns (uc_conn c) h B \<Longrightarrow> udp_close env c h = (r, c', h') \<Longrightarrow> owns None h' B"
  by (auto simp: udp_close_def close_conn_owns split: option.splits prod.splits)

lemma udp_failed_owns:
  "udp_failed env e c h = (r, c', h') \<Longrightarrow> owns (uc_conn c) h B \<Longrightarrow> owns (uc_conn c') h' B"
  by (cases "udp_close env c h")
    (auto simp: udp_failed_def udp_close_conn dest: udp_close_owns)

lemma udp_failed_conn: "udp_failed env e c h = (r, c', h') \<Longrightarrow> uc_conn c' = None \<and> r = Some e"
  by (cases "udp_close env c h") (auto simp: udp_failed_def dest: udp_close_conn)

lemma udp_exchange_owns:
  "udp_exchange env query i c h = (r, c', h') \<Longrightarrow> owns (uc_conn c) h B \<Longrightarrow> owns (uc_conn c') h' B"
  by (auto simp: udp_exchange_def Let_def intro: udp_failed_owns split: option.splits prod.splits if_splits)

lemma udp_exchange_conn:
  "udp_exchange env query i c h = (r, c', h') \<Longrightarrow> uc_conn c' = (if r = None then uc_conn c else None)"
  by (auto simp: udp_exchange_def Let_def dest!: udp_failed_conn split: option.splits prod.splits if_splits)

lemma udp_keep_alive_owns:
  "owns (uc_conn c) h B \<Longrightarrow> udp_keep_alive env query c h = (r, c', h') \<Longrightarrow> owns (uc_conn c') h' B"
  using dial_from_owns [of h B]
  by (fastforce simp: udp_keep_alive_def split: option.splits prod.splits sum.splits dest: udp_exchange_owns)

lemma udp_keep_alive_conn:
  "udp_keep_alive env query c h = (r, c', h') \<Longrightarrow> uc_conn c' = None \<longleftrightarrow> r \<noteq> None"
  by (auto simp: udp_keep_alive_def dest!: udp_exchange_conn split: option.splits prod.splits sum.splits if_splits)

interpretation udp: keepalive_client uc_conn "\<lambda>c h. Some (udp_keep_alive env query c h)" "udp_close env"
proof unfold_locales
  show "owns (uc_conn c) h B \<Longrightarrow> Some (udp_keep_alive env query c h) = Some (r, c', h') \<Longrightarrow> owns (uc_conn c') h' B"
    for c h B r c' h' using udp_keep_alive_owns by simp
qed (auto dest: udp_keep_alive_conn udp_close_owns udp_close_conn simp: udp_close_idle)

section \<open>Properties\<close>

text \<open>
  C18: a TCP keep-alive client never leaks a connection: after any number of keep-alive calls,
  failed or not, \<open>Close\<close> leaves open exactly the connections of the rest of the program, and a
  second \<open>Close\<close> does nothing.
\<close>

theorem tcp_client_releases:
  assumes "owns (tc_conn c) h B"
    and "repeat_calls (tcp_keep_alive env fuel) n c h = Some (c1, h1)"
    and "tcp_close env c1 h1 = (r, c2, h2)"
  shows "live h2 = B \<and> tc_conn c2 = None \<and> tcp_close env c2 h2 = (None, c2, h2)"
  using assms by (rule tcp.life_releases)

text \<open>
  A UDP keep-alive client never leaks a connection: after any number of keep-alive calls,
  failed or not, \<open>Close\<close> leaves open exactly the connections of the rest of the program, and a
  second \<open>Close\<close> does nothing.
\<close>

theorem udp_client_releases:
  assumes "owns (uc_conn c) h B"
    and "repeat_calls (\<lambda>c h. Some (udp_keep_alive env query c h)) n c h = Some (c1, h1)"
    and "udp_close env c1 h1 = (r, c2, h2)"
  shows "live h2 = B \<and> uc_conn c2 = None \<and> udp_close env c2 h2 = (None, c2, h2)"
  using assms by (rule udp.life_releases)

lemma tcp_read_loop_alive:
  "tcp_read_loop env i fuel received h = Some (StillAlive, h') \<Longrightarrow>
   \<exists>ns k e. h' = h @ map (\<lambda>n. ReadCall i n None) ns @ [ReadCall i k (Some (ReadFailure True e))] \<and>
     (received \<or> 0 < sum_list ns + k)"
proof (induction fuel arbitrary: received h)
  case 0
  then show ?case by simp
next
  case (Suc fuel)
  obtain n failure where r: "ne_read env h i = (n, failure)" by fastforce
  show ?case
  proof (cases failure)
    case None
    with Suc.prems r have "0 < n" and rest: "tcp_read_loop env i fuel True (h @ [ReadCall i n None]) = Some (StillAlive, h')"
      by (auto simp: Let_def split: if_splits)
    from Suc.IH [OF rest] obtain ns k e where
      "h' = (h @ [ReadCall i n None]) @ map (\<lambda>n. ReadCall i n None) ns @ [ReadCall i k (Some (ReadFailure True e))]" by blast
    with \<open>0 < n\<close> show ?thesis by (intro exI [of _ "n # ns"]) auto
  next
    case (Some f)
    with Suc.prems r have "h' = h @ [ReadCall i n (Some f)]" "rf_timeout f" "received \<or> 0 < n"
      by (auto simp: Let_def split: if_splits)
    then show ?thesis
      using Some by (intro exI [of _ "[]"]) (cases f; auto)
  qed
qed

lemma tcp_exchange_alive:
  assumes "tcp_exchange env fuel i c h = Some (None, c', h')"
  shows "c' = c \<and> (\<exists>pre ns k e. h' = pre @ [WriteCall i (tcp_request (tc_host c)) None] @
      map (\<lambda>n. ReadCall i n None) ns @ [ReadCall i k (Some (ReadFailure True e))] \<and> 0 < sum_list ns + k)"
proof -
  from assms have loop: "c' = c" "tcp_read_loop env i fuel False
      ((h @ [DeadlineCall i None]) @ [WriteCall i (tcp_request (tc_host c)) None]) = Some (StillAlive, h')"
    by (auto simp: tcp_exchange_def Let_def dest: tcp_failed_conn split: option.splits prod.splits read_end.splits)
  from tcp_read_loop_alive [OF loop(2)] obtain ns k e where
    "h' = (h @ [DeadlineCall i None]) @ [WriteCall i (tcp_request (tc_host c)) None] @
       map (\<lambda>n. ReadCall i n None) ns @ [ReadCall i k (Some (ReadFailure True e))]" "0 < sum_list ns + k"
    by auto
  with loop(1) show ?thesis by blast
qed

text \<open>
  C19: a TCP keep-alive that reports success has written the whole request on the connection it
  still holds, has then received at least one byte on it, and its last read ended in a timeout:
  neither a silent peer nor a peer that closed or reset the connection is taken for alive.
\<close>

theorem tcp_keep_alive_success:
  assumes "tcp_keep_alive env fuel c h = Some (None, c', h')"
  shows "\<exists>i pre ns k e. tc_conn c' = Some i \<and>
    h' = pre @ [WriteCall i (tcp_request (tc_host c)) None] @
      map (\<lambda>n. ReadCall i n None) ns @ [ReadCall i k (Some (ReadFailure True e))] \<and> 0 < sum_list ns + k"
proof (cases "tc_conn c")
  case (Some i)
  with assms have "tcp_exchange env fuel i c h = Some (None, c', h')" by (simp add: tcp_keep_alive_def)
  from tcp_exchange_alive [OF this] Some show ?thesis by blast
next
  case None
  with assms obtain i h1 where "tcp_exchange env fuel i (c\<lparr>tc_conn := Some i\<rparr>) h1 = Some (None, c', h')"
    by (auto simp: tcp_keep_alive_def split: sum.splits prod.splits)
  from tcp_exchange_alive [OF this] show ?thesis by auto
qed

lemma tcp_read_loop_ends:
  assumes "\<And>h. L \<le> length h \<Longrightarrow> snd (ne_read env h i) \<noteq> None \<or> fst (ne_read env h i) = 0"
  shows "L < length h + fuel \<Longrightarrow> tcp_read_loop env i fuel received h \<noteq> None \<or> fuel = 0"
proof (induction fuel arbitrary: h received)
  case 0
  then show ?case by simp
next
  case (Suc fuel)
  show ?case
  proof (cases "L \<le> length h")
    case True
    from assms [OF this] show ?thesis by (auto simp: Let_def split: prod.splits option.splits)
  next
    case False
    with Suc.prems have "fuel \<noteq> 0" "L < length (h @ [x]) + fuel" for x by auto
    with Suc.IH show ?thesis by (fastforce simp: Let_def split: prod.splits option.splits)
  qed
qed

lemma tcp_failed_returns: "tcp_failed env e c h \<noteq> None"
  by (simp add: tcp_failed_def split: prod.splits)

lemma tcp_exchange_returns:
  assumes "\<And>h. L \<le> length h \<Longrightarrow> snd (ne_read env h i) \<noteq> None \<or> fst (ne_read env h i) = 0" "L < fuel"
  shows "tcp_exchange env fuel i c h \<noteq> None"
proof -
  have "tcp_read_loop env i fuel False h2 \<noteq> None" for h2
    using tcp_read_loop_ends [where L = L and i = i and h = h2 and env = env and fuel = fuel] assms by simp
  then show ?thesis
    by (simp add: tcp_exchange_def Let_def tcp_failed_returns del: not_None_eq split: option.splits prod.splits read_end.splits)
qed

text \<open>
  C20: the TCP keep-alive returns.  If reads fail or come back empty once \<open>L\<close> calls have been made
  (the deadline set before the loop passes), the loop ends whatever the peer sends before, so
  fuel above \<open>L\<close> is enough for the call to return.
\<close>

theorem tcp_keep_alive_returns:
  assumes "\<And>i h. L \<le> length h \<Longrightarrow> snd (ne_read env h i) \<noteq> None \<or> fst (ne_read env h i) = 0"
    and "L < fuel"
  shows "\<exists>r c' h'. tcp_keep_alive env fuel c h = Some (r, c', h')"
proof -
  have "tcp_keep_alive env fuel c h \<noteq> None"
    using tcp_exchange_returns [of L env _ fuel, OF assms]
    by (auto simp: tcp_keep_alive_def split: option.splits sum.splits prod.splits)
  then show ?thesis by auto
qed

text \<open>A name in a DNS message (RFC 1035, section 4.1.4, without compression): labels up to the empty one.\<close>

function dns_labels :: "byte list \<Rightarrow> byte list list option" where
  "dns_labels [] = None"
| "dns_labels (n # bs) =
     (if n = 0 then Some []
      else if 64 \<le> unat n \<or> length bs < unat n then None
      else map_option ((#) (take (unat n) bs)) (dns_labels (drop (unat n) bs)))"
  by pat_completeness auto
termination
  by (relation "measure length") auto

declare dns_labels.simps [simp del]

text \<open>
  The DNS query of the UDP keep-alive is not a well-formed DNS question: the length byte 6
  stands before the seven letters of \<open>qnatter\<close>, so the name does not end where it should and the
  next length byte is the letter \<open>r\<close>.  With the length byte 7 the name would be
  \<open>keepalive.qnatter\<close>.
\<close>

theorem dns_query_name_malformed:
  "dns_labels (drop 12 (dns_keep_alive_query r0 r1)) = None \<and>
   dns_labels ((drop 12 (dns_keep_alive_query r0 r1))[10 := 7]) = Some [bytes_of ''keepalive'', bytes_of ''qnatter''] \<and>
   length (dns_keep_alive_query r0 r1) = 35"
  by (simp add: dns_keep_alive_query_def put16_def bytes_of_def dns_labels.simps)

text \<open>A network on which everything works and a peer that answers five bytes and then falls silent.\<close>

definition sample_net :: net_env where
  "sample_net = \<lparr>ne_dial = \<lambda>_ _ _ _ _. None, ne_set_deadline = \<lambda>_ _. None, ne_write = \<lambda>_ _ _. None,
     ne_read = \<lambda>h _. if length h < 4 then (5, None) else (0, Some (ReadFailure True (errorf ''timeout''))),
     ne_close = \<lambda>_ _. None\<rparr>"

definition sample_tcp :: tcp_client where
  "sample_tcp = \<lparr>tc_host = ''www.example'', tc_port = 80, tc_source = AddrPort (Addr4 10 0 0 2) 4000,
     tc_interface = [], tc_conn = None\<rparr>"

definition sample_udp :: udp_client where
  "sample_udp = \<lparr>uc_host = ''192.0.2.53'', uc_port = 53, uc_source = AddrPort (Addr4 10 0 0 2) 4000,
     uc_interface = [], uc_conn = None\<rparr>"

lemma sample_tcp_run:
  "\<exists>h'. tcp_keep_alive sample_net 5 sample_tcp [] = Some (None, sample_tcp\<lparr>tc_conn := Some 0\<rparr>, h')"
  by (simp add: tcp_keep_alive_def tcp_exchange_def dial_with_def dial_from_def local_addr_def network_for_source_def
      ap_valid_def sample_net_def sample_tcp_def Let_def numeral_eq_Suc)

theorem tcp_client_releases_witness:
  "\<exists>c1 h1 r c2 h2. repeat_calls (tcp_keep_alive sample_net 5) 1 sample_tcp [] = Some (c1, h1) \<and>
     tc_conn c1 = Some 0 \<and> tcp_close sample_net c1 h1 = (r, c2, h2) \<and> live h2 = {}"
proof -
  from sample_tcp_run obtain h1 where
    run: "repeat_calls (tcp_keep_alive sample_net 5) 1 sample_tcp [] = Some (sample_tcp\<lparr>tc_conn := Some 0\<rparr>, h1)"
    by auto
  obtain r c2 h2 where close: "tcp_close sample_net (sample_tcp\<lparr>tc_conn := Some 0\<rparr>) h1 = (r, c2, h2)"
    by (metis prod.collapse)
  have "owns (tc_conn sample_tcp) [] {}"
    by (simp add: owns_def orderly_def live_def dialed_def closed_def sample_tcp_def)
  from tcp_client_releases [OF this run close] run close show ?thesis by fastforce
qed

theorem udp_client_releases_witness:
  "\<exists>c1 h1 r c2 h2. repeat_calls (\<lambda>c h. Some (udp_keep_alive sample_net (dns_keep_alive_query 1 2) c h)) 1 sample_udp [] = Some (c1, h1) \<and>
     uc_conn c1 = Some 0 \<and> udp_close sample_net c1 h1 = (r, c2, h2) \<and> live h2 = {}"
proof -
  have "\<exists>h1. udp_keep_alive sample_net (dns_keep_alive_query 1 2) sample_udp [] = (None, sample_udp\<lparr>uc_conn := Some 0\<rparr>, h1)"
    by (simp add: udp_keep_alive_def udp_exchange_def dial_with_def dial_from_def local_addr_def network_for_source_def
      ap_valid_def sample_net_def sample_udp_def Let_def)
  then obtain h1 where run: "repeat_calls (\<lambda>c h. Some (udp_keep_alive sample_net (dns_keep_alive_query 1 2) c h)) 1 sample_udp []
      = Some (sample_udp\<lparr>uc_conn := Some 0\<rparr>, h1)"
    by auto
  obtain r c2 h2 where close: "udp_close sample_net (sample_udp\<lparr>uc_conn := Some 0\<rparr>) h1 = (r, c2, h2)"
    by (metis prod.collapse)
  have "owns (uc_conn sample_udp) [] {}"
    by (simp add: owns_def orderly_def live_def dialed_def closed_def sample_udp_def)
  from udp_client_releases [OF this run close] run close show ?thesis by fastforce
qed

theorem tcp_keep_alive_success_witness:
  "\<exists>h' i pre ns k e. tcp_keep_alive sample_net 5 sample_tcp [] = Some (None, sample_tcp\<lparr>tc_conn := Some 0\<rparr>, h') \<and>
    h' = pre @ [WriteCall i (tcp_request ''www.example'') None] @
      map (\<lambda>n. ReadCall i n None) ns @ [ReadCall i k (Some (ReadFailure True e))] \<and> 0 < sum_list ns + k"
proof -
  from sample_tcp_run obtain h' where
    run: "tcp_keep_alive sample_net 5 sample_tcp [] = Some (None, sample_tcp\<lparr>tc_conn := Some 0\<rparr>, h')" ..
  have host: "tc_host sample_tcp = ''www.example''" by (simp add: sample_tcp_def)
  show ?thesis using run tcp_keep_alive_success [OF run] unfolding host by blast
qed

theorem tcp_keep_alive_returns_witness:
  "\<exists>r c' h'. tcp_keep_alive sample_net 5 sample_tcp [] = Some (r, c', h')"
  by (rule tcp_keep_alive_returns [where L = 4]) (simp_all add: sample_net_def)

end
