(* ===== verification/Stun_Transport.thy ===== *)
theory Stun_Transport
  imports Stun_Client Keep_Alive
begin

text \<open>
  The transport of \<open>internal/stun/client.go\<close>: \<open>NetworkTransport.Exchange\<close> over the history of network
  calls, the local address of a connection, and the client's \<open>GetMapping\<close> over it.
\<close>
section \<open>The local address\<close>

text \<open>
  \<open>netip.ParseAddrPort\<close>: the last colon separates the port, brackets are for IPv6 and only for it.
\<close>

definition parse_addr_port :: "string \<Rightarrow> addr_port option" where
  "parse_addr_port s =
     (case last_index (CHR '':'') s of
        None \<Rightarrow> None
      | Some i \<Rightarrow>
          let ip = take i s; port = drop (Suc i) s; bracket = (ip \<noteq> [] \<and> hd ip = CHR ''[''); inside = butlast (tl ip) in
          if ip = [] \<or> port = [] then None
          else if bracket \<and> (length ip < 2 \<or> last ip \<noteq> CHR '']'') then None
          else (case (parse_uint 10 16 port, parse_addr (if bracket then inside else ip)) of
                  (Some p, Some a) \<Rightarrow> if bracket = is4 a then None else Some (AddrPort a (of_nat p))
                | _ \<Rightarrow> None))"

text \<open>What \<open>conn.LocalAddr()\<close> returns: the text of the address and the port, or a type the code does not know.\<close>

datatype conn_addr = TCPConnAddr string int | UDPConnAddr string int | OtherConnAddr string

fun parse_net_addr :: "conn_addr \<Rightarrow> goerror + addr_port" where
  "parse_net_addr (OtherConnAddr t) = Inl (errorf (''unsupported local address '' @ t))"
| "parse_net_addr (TCPConnAddr ip port) =
     of_option (errorf ''invalid local address'') (parse_addr_port (join_host_port ip (itoa port)))"
| "parse_net_addr (UDPConnAddr ip port) =
     of_option (errorf ''invalid local address'') (parse_addr_port (join_host_port ip (itoa port)))"

section \<open>Exchange\<close>

text \<open>
  What a connection of an exchange meets, as a function of the history: the chunks that its reads
  will find within the time limit, the error of the read after them, and its local address.
\<close>

record stun_env =
  sn_net :: net_env
  sn_incoming :: "net_history \<Rightarrow> nat \<Rightarrow> int \<Rightarrow> byte list list \<times> goerror"
  sn_local :: "net_history \<Rightarrow> nat \<Rightarrow> conn_addr"

fun read_goerror :: "goerror \<Rightarrow> read_error \<Rightarrow> goerror" where
  "read_goerror e StreamEnded = e"
| "read_goerror e ReadFailed = e"
| "read_goerror e (ResponseTooLarge n) =
     errorf (''stun response too large: '' @ itoa (int n) @ '' bytes (limit '' @ itoa (int max_message_size) @ '')'')"

definition exchange_read :: "stun_env \<Rightarrow> int \<Rightarrow> string \<Rightarrow> net_history \<Rightarrow> nat \<Rightarrow> goerror + byte list" where
  "exchange_read env timeout network h i =
     (let (chunks, e) = sn_incoming env h i timeout in
      case read_response network chunks of Inl r \<Rightarrow> Inl (read_goerror e r) | Inr bs \<Rightarrow> Inr bs)"

definition transport_options :: "network_transport \<Rightarrow> sock_options" where
  "transport_options t = \<lparr>so_interface = nt_interface t, so_reuse = nt_reuse t, so_disable_reuse_port = False\<rparr>"

definition network_exchange :: "stun_env \<Rightarrow> network_transport \<Rightarrow> net_history exchange" where
  "network_exchange env t network server source request h =
     (case dial_from (sn_net env) network source (transport_options t) (sv_host server) (sv_port server) h of
        (Inl e, h1) \<Rightarrow> (Inl e, h1)
      | (Inr i, h1) \<Rightarrow>
          let h2 = h1 @ [DeadlineCall i (ne_set_deadline (sn_net env) h1 i)];
              written = ne_write (sn_net env) h2 i (text_of request);
              h3 = h2 @ [WriteCall i (text_of request) written];
              answer =
                (case written of
                   Some e \<Rightarrow> Inl e
                 | None \<Rightarrow>
                     res_bind (exchange_read env (transport_timeout t) network h3 i) (\<lambda>response.
                     res_bind (parse_net_addr (sn_local env h3 i)) (\<lambda>inner. Inr (inner, response))))
          in (answer, snd (close_conn (sn_net env) i h3)))"

lemmas stun_transport_defs [go_defs] =
  parse_addr_port_def exchange_read_def transport_options_def network_exchange_def

section \<open>An exchange keeps no connection\<close>

text \<open>Two histories with the same open connections, none of them lost from the books.\<close>

definition same_live :: "net_history \<Rightarrow> net_history \<Rightarrow> bool" where
  "same_live h h' \<longleftrightarrow> (orderly h \<longrightarrow> orderly h' \<and> live h' = live h)"

lemma same_live_refl [simp, intro]: "same_live h h"
  by (simp add: same_live_def)

lemma same_live_trans: "same_live h h1 \<Longrightarrow> same_live h1 h2 \<Longrightarrow> same_live h h2"
  by (simp add: same_live_def)

lemma owns_none: "orderly h \<Longrightarrow> owns None h (live h)"
  by (simp add: owns_def)

lemma same_live_owns: "(\<And>B. owns None h B \<Longrightarrow> owns None h' B) \<Longrightarrow> same_live h h'"
  using owns_none by (force simp: same_live_def owns_def)

text \<open>A connection that is dialled, used and closed again.\<close>

lemma owned_use_close:
  assumes "\<And>B. owns None h B \<Longrightarrow> owns (Some i) h1 B" "list_all silent xs"
  shows "same_live h (h1 @ xs @ [CloseCall i e])"
proof (rule same_live_owns)
  fix B assume "owns None h B"
  with assms have "owns (Some i) (h1 @ xs) B" by simp
  from owns_close [OF this] show "owns None (h1 @ xs @ [CloseCall i e]) B" by simp
qed

lemma dial_use_close:
  "dial_from env network source opts host port h = (Inr i, h1) \<Longrightarrow> list_all silent xs \<Longrightarrow>
   same_live h (h1 @ xs @ [CloseCall i e])"
  using dial_from_owns by (intro owned_use_close) force+

lemma dial_failed: "dial_from env network source opts host port h = (Inl e, h1) \<Longrightarrow> same_live h h1"
  by (rule same_live_owns) (use dial_from_owns in fastforce)

lemma dial_with_use_close:
  "dial_with env network local opts address h = (Inr i, h1) \<Longrightarrow> list_all silent xs \<Longrightarrow>
   same_live h (h1 @ xs @ [CloseCall i e])"
  using dial_with_owns by (intro owned_use_close) force+

lemma dial_with_failed: "dial_with env network local opts address h = (Inl e, h1) \<Longrightarrow> same_live h h1"
  by (rule same_live_owns) (use dial_with_owns in fastforce)

lemma network_exchange_same_live: "same_live h (snd (network_exchange env t network server source request h))"
proof -
  obtain r h1 where d: "dial_from (sn_net env) network source (transport_options t) (sv_host server) (sv_port server) h = (r, h1)" by fastforce
  show ?thesis
  proof (cases r)
    case (Inl e)
    with d dial_failed [of "sn_net env"] show ?thesis by (simp add: network_exchange_def)
  next
    case (Inr i)
    with d have "dial_from (sn_net env) network source (transport_options t) (sv_host server) (sv_port server) h = (Inr i, h1)" by simp
    from dial_use_close [OF this, of "[DeadlineCall i x, WriteCall i y z]" for x y z] Inr d show ?thesis
      by (simp add: network_exchange_def Let_def close_conn_def)
  qed
qed

text \<open>A relation that every transaction id and every exchange respects is respected by \<open>GetMapping\<close>.\<close>

lemma mapping_attempts_relation:
  assumes "\<And>w. R w w" "\<And>a b c. R a b \<Longrightarrow> R b c \<Longrightarrow> R a c"
    and "\<And>w. R w (snd (txid w))" "\<And>n s src req w. R w (snd (exch n s src req w))"
  shows "R w (snd (snd (mapping_attempts txid exch n na nd fs c w)))"
proof (induction n arbitrary: na nd fs c w)
  case 0
  with assms(1) show ?case by simp
next
  case (Suc n)
  obtain t w1 where t: "txid w = (t, w1)" by fastforce
  with assms(3) [of w] have r1: "R w w1" by simp
  show ?case
  proof (cases t)
    case (Inl e)
    with t r1 show ?thesis by simp
  next
    case (Inr tid)
    let ?s = "hd (sc_servers c)"
    obtain a w2 where x: "exch (stun_network c) ?s (sc_source c) (build_binding_request tid) w1 = (a, w2)" by fastforce
    with assms(4) [of w1 "stun_network c" ?s "sc_source c" "build_binding_request tid"] assms(2) [OF r1] have r2: "R w w2" by simp
    with assms(2) [OF r2] Suc.IH t x Inr show ?thesis
      by (auto simp: Let_def split: sum.splits prod.splits)
  qed
qed

lemma get_mapping_relation:
  assumes "\<And>w. R w w" "\<And>a b c. R a b \<Longrightarrow> R b c \<Longrightarrow> R a c"
    and "\<And>w. R w (snd (txid w))" "\<And>n s src req w. R w (snd (exch n s src req w))"
  shows "R w (snd (snd (get_mapping txid exch c w)))"
  using mapping_attempts_relation [of R, OF assms] assms(1) by (simp add: get_mapping_def Let_def)

section \<open>The deadline of a keep-alive\<close>

text \<open>
  \<open>SetDeadline\<close> makes a read fail with a timeout once the deadline has passed.  \<open>with_deadline n env\<close>
  is the network \<open>env\<close> under a deadline that passes after at most \<open>n\<close> successful reads in a row.
\<close>

fun read_ok :: "net_call \<Rightarrow> bool" where
  "read_ok (ReadCall i n None) = True"
| "read_ok _ = False"

definition reads_in_a_row :: "net_history \<Rightarrow> nat" where
  "reads_in_a_row h = length (takeWhile read_ok (rev h))"

definition with_deadline :: "nat \<Rightarrow> net_env \<Rightarrow> net_env" where
  "with_deadline n env = env\<lparr>ne_read := \<lambda>h i.
     if n \<le> reads_in_a_row h then (0, Some (ReadFailure True (errorf ''i/o timeout''))) else ne_read env h i\<rparr>"

lemma reads_in_a_row_snoc [simp]:
  "reads_in_a_row (h @ [ReadCall i n None]) = Suc (reads_in_a_row h)"
  "reads_in_a_row (h @ [WriteCall i r e]) = 0"
  by (simp_all add: reads_in_a_row_def)

lemma with_deadline_read_loop:
  "n < reads_in_a_row h + fuel \<Longrightarrow> fuel \<noteq> 0 \<Longrightarrow> tcp_read_loop (with_deadline n env) i fuel received h \<noteq> None"
proof (induction fuel arbitrary: h received)
  case (Suc fuel)
  then show ?case
    by (cases "n \<le> reads_in_a_row h")
      (auto simp: with_deadline_def Let_def simp del: not_None_eq split: prod.splits option.splits)
qed simp

lemma with_deadline_exchange: "tcp_exchange (with_deadline n env) (Suc n) i c h \<noteq> None"
proof -
  have "tcp_read_loop (with_deadline n env) i (Suc n) False (h1 @ [WriteCall i r e]) \<noteq> None" for h1 r e
    by (rule with_deadline_read_loop) simp_all
  from this [of "h @ [DeadlineCall i None]"] show ?thesis
    by (simp add: tcp_exchange_def Let_def tcp_failed_returns del: not_None_eq tcp_read_loop.simps
        split: option.splits prod.splits read_end.splits)
qed

lemma with_deadline_keep_alive: "tcp_keep_alive (with_deadline n env) (Suc n) c h \<noteq> None"
  using with_deadline_exchange
  by (simp add: tcp_keep_alive_def del: not_None_eq split: option.splits sum.splits prod.splits)

end
