(* ===== verification/Forward_Rules.thy ===== *)
theory Forward_Rules
  imports Socket_Options
begin

text \<open>
  The parts of \<open>internal/forward\<close> that every forwarder shares: the start options and the choice of
  the method (\<open>forward.go\<close>, \<open>factory.go\<close>), the text of the nftables rules and the search for rule
  handles in nft's output (\<open>nftables.go\<close>), the version checks (\<open>external.go\<close>,
  \<open>nftables_executor.go\<close>), and the contract that the engine relies on.
\<close>

record start_options =
  st_ip :: string
  st_snat_ip :: string
  st_port :: int
  st_target_ip :: string
  st_target_port :: int
  st_udp :: bool
  st_interface :: string
  st_route_mark :: string
  st_route_table :: string
  st_route_priority :: string

section \<open>factory.go\<close>

record factory_options =
  fo_method :: string
  fo_bind_value :: string
  fo_bind_port :: int
  fo_target_ip :: string
  fo_target_port :: int

definition resolve_method :: "factory_options \<Rightarrow> string" where
  "resolve_method o1 =
     (if fo_method o1 \<noteq> [] \<and> fo_method o1 \<noteq> ''auto'' then fo_method o1
      else
        let target_ip = (if fo_target_ip o1 = [] then ''0.0.0.0'' else fo_target_ip o1) in
        if target_ip = ''0.0.0.0'' \<and> fo_target_port o1 = 0 then
          (if (fo_bind_value o1 = [] \<or> fo_bind_value o1 = ''0.0.0.0'') \<and> fo_bind_port o1 = 0
           then ''test'' else ''none'')
        else ''socket'')"

datatype forwarder_kind = NoForwarder | TestServer | SocketForwarder | NftablesForwarder bool | SocatForwarder | GostForwarder

definition new_forwarder :: "string \<Rightarrow> goerror + forwarder_kind" where
  "new_forwarder method =
     (if method = ''none'' then Inr NoForwarder
      else if method = ''test'' then Inr TestServer
      else if method = ''socket'' then Inr SocketForwarder
      else if method = ''nftables'' then Inr (NftablesForwarder False)
      else if method = ''nftables-snat'' then Inr (NftablesForwarder True)
      else if method = ''socat'' then Inr SocatForwarder
      else if method = ''gost'' then Inr GostForwarder
      else Inl (errorf (''unsupported forward method '' @ go_quote method)))"

definition same_address :: "start_options \<Rightarrow> bool" where
  "same_address o1 \<longleftrightarrow> st_ip o1 = st_target_ip o1 \<and> st_port o1 = st_target_port o1"

definition same_address_error :: "start_options \<Rightarrow> goerror" where
  "same_address_error o1 =
     errorf (''cannot forward to the same address '' @ st_ip o1 @ '':'' @ itoa (st_port o1))"

section \<open>nftables.go\<close>

definition protocol_name :: "bool \<Rightarrow> string" where
  "protocol_name udp = (if udp then ''udp'' else ''tcp'')"

definition dnat_spec :: "start_options \<Rightarrow> string" where
  "dnat_spec o1 =
     ''ip daddr '' @ st_ip o1 @ '' '' @ protocol_name (st_udp o1) @ '' dport '' @ itoa (st_port o1) @
     '' dnat to '' @ st_target_ip o1 @ '':'' @ itoa (st_target_port o1)"

definition snat_spec :: "start_options \<Rightarrow> string" where
  "snat_spec o1 =
     (let snat_ip = (if st_snat_ip o1 = [] then st_ip o1 else st_snat_ip o1) in
      ''ip daddr '' @ st_target_ip o1 @ '' '' @ protocol_name (st_udp o1) @ '' dport '' @
      itoa (st_target_port o1) @ '' snat to '' @ snat_ip)"

definition conn_mark_spec :: "start_options \<Rightarrow> string \<Rightarrow> string" where
  "conn_mark_spec o1 mark =
     ''ip daddr '' @ st_ip o1 @ '' '' @ protocol_name (st_udp o1) @ '' dport '' @ itoa (st_port o1) @
     '' ct mark set '' @ mark"

definition route_mark_spec :: "start_options \<Rightarrow> string \<Rightarrow> string" where
  "route_mark_spec o1 mark =
     ''ip saddr '' @ st_target_ip o1 @ '' '' @ protocol_name (st_udp o1) @ '' sport '' @
     itoa (st_target_port o1) @ '' ct mark '' @ mark @ '' meta mark set '' @ mark"

text \<open>
  What the forwarder asks of nft.  \<open>command_text\<close> is the text handed to the runner; the two
  constant texts that create the table and the mark chain are kept as they stand in the source.
\<close>

datatype nft_command =
    ListTable | CreateTable | ListChain string | AddMarkChain
  | InsertRule string string | DeleteRule string int

definition nft_lines :: "string list \<Rightarrow> string" where
  "nft_lines ls = [CHR 0x0A] @ concat (map (\<lambda>l. l @ [CHR 0x0A]) ls)"

definition initial_rules :: string where
  "initial_rules = nft_lines
     [''table ip qnatter {'',
      ''    chain qnatter_dnat { }'',
      ''    chain qnatter_snat { }'',
      ''    chain qnatter_mark { }'',
      ''    chain prerouting {'',
      ''        type nat hook prerouting priority -105; policy accept;'',
      ''        jump qnatter_dnat;'',
      ''    }'',
      ''    chain mark_prerouting {'',
      ''        type filter hook prerouting priority -149; policy accept;'',
      ''        jump qnatter_mark;'',
      ''    }'',
      ''    chain output {'',
      ''        type nat hook output priority -105; policy accept;'',
      ''        jump qnatter_dnat;'',
      ''    }'',
      ''    chain postrouting {'',
      ''        type nat hook postrouting priority 95; policy accept;'',
      ''        jump qnatter_snat;'',
      ''    }'',
      ''    chain input {'',
      ''        type nat hook input priority 95; policy accept;'',
      ''        jump qnatter_snat;'',
      ''    }'',
      ''}'']"

definition route_mark_initial_rules :: string where
  "route_mark_initial_rules = nft_lines
     [''add chain ip qnatter qnatter_mark'',
      ''add chain ip qnatter mark_prerouting { type filter hook prerouting priority -149; policy accept; }'',
      ''add rule ip qnatter mark_prerouting jump qnatter_mark'']"

fun command_text :: "nft_command \<Rightarrow> string" where
  "command_text ListTable = ''list table ip qnatter''"
| "command_text CreateTable = initial_rules"
| "command_text (ListChain chain) = ''list chain ip qnatter '' @ chain"
| "command_text AddMarkChain = route_mark_initial_rules"
| "command_text (InsertRule chain spec) = ''insert rule ip qnatter '' @ chain @ '' '' @ spec"
| "command_text (DeleteRule chain handle) = ''delete rule ip qnatter '' @ chain @ '' handle '' @ itoa handle"

text \<open>The texts of the four rules that the forwarder inserts.\<close>

definition nftables_dnat_rule :: "start_options \<Rightarrow> string" where
  "nftables_dnat_rule o1 = ''insert rule ip qnatter qnatter_dnat '' @ dnat_spec o1"

definition nftables_snat_rule :: "start_options \<Rightarrow> string" where
  "nftables_snat_rule o1 = ''insert rule ip qnatter qnatter_snat '' @ snat_spec o1"

definition nftables_conn_mark_rule :: "start_options \<Rightarrow> string \<Rightarrow> string" where
  "nftables_conn_mark_rule o1 mark = ''insert rule ip qnatter qnatter_mark '' @ conn_mark_spec o1 mark"

definition nftables_route_mark_rule :: "start_options \<Rightarrow> string \<Rightarrow> string" where
  "nftables_route_mark_rule o1 mark = ''insert rule ip qnatter qnatter_mark '' @ route_mark_spec o1 mark"

lemmas nftables_rule_defs =
  nftables_dnat_rule_def nftables_snat_rule_def nftables_conn_mark_rule_def nftables_route_mark_rule_def

text \<open>They are the command texts of the insertions in the history of the forwarder.\<close>

lemma nftables_rules_inserted:
  "nftables_dnat_rule o1 = command_text (InsertRule ''qnatter_dnat'' (dnat_spec o1))"
  "nftables_snat_rule o1 = command_text (InsertRule ''qnatter_snat'' (snat_spec o1))"
  "nftables_conn_mark_rule o1 mark = command_text (InsertRule ''qnatter_mark'' (conn_mark_spec o1 mark))"
  "nftables_route_mark_rule o1 mark = command_text (InsertRule ''qnatter_mark'' (route_mark_spec o1 mark))"
  by (simp_all add: nftables_rule_defs)

text \<open>The leftmost match of \<open># handle ([0-9]+)\<close>, and the two searches built on it.\<close>

definition handle_mark :: string where
  "handle_mark = ''# handle ''"

fun find_handle :: "string \<Rightarrow> string option" where
  "find_handle [] = None"
| "find_handle (c # cs) =
     (if prefix handle_mark (c # cs) \<and> takeWhile is_dec_digit (drop (length handle_mark) (c # cs)) \<noteq> []
      then Some (takeWhile is_dec_digit (drop (length handle_mark) (c # cs)))
      else find_handle cs)"

definition parse_nftables_handle :: "string \<Rightarrow> goerror + int" where
  "parse_nftables_handle output =
     (case find_handle output of
        None \<Rightarrow> Inl (errorf ''unknown nftables handle'')
      | Some digits \<Rightarrow>
          of_option (errorf (''strconv.Atoi: parsing '' @ go_quote digits @ '': value out of range'')) (atoi digits))"

fun lookup_lines :: "string \<Rightarrow> string list \<Rightarrow> int option" where
  "lookup_lines spec [] = None"
| "lookup_lines spec (line # rest) =
     (if \<not> contains_str line spec then lookup_lines spec rest
      else case find_handle line of
             None \<Rightarrow> lookup_lines spec rest
           | Some digits \<Rightarrow>
               (case atoi digits of None \<Rightarrow> lookup_lines spec rest | Some handle \<Rightarrow> Some handle))"

definition lookup_rule_handle :: "string \<Rightarrow> string \<Rightarrow> goerror + int" where
  "lookup_rule_handle output spec =
     (if spec = [] then Inl (errorf ''unknown nftables rule spec'')
      else of_option (errorf (''nftables rule handle not found for '' @ go_quote spec))
             (lookup_lines spec (split_on (CHR 0x0A) output)))"

section \<open>Versions\<close>

fun compare_version :: "int list \<Rightarrow> int list \<Rightarrow> int" where
  "compare_version [] [] = 0"
| "compare_version [] (m # ms) = (if 0 < m then -1 else if m < 0 then 1 else compare_version [] ms)"
| "compare_version (v # vs) [] = (if v < 0 then -1 else if 0 < v then 1 else compare_version vs [])"
| "compare_version (v # vs) (m # ms) = (if v < m then -1 else if m < v then 1 else compare_version vs ms)"

fun dotted :: "nat \<Rightarrow> string \<Rightarrow> string list option" where
  "dotted 0 s = Some []"
| "dotted (Suc k) s =
     (let d = takeWhile is_dec_digit s; r = dropWhile is_dec_digit s in
      if d = [] then None
      else if k = 0 then Some [d]
      else case r of
             [] \<Rightarrow> None
           | c # r' \<Rightarrow> if c = CHR ''.'' then map_option ((#) d) (dotted k r') else None)"

definition number_after :: "string \<Rightarrow> nat \<Rightarrow> string \<Rightarrow> string list option" where
  "number_after p k s = (if prefix p s then dotted k (drop (length p) s) else None)"

definition match_nft_version :: "string \<Rightarrow> string list option" where
  "match_nft_version = number_after ''nftables v'' 3"

definition match_socat_version :: "string \<Rightarrow> string list option" where
  "match_socat_version = number_after ''socat version '' 3"

definition match_gost_version :: "string \<Rightarrow> string list option" where
  "match_gost_version s =
     (case number_after ''gost v'' 2 s of Some m \<Rightarrow> Some m | None \<Rightarrow> number_after ''gost '' 2 s)"

fun find_version :: "(string \<Rightarrow> string list option) \<Rightarrow> string \<Rightarrow> string list option" where
  "find_version match [] = match []"
| "find_version match (c # cs) = (case match (c # cs) of Some m \<Rightarrow> Some m | None \<Rightarrow> find_version match cs)"

primrec all_some :: "'a option list \<Rightarrow> 'a list option" where
  "all_some [] = Some []"
| "all_some (x # xs) = (case x of None \<Rightarrow> None | Some a \<Rightarrow> map_option ((#) a) (all_some xs))"

text \<open>The body of both version checks: the command's output, its match, the numbers, the comparison.\<close>

definition version_at_least :: "(string \<Rightarrow> string list option) \<Rightarrow> int list \<Rightarrow> goerror + string \<Rightarrow> bool" where
  "version_at_least match minimum output =
     (case output of
        Inl _ \<Rightarrow> False
      | Inr text1 \<Rightarrow>
          (case find_version match text1 of
             None \<Rightarrow> False
           | Some parts \<Rightarrow>
               (case all_some (map atoi parts) of
                  None \<Rightarrow> False
                | Some version \<Rightarrow> 0 \<le> compare_version version minimum)))"

definition version_string :: "int list \<Rightarrow> string" where
  "version_string parts =
     (case parts of
        [] \<Rightarrow> ''()''
      | p # ps \<Rightarrow> ''('' @ itoa p @ concat (map (\<lambda>n. '', '' @ itoa n) ps) @ '')'')"

definition version_check ::
  "string \<Rightarrow> (string \<Rightarrow> string list option) \<Rightarrow> int list \<Rightarrow> goerror + string \<Rightarrow> goerror option" where
  "version_check command match minimum output =
     (if version_at_least match minimum output then None
      else Some (errorf (command @ '' >= '' @ version_string minimum @ '' not available'')))"

definition nft_version_check :: "goerror + string \<Rightarrow> goerror option" where
  "nft_version_check output =
     (if version_at_least match_nft_version [0, 9, 6] output then None
      else Some (errorf ''nftables >= (0, 9, 6) not available''))"

definition external_version_check :: "string \<Rightarrow> goerror + string \<Rightarrow> goerror option" where
  "external_version_check command output =
     (if command = ''socat'' then version_check command match_socat_version [1, 7, 2] output
      else if command = ''gost'' then version_check command match_gost_version [2, 3] output
      else None)"

lemmas forward_rules_defs [go_defs] =
  resolve_method_def new_forwarder_def same_address_def same_address_error_def protocol_name_def
  dnat_spec_def snat_spec_def conn_mark_spec_def route_mark_spec_def handle_mark_def
  parse_nftables_handle_def lookup_rule_handle_def number_after_def match_nft_version_def
  match_socat_version_def match_gost_version_def version_at_least_def version_string_def
  version_check_def nft_version_check_def external_version_check_def nftables_rule_defs

section \<open>The contract of a forwarder\<close>

text \<open>
  \<open>start\<close> and \<open>stop\<close> work on the forwarder's own state and on the history of the calls it has
  made outside the program.  \<open>owed h\<close> are the resources that the history has acquired and not yet
  given back, \<open>held s\<close> those that the state remembers.  The laws: a start adds nothing to what is
  owed beyond what the state remembers, a failed start remembers nothing, and a stop asks for
  everything it remembers to be released and forgets it.
\<close>

locale forwarder_contract =
  fixes held :: "'s \<Rightarrow> 'r set"
    and owed :: "'h \<Rightarrow> 'r set"
    and start :: "start_options \<Rightarrow> 's \<Rightarrow> 'h \<Rightarrow> goerror option \<times> 's \<times> 'h"
    and stop :: "'s \<Rightarrow> 'h \<Rightarrow> goerror option \<times> 's \<times> 'h"
  assumes start_owed:
      "held s = {} \<Longrightarrow> start opts s h = (r, s', h') \<Longrightarrow> owed h' \<subseteq> owed h \<union> held s'"
    and start_failed: "held s = {} \<Longrightarrow> start opts s h = (Some e, s', h') \<Longrightarrow> held s' = {}"
    and stop_owed: "stop s h = (r, s', h') \<Longrightarrow> owed h' \<subseteq> owed h - held s"
    and stop_held: "stop s h = (r, s', h') \<Longrightarrow> held s' = {}"
begin

lemma failed_start_owes_nothing:
  "held s = {} \<Longrightarrow> start opts s h = (Some e, s', h') \<Longrightarrow> owed h' \<subseteq> owed h \<and> held s' = {}"
  using start_owed start_failed by fastforce

lemma start_stop_owes_nothing:
  assumes "held s = {}" "start opts s h = (r, s1, h1)" "stop s1 h1 = (r', s2, h2)"
  shows "owed h2 \<subseteq> owed h \<and> held s2 = {}"
  using start_owed [OF assms(1,2)] stop_owed [OF assms(3)] stop_held [OF assms(3)] by blast

text \<open>A retry after a failure, or after a stop, starts from the same footing.\<close>

lemma restart_owes_nothing:
  assumes "held s = {}" "start opts s h = (r, s1, h1)" "stop s1 h1 = (r', s2, h2)"
    and "start opts' s2 h2 = (Some e, s3, h3)"
  shows "owed h3 \<subseteq> owed h"
  using start_stop_owes_nothing [OF assms(1-3)] failed_start_owes_nothing [OF _ assms(4)] by blast

end

end
