(* ===== verification/Port_Check.thy ===== *)
theory Port_Check
  imports Socket_Options
begin

text \<open>
  \<open>internal/portcheck\<close>: what the program can say of a TCP port.  The three results are ordered
  closed, unknown, open, as the integers \<open>-1\<close>, \<open>0\<close>, \<open>1\<close> of the source.  Dialling, the two web
  services and the JSON decoder are arguments.
\<close>

datatype port_result = PortClosed | PortUnknown | PortOpen

fun result_value :: "port_result \<Rightarrow> int" where
  "result_value PortClosed = -1"
| "result_value PortUnknown = 0"
| "result_value PortOpen = 1"

lemma result_value_inject: "result_value r = result_value r' \<longleftrightarrow> r = r'"
  by (cases r; cases r') simp_all

instantiation port_result :: linorder
begin

definition less_eq_port_result :: "port_result \<Rightarrow> port_result \<Rightarrow> bool" where
  "r \<le> r' \<longleftrightarrow> result_value r \<le> result_value r'"

definition less_port_result :: "port_result \<Rightarrow> port_result \<Rightarrow> bool" where
  "r < r' \<longleftrightarrow> result_value r < result_value r'"

instance
  by standard (auto simp: less_eq_port_result_def less_port_result_def result_value_inject intro: antisym)

end

definition classify_dial_result :: "goerror \<Rightarrow> port_result" where
  "classify_dial_result e = (if errors_is e ECONNREFUSED then PortClosed else PortUnknown)"

text \<open>
  \<open>TestLAN\<close>.  The dialer gets the bind-to-device option and the source address; a connection that
  is made is closed again.
\<close>

definition test_lan ::
  "(sock_options \<Rightarrow> addr option \<Rightarrow> string \<Rightarrow> 'w \<Rightarrow> goerror option \<times> 'w) \<Rightarrow> ('w \<Rightarrow> 'w) \<Rightarrow>
   string \<Rightarrow> addr_port \<Rightarrow> addr \<Rightarrow> 'w \<Rightarrow> port_result \<times> 'w" where
  "test_lan dial close_conn iface target source w =
     (case dial \<lparr>so_interface = iface, so_reuse = False, so_disable_reuse_port = False\<rparr>
             (if addr_valid source then Some source else None) (addr_port_text target) w of
        (Some e, w') \<Rightarrow> (classify_dial_result e, w')
      | (None, w') \<Rightarrow> (PortOpen, close_conn w'))"

type_synonym 'w probe = "int \<Rightarrow> addr \<Rightarrow> 'w \<Rightarrow> (port_result \<times> goerror option) \<times> 'w"

definition test_wan :: "'w probe \<Rightarrow> 'w probe \<Rightarrow> int \<Rightarrow> addr \<Rightarrow> 'w \<Rightarrow> port_result \<times> 'w" where
  "test_wan ifconfig transmission port source w =
     (case ifconfig port source w of
        ((ret1, err1), w1) \<Rightarrow>
          if err1 = None \<and> ret1 = PortOpen then (PortOpen, w1)
          else (case transmission port source w1 of
                  ((ret2, err2), w2) \<Rightarrow>
                    if err2 = None \<and> ret2 = PortOpen then (PortOpen, w2)
                    else if err1 = None \<and> err2 = None \<and> ret1 = PortClosed \<and> ret2 = PortClosed then (PortClosed, w2)
                    else (PortUnknown, w2)))"

text \<open>The two web services: a GET whose body is parsed; a failed GET is unknown with its error.\<close>

type_synonym 'w http_get = "string \<Rightarrow> string \<Rightarrow> addr \<Rightarrow> 'w \<Rightarrow> (goerror + string) \<times> 'w"

definition parse_ifconfig_response :: "(string \<Rightarrow> goerror + bool) \<Rightarrow> string \<Rightarrow> port_result \<times> goerror option" where
  "parse_ifconfig_response unmarshal_reachable body =
     (case unmarshal_reachable body of
        Inl e \<Rightarrow> (PortUnknown, Some e)
      | Inr reachable \<Rightarrow> (if reachable then PortOpen else PortClosed, None))"

definition parse_transmission_response :: "string \<Rightarrow> port_result \<times> goerror option" where
  "parse_transmission_response body =
     (if trim_space body = ''1'' then (PortOpen, None)
      else if trim_space body = ''0'' then (PortClosed, None)
      else (PortUnknown, Some (errorf ''unexpected transmission portcheck response'')))"

definition test_ifconfig :: "'w http_get \<Rightarrow> (string \<Rightarrow> goerror + bool) \<Rightarrow> 'w probe" where
  "test_ifconfig get unmarshal_reachable port source w =
     (case get ''ifconfig.co'' (''/port/'' @ itoa port) source w of
        (Inl e, w') \<Rightarrow> ((PortUnknown, Some e), w')
      | (Inr body, w') \<Rightarrow> (parse_ifconfig_response unmarshal_reachable body, w'))"

definition test_transmission :: "'w http_get \<Rightarrow> 'w probe" where
  "test_transmission get port source w =
     (case get ''portcheck.transmissionbt.com'' (''/'' @ itoa port) source w of
        (Inl e, w') \<Rightarrow> ((PortUnknown, Some e), w')
      | (Inr body, w') \<Rightarrow> (parse_transmission_response body, w'))"

text \<open>
  \<open>Checker\<close>.  A zero time limit is the default of the operation, a missing probe is the one of the
  checker itself, whose requests go out by its interface.
\<close>

record 'w port_checker =
  pc_timeout :: int
  pc_interface :: string
  pc_ifconfig_probe :: "'w probe option"
  pc_transmission_probe :: "'w probe option"

definition checker_timeout :: "'w port_checker \<Rightarrow> int \<Rightarrow> int" where
  "checker_timeout c fallback = (if 0 < pc_timeout c then pc_timeout c else fallback)"

definition http_get_timeout :: "'w port_checker \<Rightarrow> int" where
  "http_get_timeout c = checker_timeout c (8 * 1000000000)"

definition checker_test_wan ::
  "(int \<Rightarrow> string \<Rightarrow> 'w http_get) \<Rightarrow> (string \<Rightarrow> goerror + bool) \<Rightarrow> 'w port_checker \<Rightarrow>
   int \<Rightarrow> addr \<Rightarrow> 'w \<Rightarrow> port_result \<times> 'w" where
  "checker_test_wan http_get unmarshal_reachable c port source w =
     (let get = http_get (http_get_timeout c) (pc_interface c);
          ifconfig = (case pc_ifconfig_probe c of Some p \<Rightarrow> p | None \<Rightarrow> test_ifconfig get unmarshal_reachable);
          transmission = (case pc_transmission_probe c of Some p \<Rightarrow> p | None \<Rightarrow> test_transmission get)
      in test_wan ifconfig transmission port source w)"

definition interface_checker :: "string \<Rightarrow> 'w port_checker" where
  "interface_checker iface =
     \<lparr>pc_timeout = 0, pc_interface = iface, pc_ifconfig_probe = None, pc_transmission_probe = None\<rparr>"

lemma interface_checker_wan:
  "checker_test_wan http_get json (interface_checker iface) =
     test_wan (test_ifconfig (http_get (8 * 1000000000) iface) json) (test_transmission (http_get (8 * 1000000000) iface))"
  by (intro ext) (simp add: checker_test_wan_def interface_checker_def http_get_timeout_def checker_timeout_def Let_def)

text \<open>What a probe says for sure: an error says nothing.\<close>

definition verdict :: "port_result \<times> goerror option \<Rightarrow> port_result" where
  "verdict r = (if snd r = None then fst r else PortUnknown)"

text \<open>
  C27: the WAN check is the maximum of what its two probes say for sure, in the order closed,
  unknown, open: open as soon as one service reached the port, closed only when both services
  say so without an error, unknown otherwise.  The second service is asked only if the first
  did not find the port open.
\<close>

theorem test_wan_max:
  "test_wan ifconfig transmission port source w =
     (case ifconfig port source w of
        (r1, w1) \<Rightarrow>
          if verdict r1 = PortOpen then (PortOpen, w1)
          else (case transmission port source w1 of (r2, w2) \<Rightarrow> (max (verdict r1) (verdict r2), w2)))"
proof -
  obtain ret1 err1 w1 where 1: "ifconfig port source w = ((ret1, err1), w1)" by (metis prod.collapse)
  obtain ret2 err2 w2 where 2: "transmission port source w1 = ((ret2, err2), w2)" by (metis prod.collapse)
  show ?thesis
    by (cases ret1; cases ret2; cases err1; cases err2)
      (simp_all add: test_wan_def verdict_def 1 2 max_def less_eq_port_result_def)
qed

end
