(* ===== verification/Go_Path.thy ===== *)
theory Go_Path
  imports Go_Base
begin

text \<open>
  The functions of Go's \<open>path/filepath\<close> that the status file is named with: \<open>Clean\<close>, \<open>Join\<close>, \<open>Dir\<close> and
  \<open>Base\<close> on slash-separated paths, and the fact that a plain name joined to a directory stays in it.
\<close>

text \<open>The elements of a cleaned path: \<open>st\<close> holds those kept so far, the last first.\<close>

fun clean_elems :: "bool \<Rightarrow> string list \<Rightarrow> string list \<Rightarrow> string list" where
  "clean_elems rooted st [] = rev st"
| "clean_elems rooted st (e # es) =
     (if e = [] \<or> e = ''.'' then clean_elems rooted st es
      else if e = ''..'' then
        (case st of
           [] \<Rightarrow> clean_elems rooted (if rooted then [] else [e]) es
         | t # ts \<Rightarrow> clean_elems rooted (if t = ''..'' then e # st else ts) es)
      else clean_elems rooted (e # st) es)"

definition path_clean :: "string \<Rightarrow> string" where
  "path_clean path =
     (let rooted = prefix ''/'' path; es = clean_elems rooted [] (split_on (CHR ''/'') path) in
      if rooted then CHR ''/'' # join ''/'' es
      else if es = [] then ''.'' else join ''/'' es)"

text \<open>\<open>filepath.Join\<close> skips the empty elements at the front.\<close>

definition path_join :: "string list \<Rightarrow> string" where
  "path_join elems =
     (case dropWhile (\<lambda>e. e = []) elems of [] \<Rightarrow> [] | es \<Rightarrow> path_clean (join ''/'' es))"

definition path_dir :: "string \<Rightarrow> string" where
  "path_dir path = path_clean (rev (dropWhile (\<lambda>c. c \<noteq> CHR ''/'') (rev path)))"

definition path_base :: "string \<Rightarrow> string" where
  "path_base path =
     (if path = [] then ''.''
      else
        let trimmed = rev (dropWhile (\<lambda>c. c = CHR ''/'') (rev path));
            base = rev (takeWhile (\<lambda>c. c \<noteq> CHR ''/'') (rev trimmed))
        in if base = [] then ''/'' else base)"

lemmas path_defs [go_defs] = path_clean_def path_join_def path_dir_def path_base_def

lemma path_examples:
  "path_clean ''/a/./b//../c/'' = ''/a/c''" "path_clean ''../../x/..'' = ''../..''" "path_clean ''/../x'' = ''/x''"
  "path_clean [] = ''.''" "path_clean ''//'' = ''/''" "path_clean ''a/..'' = ''.''"
  "path_join [[], ''a'', '''', ''../b''] = ''b''" "path_dir ''/a/b.json'' = ''/a''" "path_dir ''x'' = ''.''" "path_dir ''/x'' = ''/''"
  "path_base ''/a/b/'' = ''b''" "path_base ''//'' = ''/''"
  by code_simp+

text \<open>An element that cleaning leaves alone.\<close>

definition plain_elem :: "string \<Rightarrow> bool" where
  "plain_elem e \<longleftrightarrow> e \<noteq> [] \<and> e \<noteq> ''.'' \<and> e \<noteq> ''..'' \<and> CHR ''/'' \<notin> set e"

text \<open>A cleaned stack: plain elements above a run of \<open>..\<close>, which a rooted path does not have.\<close>

fun clean_stack :: "bool \<Rightarrow> string list \<Rightarrow> bool" where
  "clean_stack rooted [] \<longleftrightarrow> True"
| "clean_stack rooted (e # st) \<longleftrightarrow>
     (plain_elem e \<or> \<not> rooted \<and> e = ''..'' \<and> set st \<subseteq> {''..''}) \<and> clean_stack rooted st"

lemma clean_stack_elems:
  assumes "clean_stack rooted st" "\<forall>e \<in> set es. CHR ''/'' \<notin> set e"
  shows "clean_stack rooted (rev (clean_elems rooted st es))"
  using assms
proof (induction es arbitrary: st)
  case (Cons e es)
  then show ?case by (cases st) (auto simp: plain_elem_def)
qed simp

lemma clean_stack_suffix: "clean_stack rooted (xs @ ys) \<Longrightarrow> clean_stack rooted ys"
  by (induction xs) auto

lemma clean_elems_clean: "clean_stack rooted (rev es @ st) \<Longrightarrow> clean_elems rooted st es = rev st @ es"
proof (induction es arbitrary: st)
  case (Cons e es)
  then have c: "clean_stack rooted (rev es @ e # st)" by simp
  then have "clean_stack rooted (e # st)" by (rule clean_stack_suffix)
  then have "clean_elems rooted st (e # es) = clean_elems rooted (e # st) es"
    by (cases st) (auto simp: plain_elem_def)
  with Cons.IH [OF c] show ?case by simp
qed simp

lemma clean_elems_append: "clean_elems rooted st (xs @ ys) = clean_elems rooted (rev (clean_elems rooted st xs)) ys"
  by (induction rooted st xs rule: clean_elems.induct) (auto split: list.splits)

lemma clean_stack_elem: "clean_stack rooted st \<Longrightarrow> e \<in> set st \<Longrightarrow> e \<noteq> [] \<and> CHR ''/'' \<notin> set e"
  by (induction st) (auto simp: plain_elem_def)

lemma join_snoc: "join sep (es @ [n]) = (if es = [] then n else join sep es @ sep @ n)"
  by (induction sep es rule: join.induct) auto

lemma join_head: "es \<noteq> [] \<Longrightarrow> hd es \<noteq> [] \<Longrightarrow> CHR ''/'' \<notin> set (hd es) \<Longrightarrow> \<not> prefix ''/'' (join ''/'' es @ t)"
  by (cases es; cases "tl es"; cases "hd es") auto

text \<open>A clean list of elements is the clean form of its own text, with or without a slash at the end.\<close>

lemma path_clean_dir:
  assumes "clean_stack rooted (rev es)"
  shows "path_clean (if rooted then CHR ''/'' # (if es = [] then [] else join ''/'' es @ ''/'')
      else if es = [] then [] else join ''/'' es @ ''/'') =
    (if rooted then CHR ''/'' # join ''/'' es else if es = [] then ''.'' else join ''/'' es)"
proof (cases "es = []")
  case True
  then show ?thesis by (simp add: path_clean_def)
next
  case False
  have el: "e \<noteq> [] \<and> CHR ''/'' \<notin> set e" if "e \<in> set es" for e
    using clean_stack_elem [OF assms, of e] that by simp
  have sp: "split_on (CHR ''/'') (join ''/'' es @ ''/'') = es @ [[]]"
    using split_on_append_gen [of "CHR ''/''" "join ''/'' es" "[]"] split_on_join [OF False] el by auto
  have cl: "clean_elems rooted [] (es @ [[]]) = es"
    using clean_elems_clean [of rooted es "[]"] assms by (simp add: clean_elems_append)
  show ?thesis
  proof (cases rooted)
    case True
    with False sp cl show ?thesis by (simp add: path_clean_def)
  next
    case nr: False
    from el [of "hd es"] False join_head [of es "''/''"] have "\<not> prefix ''/'' (join ''/'' es @ ''/'')" by simp
    with False nr sp cl show ?thesis by (simp add: path_clean_def)
  qed
qed

lemma path_split:
  assumes "CHR ''/'' \<notin> set n" "a = [] \<or> last a = CHR ''/''"
  shows "path_dir (a @ n) = path_clean a" "n \<noteq> [] \<Longrightarrow> path_base (a @ n) = n"
proof -
  from assms(1) have n: "\<forall>c \<in> set (rev n). c \<noteq> CHR ''/''" by auto
  have a: "dropWhile (\<lambda>c. c \<noteq> CHR ''/'') (rev a) = rev a" "takeWhile (\<lambda>c. c \<noteq> CHR ''/'') (rev a) = []"
    using assms(2) by (cases a rule: rev_cases; simp)+
  from n a show "path_dir (a @ n) = path_clean a"
    by (simp add: path_dir_def dropWhile_append3 dropWhile_append)
  assume ne: "n \<noteq> []"
  then obtain m c where m: "n = m @ [c]" by (cases n rule: rev_cases) auto
  with n have "rev (dropWhile (\<lambda>c. c = CHR ''/'') (rev (a @ n))) = a @ n" by simp
  with ne n a show "path_base (a @ n) = n"
    by (simp add: path_base_def takeWhile_append)
qed

text \<open>
  A plain name joined to a directory stays in that directory: the joined path lies in the cleaned
  directory and its last element is the name.
\<close>

lemma path_join_plain:
  assumes "d \<noteq> []" "plain_elem n"
  shows "path_dir (path_join [d, n]) = path_clean d" "path_base (path_join [d, n]) = n"
proof -
  let ?r = "prefix ''/'' d"
  define es where "es = clean_elems ?r [] (split_on (CHR ''/'') d)"
  define a where "a = (if ?r then CHR ''/'' # (if es = [] then [] else join ''/'' es @ ''/'')
      else if es = [] then [] else join ''/'' es @ ''/'')"
  have cs: "clean_stack ?r (rev es)"
    unfolding es_def by (rule clean_stack_elems) (auto dest: split_on_parts)
  have n: "n \<noteq> []" "CHR ''/'' \<notin> set n" using assms(2) by (auto simp: plain_elem_def)
  have "split_on (CHR ''/'') (d @ CHR ''/'' # n) = split_on (CHR ''/'') d @ [n]"
    using n by (simp add: split_on_append_gen split_on_no_sep)
  moreover have "clean_elems ?r [] (split_on (CHR ''/'') d @ [n]) = es @ [n]"
    using assms(2) by (simp add: clean_elems_append es_def plain_elem_def)
  moreover have "prefix ''/'' (d @ CHR ''/'' # n) = ?r" using assms(1) by (cases d) auto
  ultimately have j: "path_join [d, n] = a @ n"
    using assms(1) n by (simp add: path_join_def path_clean_def a_def join_snoc)
  have "a = [] \<or> last a = CHR ''/''" by (simp add: a_def)
  from path_split [OF n(2) this] n(1)
  have s: "path_dir (path_join [d, n]) = path_clean a" "path_base (path_join [d, n]) = n" by (simp_all add: j)
  show "path_base (path_join [d, n]) = n" by (rule s(2))
  show "path_dir (path_join [d, n]) = path_clean d"
    unfolding s(1) a_def path_clean_dir [OF cs] by (simp add: path_clean_def es_def Let_def)
qed

end
