(* ===== verification/Status_File.thy ===== *)
theory Status_File
  imports Net_Addr Go_Path
begin

text \<open>
  \<open>internal/status\<close> and \<open>internal/notify\<close>: the name of an instance's status file, the atomic
  replacement of the file, and the notification that writes it and runs the user's script.
\<close>

section \<open>Runes\<close>

text \<open>
  \<open>[]rune(s)\<close>: the code points of a string of bytes; a byte that does not start a well-formed
  UTF-8 sequence is the replacement character, and the decoder moves on by one byte.
\<close>

definition cont_byte :: "nat \<Rightarrow> bool" where
  "cont_byte n \<longleftrightarrow> 128 \<le> n \<and> n < 192"

fun runes_of :: "nat list \<Rightarrow> nat list" where
  "runes_of [] = []"
| "runes_of (a # bs) =
     (if a < 128 then a # runes_of bs
      else case bs of
        b # cs \<Rightarrow>
          if 194 \<le> a \<and> a < 224 \<and> cont_byte b then ((a - 192) * 64 + (b - 128)) # runes_of cs
          else (case cs of
            c # ds \<Rightarrow>
              if 224 \<le> a \<and> a < 240 \<and> cont_byte b \<and> cont_byte c \<and> (a = 224 \<longrightarrow> 160 \<le> b) \<and> (a = 237 \<longrightarrow> b < 160)
              then ((a - 224) * 4096 + (b - 128) * 64 + (c - 128)) # runes_of ds
              else (case ds of
                d # es \<Rightarrow>
                  if 240 \<le> a \<and> a < 245 \<and> cont_byte b \<and> cont_byte c \<and> cont_byte d \<and> (a = 240 \<longrightarrow> 144 \<le> b) \<and> (a = 244 \<longrightarrow> b < 144)
                  then ((a - 240) * 262144 + (b - 128) * 4096 + (c - 128) * 64 + (d - 128)) # runes_of es
                  else 0xFFFD # runes_of bs
              | [] \<Rightarrow> 0xFFFD # runes_of bs)
          | [] \<Rightarrow> 0xFFFD # runes_of bs)
      | [] \<Rightarrow> [0xFFFD])"

definition runes :: "string \<Rightarrow> nat list" where
  "runes s = runes_of (map of_char s)"

section \<open>RuntimeSlug\<close>

definition is_hex_rune :: "nat \<Rightarrow> bool" where
  "is_hex_rune c \<longleftrightarrow> 48 \<le> c \<and> c \<le> 57 \<or> 97 \<le> c \<and> c \<le> 102 \<or> 65 \<le> c \<and> c \<le> 70"

definition has_hex_escape_prefix :: "nat list \<Rightarrow> bool" where
  "has_hex_escape_prefix rs \<longleftrightarrow>
     3 \<le> length rs \<and> rs ! 0 = 120 \<and> is_hex_rune (rs ! 1) \<and> is_hex_rune (rs ! 2) \<or>
     5 \<le> length rs \<and> rs ! 0 = 117 \<and> list_all is_hex_rune (take 4 (drop 1 rs))"

definition slug_plain :: "nat \<Rightarrow> bool" where
  "slug_plain c \<longleftrightarrow> 65 \<le> c \<and> c \<le> 90 \<or> 97 \<le> c \<and> c \<le> 122 \<or> 48 \<le> c \<and> c \<le> 57 \<or> c = 95"

fun slug_runes :: "nat list \<Rightarrow> string" where
  "slug_runes [] = []"
| "slug_runes (c # cs) =
     (if c = 95 \<and> has_hex_escape_prefix cs then ''_x5f''
      else if slug_plain c then [char_of c]
      else if c < 128 then ''_x'' @ pad_zero 2 (format_uint 16 c)
      else ''_u'' @ pad_zero 4 (format_uint 16 c)) @ slug_runes cs"

definition runtime_slug :: "string \<Rightarrow> string" where
  "runtime_slug name =
     (let out = slug_runes (runes (if name = [] then ''default'' else name)) in
      if out = [] then ''default'' else out)"

section \<open>writeFileAtomic\<close>

text \<open>
  The directory is a map from paths to contents.  The answers of the calls are arguments: the path
  \<open>CreateTemp\<close> picks for a directory and a pattern, how much a failing \<open>Write\<close> has written, and the
  errors.  The result holds
  the directory after every call, oldest first: what another process, or a crash, can see.
\<close>

type_synonym files = "string \<Rightarrow> string option"

record write_answers =
  wa_create :: "string \<Rightarrow> string \<Rightarrow> goerror + string"
  wa_write :: "(goerror \<times> nat) option"
  wa_chmod :: "goerror option"
  wa_close :: "goerror option"
  wa_rename :: "goerror option"
  wa_remove :: "goerror option"

definition remove_temp :: "write_answers \<Rightarrow> string \<Rightarrow> files list \<Rightarrow> files list" where
  "remove_temp a tmp fss =
     fss @ [if wa_remove a = None then (last fss)(tmp := None) else last fss]"

definition temp_pattern :: "string \<Rightarrow> string" where
  "temp_pattern path = ''.'' @ path_base path @ ''.tmp-*''"

definition write_file_atomic :: "write_answers \<Rightarrow> string \<Rightarrow> string \<Rightarrow> files \<Rightarrow> goerror option \<times> files list" where
  "write_file_atomic a path content fs =
     (case wa_create a (path_dir path) (temp_pattern path) of
        Inl e \<Rightarrow> (Some e, [fs])
      | Inr tmp \<Rightarrow>
          let fs1 = fs(tmp \<mapsto> []);
              fs2 = fs(tmp \<mapsto> (case wa_write a of None \<Rightarrow> content | Some (e, n) \<Rightarrow> take n content))
          in (case wa_write a of
               Some (e, n) \<Rightarrow> (Some e, remove_temp a tmp [fs, fs1, fs2])
             | None \<Rightarrow>
                 (case wa_chmod a of
                    Some e \<Rightarrow> (Some e, remove_temp a tmp [fs, fs1, fs2])
                  | None \<Rightarrow>
                      (case wa_close a of
                         Some e \<Rightarrow> (Some e, remove_temp a tmp [fs, fs1, fs2])
                       | None \<Rightarrow>
                           (case wa_rename a of
                              Some e \<Rightarrow> (Some e, remove_temp a tmp [fs, fs1, fs2])
                            | None \<Rightarrow> (None, [fs, fs1, fs2, fs2(tmp := None, path \<mapsto> content)]))))))"

section \<open>WriteMapping\<close>

record status_mapping =
  stm_instance :: string
  stm_protocol :: string
  stm_inner :: addr_port
  stm_outer :: addr_port
  stm_message :: string

record mapping_json =
  mj_instance :: string
  mj_protocol :: string
  mj_inner_ip :: string
  mj_inner_port :: "16 word"
  mj_outer_ip :: string
  mj_outer_port :: "16 word"
  mj_updated_at :: string
  mj_message :: string

definition default_string :: "string \<Rightarrow> string \<Rightarrow> string" where
  "default_string value fallback = (if value \<noteq> [] then value else fallback)"

definition mapping_payload :: "string \<Rightarrow> status_mapping \<Rightarrow> mapping_json" where
  "mapping_payload now m =
     \<lparr>mj_instance = default_string (stm_instance m) ''default'', mj_protocol = stm_protocol m,
      mj_inner_ip = addr_text (ap_addr (stm_inner m)), mj_inner_port = ap_port (stm_inner m),
      mj_outer_ip = addr_text (ap_addr (stm_outer m)), mj_outer_port = ap_port (stm_outer m),
      mj_updated_at = now, mj_message = default_string (stm_message m) ''mapped''\<rparr>"

text \<open>The JSON encoder and \<open>MkdirAll\<close> are arguments.\<close>

definition write_mapping ::
  "(mapping_json \<Rightarrow> goerror + string) \<Rightarrow> (string \<Rightarrow> goerror option) \<Rightarrow> write_answers \<Rightarrow> string \<Rightarrow>
   string \<Rightarrow> status_mapping \<Rightarrow> files \<Rightarrow> goerror option \<times> files list" where
  "write_mapping encode mkdir a now path m fs =
     (case encode (mapping_payload now m) of
        Inl e \<Rightarrow> (Some e, [fs])
      | Inr content \<Rightarrow>
          (case mkdir (path_dir path) of
             Some e \<Rightarrow> (Some e, [fs])
           | None \<Rightarrow> write_file_atomic a path content fs))"

section \<open>notify.Run\<close>

record notify_options =
  no_instance :: string
  no_status_file :: string
  no_run_dir :: string
  no_user_script :: string
  no_timeout :: int

definition status_path :: "notify_options \<Rightarrow> status_mapping \<Rightarrow> string" where
  "status_path opts m =
     (if no_status_file opts \<noteq> [] then no_status_file opts
      else path_join [default_string (no_run_dir opts) ''/var/run/qnatter'', runtime_slug (stm_instance m) @ ''.json''])"

definition notify_args :: "status_mapping \<Rightarrow> string list" where
  "notify_args m =
     [stm_protocol m, addr_text (ap_addr (stm_inner m)), itoa (uint (ap_port (stm_inner m))),
      addr_text (ap_addr (stm_outer m)), itoa (uint (ap_port (stm_outer m)))]"

text \<open>The limit on the run of the user's script, in nanoseconds.\<close>

definition script_timeout :: "notify_options \<Rightarrow> int" where
  "script_timeout opts = (if no_timeout opts \<le> 0 then 30 * 1000000000 else no_timeout opts)"

lemma script_timeout_pos: "0 < script_timeout opts"
  by (simp add: script_timeout_def)

text \<open>
  \<open>write\<close> is \<open>WriteMapping\<close> on the world, \<open>executable\<close> what \<open>os.Stat\<close> says of the script, \<open>execute\<close> the
  run of the script under its timeout.  The result is the text of a failed script, if any, and
  the error.
\<close>

definition notify_run ::
  "(string \<Rightarrow> status_mapping \<Rightarrow> 'w \<Rightarrow> goerror option \<times> 'w) \<Rightarrow> (string \<Rightarrow> 'w \<Rightarrow> bool) \<Rightarrow>
   (int \<Rightarrow> string \<Rightarrow> string list \<Rightarrow> 'w \<Rightarrow> goerror option \<times> 'w) \<Rightarrow> notify_options \<Rightarrow> status_mapping \<Rightarrow> 'w \<Rightarrow>
   (string \<times> goerror option) \<times> 'w" where
  "notify_run write executable execute opts m0 w =
     (let m = m0\<lparr>stm_instance := default_string (stm_instance m0) (default_string (no_instance opts) ''default''),
                 stm_message := default_string (stm_message m0) ''mapped''\<rparr>
      in case write (status_path opts m) m w of
           (Some e, w1) \<Rightarrow> (([], Some e), w1)
         | (None, w1) \<Rightarrow>
             if no_user_script opts = [] then (([], None), w1)
             else if \<not> executable (no_user_script opts) w1 then
               ((''notify script is not executable: '' @ no_user_script opts, None), w1)
             else (case execute (script_timeout opts) (no_user_script opts) (notify_args m) w1 of
                     (Some e, w2) \<Rightarrow> ((''notify script failed: '' @ err_text e, None), w2)
                   | (None, w2) \<Rightarrow> (([], None), w2)))"

text \<open>\<open>requireExecutable\<close>: \<open>os.Stat\<close> finds a file that is no directory and has a permission bit \<open>x\<close>.\<close>

definition file_executable :: "(bool \<times> 32 word) option \<Rightarrow> bool" where
  "file_executable info =
     (case info of None \<Rightarrow> False | Some (is_dir, mode) \<Rightarrow> \<not> (is_dir \<or> mode AND 0x49 = 0))"

lemmas status_defs [go_defs] =
  cont_byte_def runes_def is_hex_rune_def has_hex_escape_prefix_def slug_plain_def runtime_slug_def
  remove_temp_def temp_pattern_def write_file_atomic_def default_string_def mapping_payload_def write_mapping_def
  status_path_def script_timeout_def notify_args_def notify_run_def file_executable_def

section \<open>The slug is decodable for names of the basic plane\<close>

definition hex_text :: "nat \<Rightarrow> nat \<Rightarrow> string" where
  "hex_text k n = pad_zero k (format_uint 16 n)"

lemma length_hex_text: "n < 16 ^ k \<Longrightarrow> 0 < k \<Longrightarrow> length (hex_text k n) = k"
  using length_digits_in [of n 16 k] by (simp add: hex_text_def pad_zero_def format_uint_def)

lemma parse_hex_text: "parse_digits 16 0 (hex_text k n) = Some n"
  by (simp add: hex_text_def pad_zero_def format_uint_def parse_digits_zeros parse_digits_digits_in)

text \<open>The escapes of a slug that are not a plain underscore.\<close>

definition starts_escape :: "string \<Rightarrow> bool" where
  "starts_escape t \<longleftrightarrow> has_hex_escape_prefix (map of_char t)"

text \<open>A decoder of slugs: a hexadecimal escape is a code point, everything else stands for itself.\<close>

function unslug :: "string \<Rightarrow> nat list" where
  "unslug [] = []"
| "unslug (c # t) =
     (if c = CHR ''_'' \<and> starts_escape t then
        (if hd t = CHR ''x'' then the (parse_digits 16 0 (take 2 (tl t))) # unslug (drop 3 t)
         else the (parse_digits 16 0 (take 4 (tl t))) # unslug (drop 5 t))
      else of_char c # unslug t)"
  by pat_completeness auto
termination
  by (relation "measure length") auto

declare unslug.simps [simp del]

lemma hex_text_chars:
  assumes "c \<in> set (hex_text k n)"
  shows "is_hex_rune (of_char c)"
proof -
  have "is_hex_rune (of_char (digit_char d))" if "d < 16" for d
    using that by (auto simp: digit_char_def is_hex_rune_def)
  moreover have "d < 16" if "d \<in> set (digits_in 16 n)" for d
    by (rule digits_in_bound [OF _ that]) simp
  ultimately show ?thesis
    using assms by (auto simp: hex_text_def pad_zero_def format_uint_def is_hex_rune_def)
qed

lemma starts_escape_x:
  assumes "length h = 2" "\<And>c. c \<in> set h \<Longrightarrow> is_hex_rune (of_char c)"
  shows "starts_escape (CHR ''x'' # h @ t)"
  using assms by (auto simp: starts_escape_def has_hex_escape_prefix_def numeral_eq_Suc length_Suc_conv)

lemma starts_escape_u:
  assumes "length h = 4" "\<And>c. c \<in> set h \<Longrightarrow> is_hex_rune (of_char c)"
  shows "starts_escape (CHR ''u'' # h @ t)"
  using assms by (auto simp: starts_escape_def has_hex_escape_prefix_def numeral_eq_Suc length_Suc_conv)

lemma unslug_x: "n < 256 \<Longrightarrow> unslug (''_x'' @ hex_text 2 n @ t) = n # unslug t"
proof -
  assume "n < 256"
  then have l: "length (hex_text 2 n) = 2" by (intro length_hex_text) simp_all
  moreover from starts_escape_x [OF l] hex_text_chars have "starts_escape (CHR ''x'' # hex_text 2 n @ t)" by blast
  ultimately show ?thesis
    by (simp add: unslug.simps parse_hex_text)
qed

lemma unslug_u: "n < 65536 \<Longrightarrow> unslug (''_u'' @ hex_text 4 n @ t) = n # unslug t"
proof -
  assume "n < 65536"
  then have l: "length (hex_text 4 n) = 4" by (intro length_hex_text) simp_all
  moreover from starts_escape_u [OF l] hex_text_chars have "starts_escape (CHR ''u'' # hex_text 4 n @ t)" by blast
  ultimately show ?thesis
    by (simp add: unslug.simps parse_hex_text)
qed

lemma slug_runes_cases:
  obtains (escape) t where "slug_runes (c # cs) = CHR ''_'' # t"
  | (plain) "slug_plain c" "c \<noteq> 95" "slug_runes (c # cs) = char_of c # slug_runes cs"
proof (cases "slug_plain c \<and> c \<noteq> 95")
  case True
  with plain show ?thesis by simp
next
  case False
  moreover have "char_of (95 :: nat) = CHR ''_''" by (simp add: char_of_eq_iff)
  ultimately have "\<exists>t. slug_runes (c # cs) = CHR ''_'' # t" by auto
  with escape show ?thesis by blast
qed

text \<open>A run of hexadecimal digits at the head of a slug is a run of the same runes.\<close>

lemma slug_head_run:
  "list_all is_hex_rune (take k (map of_char (slug_runes cs))) \<Longrightarrow> k \<le> length (slug_runes cs) \<Longrightarrow>
   k \<le> length cs \<and> take k (map of_char (slug_runes cs)) = take k cs"
proof (induction k arbitrary: cs)
  case (Suc k)
  then obtain c cs' where cs: "cs = c # cs'" by (cases cs) auto
  show ?case
  proof (cases rule: slug_runes_cases [of c cs'])
    case (escape t)
    with Suc.prems cs show ?thesis by (simp add: is_hex_rune_def del: slug_runes.simps)
  next
    case plain
    then have "c < 256" by (auto simp: slug_plain_def)
    with Suc cs plain show ?thesis by (simp del: slug_runes.simps)
  qed
qed simp

lemma slug_head_letter:
  assumes "slug_runes cs = char_of n # t" "n \<noteq> 95" "n < 128"
  obtains cs' where "cs = n # cs'" "t = slug_runes cs'"
proof (cases cs)
  case Nil
  with assms show ?thesis by simp
next
  case (Cons c cs')
  show ?thesis
  proof (cases rule: slug_runes_cases [of c cs'])
    case (escape u)
    with assms Cons have "char_of n = CHR ''_''" by (simp del: slug_runes.simps)
    moreover have "take_bit 8 n = n" using assms(3) by (simp add: take_bit_nat_eq_self)
    ultimately show ?thesis using assms(2,3) by (simp add: char_of_eq_iff)
  next
    case plain
    then have "c < 128" by (auto simp: slug_plain_def)
    with plain assms Cons have "c = n" "t = slug_runes cs'"
      by (auto simp del: slug_runes.simps dest: arg_cong [where f = "of_char :: char \<Rightarrow> nat"])
    with Cons that show ?thesis by blast
  qed
qed

lemma starts_escape_slug:
  assumes "starts_escape (slug_runes cs)"
  shows "has_hex_escape_prefix cs"
proof -
  let ?t = "slug_runes cs"
  have code: "c = char_of n" if "of_char c = n" for c and n :: nat
    using that by (simp flip: that)
  from assms consider
      (x) "3 \<le> length ?t" "of_char (?t ! 0) = (120 :: nat)" "list_all is_hex_rune (take 2 (drop 1 (map of_char ?t)))"
    | (u) "5 \<le> length ?t" "of_char (?t ! 0) = (117 :: nat)" "list_all is_hex_rune (take 4 (drop 1 (map of_char ?t)))"
    by (auto simp: starts_escape_def has_hex_escape_prefix_def numeral_eq_Suc Suc_le_length_iff)
  then show ?thesis
  proof cases
    case x
    then obtain t where t: "?t = char_of (120 :: nat) # t" by (cases ?t) (auto dest: code)
    then obtain cs' where cs: "cs = 120 # cs'" "t = slug_runes cs'" by (rule slug_head_letter) simp_all
    from slug_head_run [of 2 cs'] x t cs have "2 \<le> length cs'" "list_all is_hex_rune (take 2 cs')" by auto
    with cs(1) show ?thesis
      by (auto simp: has_hex_escape_prefix_def numeral_eq_Suc Suc_le_length_iff)
  next
    case u
    then obtain t where t: "?t = char_of (117 :: nat) # t" by (cases ?t) (auto dest: code)
    then obtain cs' where cs: "cs = 117 # cs'" "t = slug_runes cs'" by (rule slug_head_letter) simp_all
    from slug_head_run [of 4 cs'] u t cs have "4 \<le> length cs'" "list_all is_hex_rune (take 4 cs')" by auto
    with cs(1) show ?thesis by (simp add: has_hex_escape_prefix_def)
  qed
qed

lemma unslug_slug: "(\<And>r. r \<in> set rs \<Longrightarrow> r < 65536) \<Longrightarrow> unslug (slug_runes rs) = rs"
proof (induction rs)
  case (Cons c cs)
  then have ih: "unslug (slug_runes cs) = cs" and c: "c < 65536" by auto
  consider "c = 95" "has_hex_escape_prefix cs" | "c = 95" "\<not> has_hex_escape_prefix cs"
    | "c \<noteq> 95" "slug_plain c" | "\<not> slug_plain c" "c < 128" | "\<not> slug_plain c" "128 \<le> c" by linarith
  then show ?case
  proof cases
    case 1
    have "hex_text 2 95 = ''5f''" by (simp add: hex_text_def go_defs)
    with 1 unslug_x [of 95 "slug_runes cs"] ih show ?thesis by simp
  next
    case 2
    with starts_escape_slug ih show ?thesis by (auto simp: slug_plain_def unslug.simps char_of_eq_iff)
  next
    case 3
    then have "c < 256" by (auto simp: slug_plain_def)
    then have "take_bit 8 c = c" by (simp add: take_bit_nat_eq_self)
    with 3 have "char_of c \<noteq> CHR ''_''" by (simp add: char_of_eq_iff)
    with 3 ih \<open>c < 256\<close> show ?thesis by (simp add: unslug.simps)
  next
    case 4
    then show ?thesis using unslug_x [of c "slug_runes cs"] ih by (auto simp: hex_text_def slug_plain_def)
  next
    case 5
    then show ?thesis using unslug_u [of c "slug_runes cs"] ih c by (auto simp: hex_text_def slug_plain_def)
  qed
qed (simp add: unslug.simps)

lemma runes_of_Cons: "runes_of (c # t) \<noteq> []"
  by (subst runes_of.simps) (simp del: runes_of.simps split: list.split)

section \<open>Properties\<close>



text \<open>
  Beyond the basic plane the escape is ambiguous.  A code point of five hexadecimal digits is
  written with five digits after \<open>_u\<close>, which is also how a code point of four digits followed by a
  literal digit is written: the names U+1F600 and U+1F60 followed by 0 share a status file.
\<close>

theorem runtime_slug_collision:
  "let a = [CHR 0xF0, CHR 0x9F, CHR 0x98, CHR 0x80]; b = [CHR 0xE1, CHR 0xBD, CHR 0xA0, CHR ''0''] in
   runes a = [0x1F600] \<and> runes b = [0x1F60, 0x30] \<and> runtime_slug a = runtime_slug b"
proof -
  have a: "runes [CHR 0xF0, CHR 0x9F, CHR 0x98, CHR 0x80] = [0x1F600]" by (simp add: runes_def cont_byte_def)
  have b: "runes [CHR 0xE1, CHR 0xBD, CHR 0xA0, CHR ''0''] = [0x1F60, 0x30]" by (simp add: runes_def cont_byte_def)
  show ?thesis
    unfolding Let_def runtime_slug_def a b
    by (simp add: a b) (simp add: slug_plain_def pad_zero_def format_uint_def digits_in.simps digit_char_def char_of_eq_iff)
qed

lemma slug_chars: "c \<in> set (slug_runes rs) \<Longrightarrow> slug_plain (of_char c)"
proof (induction rs)
  case (Cons r rs)
  have hex: "slug_plain (of_char c)" if "c \<in> set (hex_text k n)" for k n
    using hex_text_chars [OF that] by (auto simp: is_hex_rune_def slug_plain_def)
  from Cons.prems consider "c \<in> set (slug_runes rs)" | "c \<in> set ''_x5fu''"
    | "slug_plain r" "c = char_of r" | k where "c \<in> set (hex_text k r)"
    by (auto simp: hex_text_def split: if_splits)
  then show ?case
  proof cases
    case 3
    then have "r mod 256 = r" by (auto simp: slug_plain_def)
    with 3 show ?thesis by simp
  qed (use Cons.IH hex in \<open>auto simp: slug_plain_def\<close>)
qed simp

text \<open>
  An instance name cannot direct the status file elsewhere.  Whatever the bytes of the name, the
  file lies in the (cleaned) run directory and its name is made of letters, digits and underscores,
  followed by \<open>.json\<close>; in particular there is no slash and no dot before the extension.
\<close>

theorem status_path_confined:
  assumes "no_status_file opts = []"
  shows "path_dir (status_path opts m) = path_clean (default_string (no_run_dir opts) ''/var/run/qnatter'') \<and>
    (\<exists>slug. path_base (status_path opts m) = slug @ ''.json'' \<and>
      slug \<noteq> [] \<and> CHR ''/'' \<notin> set slug \<and> CHR ''.'' \<notin> set slug \<and> (\<forall>c \<in> set slug. slug_plain (of_char c)))"
proof -
  let ?slug = "runtime_slug (stm_instance m)"
  have plain: "\<forall>c \<in> set ?slug. slug_plain (of_char c)"
    using slug_chars by (auto simp: runtime_slug_def Let_def slug_plain_def)
  moreover have ne: "?slug \<noteq> []" by (simp add: runtime_slug_def Let_def)
  moreover have no: "\<not> slug_plain (of_char (CHR ''/''))" "\<not> slug_plain (of_char (CHR ''.''))"
    by (simp_all add: slug_plain_def)
  moreover have "plain_elem (?slug @ ''.json'')"
    using plain no by (cases ?slug) (auto simp: plain_elem_def)
  moreover have "default_string (no_run_dir opts) ''/var/run/qnatter'' \<noteq> []" by (simp add: default_string_def)
  ultimately show ?thesis
    using assms path_join_plain [of "default_string (no_run_dir opts) ''/var/run/qnatter''" "?slug @ ''.json''"]
    by (intro conjI exI [of _ ?slug]) (auto simp: status_path_def)
qed

theorem status_path_confined_witness:
  "path_dir (status_path \<lparr>no_instance = [], no_status_file = [], no_run_dir = ''/tmp//x/..'', no_user_script = [], no_timeout = 0\<rparr>
     \<lparr>stm_instance = ''../etc/x'', stm_protocol = ''tcp'', stm_inner = zero_addr_port, stm_outer = zero_addr_port,
      stm_message = []\<rparr>) = ''/tmp''"
proof -
  have c: "path_clean ''/tmp//x/..'' = ''/tmp''" by code_simp
  show ?thesis
    using status_path_confined [of "\<lparr>no_instance = [], no_status_file = [], no_run_dir = ''/tmp//x/..'', no_user_script = [], no_timeout = 0\<rparr>"
     "\<lparr>stm_instance = ''../etc/x'', stm_protocol = ''tcp'', stm_inner = zero_addr_port, stm_outer = zero_addr_port,
      stm_message = []\<rparr>"] c by (simp add: default_string_def)
qed

text \<open>
  C26: a status file is replaced in one step.  At every moment of \<open>writeFileAtomic\<close>, also when it
  fails or the process dies in between, the path holds its old content or the whole new one and
  no other file but the temporary one changes; on success it holds the new content and the
  temporary file is gone; on failure it holds the old one.
\<close>

theorem write_file_atomic_all_or_nothing:
  assumes "\<And>tmp. wa_create a (path_dir path) (temp_pattern path) = Inr tmp \<Longrightarrow> tmp \<noteq> path \<and> fs tmp = None"
    and "write_file_atomic a path content fs = (e, fss)"
  shows "(\<forall>fs' \<in> set fss. fs' path = fs path \<or> fs' path = Some content) \<and>
    (\<forall>fs' \<in> set fss. \<forall>p. p \<noteq> path \<and> wa_create a (path_dir path) (temp_pattern path) \<noteq> Inr p \<longrightarrow> fs' p = fs p) \<and>
    (e = None \<longrightarrow> last fss = fs(path \<mapsto> content)) \<and>
    (e \<noteq> None \<longrightarrow> last fss path = fs path \<and> (wa_remove a = None \<longrightarrow> last fss = fs))"
proof (cases "wa_create a (path_dir path) (temp_pattern path)")
  case (Inl err)
  with assms(2) show ?thesis by (auto simp: write_file_atomic_def)
next
  case (Inr tmp)
  with assms(1) have "tmp \<noteq> path" "fs tmp = None" by auto
  moreover have "fs(tmp := None) = fs" using \<open>fs tmp = None\<close> by auto
  ultimately show ?thesis
    using assms(2) Inr
    by (auto simp: write_file_atomic_def remove_temp_def Let_def fun_upd_twist split: option.splits if_splits prod.splits)
qed

theorem write_file_atomic_all_or_nothing_witness:
  "last (snd (write_file_atomic
      \<lparr>wa_create = (\<lambda>dir pattern. Inr ''.s.tmp-1''), wa_write = Some (errorf ''no space'', 1), wa_chmod = None, wa_close = None,
       wa_rename = None, wa_remove = None\<rparr> ''s'' ''new'' [''s'' \<mapsto> ''old''])) = [''s'' \<mapsto> ''old'']"
proof -
  let ?a = "\<lparr>wa_create = (\<lambda>dir pattern. Inr ''.s.tmp-1''), wa_write = Some (errorf ''no space'', 1 :: nat), wa_chmod = None, wa_close = None,
       wa_rename = None, wa_remove = None\<rparr>"
  obtain e fss where r: "write_file_atomic ?a ''s'' ''new'' [''s'' \<mapsto> ''old''] = (e, fss)" by fastforce
  then have "e \<noteq> None" by (auto simp: write_file_atomic_def Let_def split: prod.splits)
  moreover have "e \<noteq> None \<longrightarrow> last fss ''s'' = [''s'' \<mapsto> ''old''] ''s'' \<and>
    (wa_remove ?a = None \<longrightarrow> last fss = [''s'' \<mapsto> ''old''])"
    by (rule conjunct2 [OF conjunct2 [OF conjunct2 [OF write_file_atomic_all_or_nothing [OF _ r]]]]) simp
  ultimately show ?thesis using r by simp
qed

text \<open>
  The notification never fails because of the user's script.  Its error is exactly that of
  writing the status file; the script runs only after the file is written, with the protocol, the
  inner and the outer address as arguments, and its failure is only a text in the result.
\<close>

theorem notify_error_is_write_error:
  assumes "notify_run write executable execute opts m w = ((text1, e), w')"
  shows "\<exists>m' w1. write (status_path opts m') m' w = (e, w1) \<and>
    m' = m\<lparr>stm_instance := default_string (stm_instance m) (default_string (no_instance opts) ''default''),
           stm_message := default_string (stm_message m) ''mapped''\<rparr> \<and>
    (e \<noteq> None \<longrightarrow> text1 = [] \<and> w' = w1) \<and>
    (w' = w1 \<or> w' = snd (execute (script_timeout opts) (no_user_script opts) (notify_args m) w1))"
proof -
  have "notify_args (m\<lparr>stm_instance := i, stm_message := x\<rparr>) = notify_args m" for i x
    by (simp add: notify_args_def)
  with assms show ?thesis
    by (auto simp: notify_run_def Let_def split: prod.splits option.splits if_splits)
qed

theorem notify_error_is_write_error_witness:
  "\<exists>m' w1. (\<lambda>path m (w :: nat). (None :: goerror option, Suc w)) (status_path
      \<lparr>no_instance = ''wan'', no_status_file = [], no_run_dir = [], no_user_script = ''/bin/x'', no_timeout = 0\<rparr> m') m' 0 = (None, w1) \<and>
     stm_instance m' = ''wan''"
proof -
  let ?opts = "\<lparr>no_instance = ''wan'', no_status_file = [], no_run_dir = [], no_user_script = ''/bin/x'', no_timeout = 0\<rparr>"
  let ?m = "\<lparr>stm_instance = [], stm_protocol = ''tcp'', stm_inner = zero_addr_port, stm_outer = zero_addr_port, stm_message = []\<rparr>"
  have run: "notify_run (\<lambda>path m (w :: nat). (None, Suc w)) (\<lambda>s w. False) (\<lambda>t s args w. (None, w)) ?opts ?m 0
      = ((''notify script is not executable: /bin/x'', None), 1)"
    by (simp add: notify_run_def)
  from notify_error_is_write_error [OF run] obtain m' w1 where
    "(\<lambda>path m (w :: nat). (None :: goerror option, Suc w)) (status_path ?opts m') m' 0 = (None, w1)"
    "m' = ?m\<lparr>stm_instance := default_string (stm_instance ?m) (default_string (no_instance ?opts) ''default''),
           stm_message := default_string (stm_message ?m) ''mapped''\<rparr>" by blast
  then show ?thesis by (intro exI [of _ m'] exI [of _ w1]) (simp add: default_string_def)
qed

end
