(* ===== verification/Engine_Session.thy ===== *)
theory Engine_Session
  imports Stun_Client Forward_Rules Port_Check Status_File
begin

text \<open>
  \<open>internal/engine/run_once.go\<close>: one session, from the first STUN answer to the committed set of
  resources, and its release.  The dependencies of the session are a record of functions on a
  world, as the Go struct holds interfaces: a keep-alive client and a forwarder are handles, and
  calling a method of one changes the world.
\<close>

section \<open>The dependencies\<close>

record upnp_mapping =
  um_external_port :: int
  um_internal_port :: int
  um_internal_client :: string
  um_udp :: bool
  um_lease_duration :: int

record port_report =
  pr_checked :: bool
  pr_target_lan :: port_result
  pr_qnatter_lan :: port_result
  pr_outer_lan :: port_result
  pr_outer_wan :: port_result

record session_result =
  sr_method :: string
  sr_mapping :: stun_mapping
  sr_target :: addr_port
  sr_unstable :: bool
  sr_ports :: port_report

type_synonym 'w lan_check = "addr_port \<Rightarrow> addr \<Rightarrow> 'w \<Rightarrow> port_result \<times> 'w"
type_synonym 'w wan_check = "int \<Rightarrow> addr \<Rightarrow> 'w \<Rightarrow> port_result \<times> 'w"

text \<open>
  An absent function (\<open>nil\<close>) is \<open>None\<close> where the code branches on it; the report functions, which
  the code only calls when present, are the identity when absent.  \<open>sd_new_forwarder\<close> is the
  factory, the package's own when none is given.
\<close>

record ('w, 'k, 'f) session_deps =
  sd_get_mapping :: "('w \<Rightarrow> (goerror + stun_mapping) \<times> 'w) option"
  sd_keep_alive :: "'k option"
  sd_new_keep_alive :: "(stun_mapping \<Rightarrow> 'w \<Rightarrow> (goerror + 'k option) \<times> 'w) option"
  sd_new_forwarder :: "string \<Rightarrow> 'w \<Rightarrow> (goerror + 'f) \<times> 'w"
  sd_port_check :: "'w lan_check"
  sd_initial_check :: "('w lan_check \<times> 'w wan_check) option"
  sd_notify :: "(status_mapping \<Rightarrow> 'w \<Rightarrow> goerror option \<times> 'w) option"
  sd_on_mapped :: "session_result \<Rightarrow> 'w \<Rightarrow> 'w"
  sd_on_transient :: "string \<Rightarrow> goerror \<Rightarrow> nat \<Rightarrow> nat \<Rightarrow> 'w \<Rightarrow> 'w"
  sd_on_upnp_error :: "string \<Rightarrow> goerror \<Rightarrow> 'w \<Rightarrow> 'w"
  sd_on_close_error :: "goerror \<Rightarrow> 'w \<Rightarrow> 'w"
  sd_has_upnp :: bool
  sd_ka_call :: "'k \<Rightarrow> 'w \<Rightarrow> goerror option \<times> 'w"
  sd_ka_close :: "'k \<Rightarrow> 'w \<Rightarrow> goerror option \<times> 'w"
  sd_fwd_start :: "'f \<Rightarrow> start_options \<Rightarrow> 'w \<Rightarrow> goerror option \<times> 'w"
  sd_fwd_stop :: "'f \<Rightarrow> 'w \<Rightarrow> goerror option \<times> 'w"
  sd_upnp_forward :: "upnp_mapping \<Rightarrow> 'w \<Rightarrow> goerror option \<times> 'w"
  sd_upnp_renew :: "'w \<Rightarrow> goerror option \<times> 'w"
  sd_upnp_revoke :: "'w \<Rightarrow> goerror option \<times> 'w"

record ('k, 'f) session =
  ss_result :: session_result
  ss_forwarder :: "'f option"
  ss_keep_alive :: "'k option"
  ss_upnp :: bool

definition no_report :: port_report where
  "no_report = \<lparr>pr_checked = False, pr_target_lan = PortUnknown, pr_qnatter_lan = PortUnknown,
     pr_outer_lan = PortUnknown, pr_outer_wan = PortUnknown\<rparr>"

definition zero_mapping :: stun_mapping where
  "zero_mapping = \<lparr>mp_inner = zero_addr_port, mp_outer = zero_addr_port, mp_server = \<lparr>sv_host = [], sv_port = 0\<rparr>\<rparr>"

definition zero_result :: session_result where
  "zero_result = \<lparr>sr_method = [], sr_mapping = zero_mapping, sr_target = zero_addr_port,
     sr_unstable = False, sr_ports = no_report\<rparr>"

section \<open>Close\<close>

definition first_error :: "goerror option \<Rightarrow> goerror option \<Rightarrow> goerror option" where
  "first_error e e' = (if e = None then e' else e)"

definition close_session ::
  "('w, 'k, 'f) session_deps \<Rightarrow> ('k, 'f) session \<Rightarrow> 'w \<Rightarrow> goerror option \<times> ('k, 'f) session \<times> 'w" where
  "close_session deps s w =
     (let (e1, w1) = (case ss_forwarder s of None \<Rightarrow> (None, w) | Some f \<Rightarrow> sd_fwd_stop deps f w);
          (e2, w2) = (case ss_keep_alive s of None \<Rightarrow> (None, w1) | Some k \<Rightarrow> sd_ka_close deps k w1);
          (e3, w3) = (if ss_upnp s then sd_upnp_revoke deps w2 else (None, w2))
      in (first_error (first_error e1 e2) e3,
          s\<lparr>ss_forwarder := None, ss_keep_alive := None, ss_upnp := False\<rparr>, w3))"

text \<open>The deferred release of an uncommitted session; its error goes to \<open>OnCloseError\<close>.\<close>

definition release_session :: "('w, 'k, 'f) session_deps \<Rightarrow> ('k, 'f) session \<Rightarrow> 'w \<Rightarrow> 'w" where
  "release_session deps s w =
     (case close_session deps s w of
        (None, _, w') \<Rightarrow> w'
      | (Some e, _, w') \<Rightarrow> sd_on_close_error deps e w')"

section \<open>Decisions\<close>

definition choose_mapping :: "stun_mapping \<Rightarrow> stun_mapping \<Rightarrow> stun_mapping" where
  "choose_mapping first observed =
     (if ap_valid (mp_inner first) \<and> ap_valid (mp_inner observed) \<and> mp_inner observed \<noteq> mp_inner first
      then first else observed)"

definition unstable_mapping :: "stun_mapping \<Rightarrow> stun_mapping \<Rightarrow> bool" where
  "unstable_mapping first second \<longleftrightarrow>
     ap_valid (mp_inner first) \<and> ap_valid (mp_inner second) \<and> mp_inner first \<noteq> mp_inner second \<or>
     ap_valid (mp_outer first) \<and> ap_valid (mp_outer second) \<and> mp_outer first \<noteq> mp_outer second"

definition session_method :: "config \<Rightarrow> string" where
  "session_method cfg = resolve_method
     \<lparr>fo_method = cfg_forward_method cfg, fo_bind_value = cfg_bind_value cfg, fo_bind_port = cfg_bind_port cfg,
      fo_target_ip = cfg_target_ip cfg, fo_target_port = cfg_target_port cfg\<rparr>"

definition resolve_target :: "config \<Rightarrow> string \<Rightarrow> stun_mapping \<Rightarrow> addr_port" where
  "resolve_target cfg method mapping =
     (if method = ''none'' \<or> method = ''test'' then mp_inner mapping
      else
        let target_ip = (if cfg_target_ip cfg = [] \<or> cfg_target_ip cfg = ''0.0.0.0'' \<or> cfg_target_ip cfg = ''127.0.0.1''
                         then addr_text (ap_addr (mp_inner mapping)) else cfg_target_ip cfg);
            target_port = (if cfg_target_port cfg = 0 then uint (ap_port (mp_outer mapping)) else cfg_target_port cfg)
        in case parse_addr target_ip of
             None \<Rightarrow> mp_inner mapping
           | Some a \<Rightarrow> AddrPort a (of_int target_port))"

text \<open>\<open>wire.go\<close>, \<open>BindFromConfig\<close>: a bind value is an address or the name of an interface.\<close>

record bind =
  bd_source :: addr_port
  bd_interface :: string

definition bind_from_config :: "config \<Rightarrow> bind" where
  "bind_from_config cfg =
     (let value = (if cfg_bind_value cfg = [] then ''0.0.0.0'' else cfg_bind_value cfg) in
      case parse_addr value of
        Some a \<Rightarrow> \<lparr>bd_source = AddrPort a (of_int (cfg_bind_port cfg)), bd_interface = []\<rparr>
      | None \<Rightarrow> \<lparr>bd_source = AddrPort ipv4_unspecified (of_int (cfg_bind_port cfg)), bd_interface = value\<rparr>)"

definition forward_options :: "config \<Rightarrow> stun_mapping \<Rightarrow> addr_port \<Rightarrow> start_options" where
  "forward_options cfg mapping target =
     \<lparr>st_ip = addr_text (ap_addr (mp_inner mapping)), st_snat_ip = [], st_port = uint (ap_port (mp_inner mapping)),
      st_target_ip = addr_text (ap_addr target), st_target_port = uint (ap_port target), st_udp = cfg_udp cfg,
      st_interface = bd_interface (bind_from_config cfg), st_route_mark = cfg_route_mark cfg,
      st_route_table = cfg_route_table cfg, st_route_priority = cfg_route_priority cfg\<rparr>"

definition session_upnp_mapping :: "config \<Rightarrow> stun_mapping \<Rightarrow> upnp_mapping" where
  "session_upnp_mapping cfg mapping =
     \<lparr>um_external_port = uint (ap_port (mp_inner mapping)), um_internal_port = uint (ap_port (mp_inner mapping)),
      um_internal_client = addr_text (ap_addr (mp_inner mapping)), um_udp = cfg_udp cfg,
      um_lease_duration = cfg_keep_alive_interval cfg * 3\<rparr>"

definition session_status :: "config \<Rightarrow> stun_mapping \<Rightarrow> addr_port \<Rightarrow> status_mapping" where
  "session_status cfg mapping target =
     \<lparr>stm_instance = [], stm_protocol = (if cfg_udp cfg then ''udp'' else ''tcp''), stm_inner = target,
      stm_outer = mp_outer mapping, stm_message = ''mapped''\<rparr>"

definition check_initial_ports ::
  "('w, 'k, 'f) session_deps \<Rightarrow> config \<Rightarrow> addr_port \<Rightarrow> stun_mapping \<Rightarrow> 'w \<Rightarrow> port_report \<times> 'w" where
  "check_initial_ports deps cfg target mapping w =
     (case sd_initial_check deps of
        None \<Rightarrow> (no_report, w)
      | Some (lan, wan) \<Rightarrow>
          if cfg_udp cfg then (no_report, w)
          else
            let source = ap_addr (mp_inner mapping);
                (t, w1) = lan target source w;
                (q, w2) = lan (mp_inner mapping) source w1;
                (ol, w3) = lan (mp_outer mapping) source w2;
                (ow, w4) = wan (uint (ap_port (mp_outer mapping))) source w3
            in (\<lparr>pr_checked = True, pr_target_lan = t, pr_qnatter_lan = q, pr_outer_lan = ol, pr_outer_wan = ow\<rparr>, w4))"

definition target_port_closed ::
  "('w, 'k, 'f) session_deps \<Rightarrow> session_result \<Rightarrow> 'w \<Rightarrow> bool \<times> 'w" where
  "target_port_closed deps result w =
     (case sd_port_check deps (sr_target result) (ap_addr (mp_inner (sr_mapping result))) w of
        (r, w') \<Rightarrow> (r = PortClosed, w'))"

definition target_closed ::
  "('w, 'k, 'f) session_deps \<Rightarrow> session_result \<Rightarrow> 'w \<Rightarrow> bool \<times> 'w" where
  "target_closed deps result w =
     (if pr_checked (sr_ports result) then (pr_target_lan (sr_ports result) = PortClosed, w)
      else target_port_closed deps result w)"

section \<open>StartSession\<close>

text \<open>
  The body after the keep-alive client is held.  It threads the session, so that whatever it has
  acquired when it fails is what the deferred release gives back.
\<close>

type_synonym ('w, 'k, 'f) body_result = "goerror option \<times> ('k, 'f) session \<times> 'w"

definition finish_session ::
  "('w, 'k, 'f) session_deps \<Rightarrow> config \<Rightarrow> stun_mapping \<Rightarrow> stun_mapping \<Rightarrow> stun_mapping \<Rightarrow> addr_port \<Rightarrow>
   ('k, 'f) session \<Rightarrow> 'w \<Rightarrow> ('w, 'k, 'f) body_result" where
  "finish_session deps cfg first observed mapping target s w =
     (let (ports, w1) = check_initial_ports deps cfg target mapping w;
          result = \<lparr>sr_method = session_method cfg, sr_mapping = mapping, sr_target = target,
                    sr_unstable = unstable_mapping first observed, sr_ports = ports\<rparr>;
          w2 = sd_on_mapped deps result w1;
          s2 = s\<lparr>ss_result := result\<rparr>
      in if cfg_retry_target cfg \<and> \<not> cfg_udp cfg then
           (case target_closed deps result w2 of
              (True, w3) \<Rightarrow> (Some (GoError [ErrTargetClosed] ''target port closed''), s2, w3)
            | (False, w3) \<Rightarrow> (None, s2, w3))
         else (None, s2, w2))"

definition notify_session ::
  "('w, 'k, 'f) session_deps \<Rightarrow> config \<Rightarrow> stun_mapping \<Rightarrow> stun_mapping \<Rightarrow> stun_mapping \<Rightarrow> addr_port \<Rightarrow>
   ('k, 'f) session \<Rightarrow> 'w \<Rightarrow> ('w, 'k, 'f) body_result" where
  "notify_session deps cfg first observed mapping target s w =
     (case sd_notify deps of
        None \<Rightarrow> finish_session deps cfg first observed mapping target s w
      | Some notify \<Rightarrow>
          (case notify (session_status cfg mapping target) w of
             (Some e, w') \<Rightarrow> (Some e, s, w')
           | (None, w') \<Rightarrow> finish_session deps cfg first observed mapping target s w'))"

definition upnp_session ::
  "('w, 'k, 'f) session_deps \<Rightarrow> config \<Rightarrow> stun_mapping \<Rightarrow> stun_mapping \<Rightarrow> stun_mapping \<Rightarrow> addr_port \<Rightarrow>
   ('k, 'f) session \<Rightarrow> 'w \<Rightarrow> ('w, 'k, 'f) body_result" where
  "upnp_session deps cfg first observed mapping target s w =
     (if \<not> cfg_upnp cfg then notify_session deps cfg first observed mapping target s w
      else if \<not> sd_has_upnp deps then (Some (errorf ''missing UPnP mapper''), s, w)
      else (case sd_upnp_forward deps (session_upnp_mapping cfg mapping) w of
              (None, w') \<Rightarrow> notify_session deps cfg first observed mapping target (s\<lparr>ss_upnp := True\<rparr>) w'
            | (Some e, w') \<Rightarrow>
                notify_session deps cfg first observed mapping target s (sd_on_upnp_error deps ''forward port'' e w')))"

definition forward_session ::
  "('w, 'k, 'f) session_deps \<Rightarrow> config \<Rightarrow> stun_mapping \<Rightarrow> stun_mapping \<Rightarrow> ('k, 'f) session \<Rightarrow> 'w \<Rightarrow>
   ('w, 'k, 'f) body_result" where
  "forward_session deps cfg first observed s w =
     (let mapping = choose_mapping first observed; method = session_method cfg in
      case sd_new_forwarder deps method w of
        (Inl e, w1) \<Rightarrow> (Some e, s, w1)
      | (Inr f, w1) \<Rightarrow>
          let s1 = s\<lparr>ss_forwarder := Some f\<rparr>; target = resolve_target cfg method mapping in
          (case sd_fwd_start deps f (forward_options cfg mapping target) w1 of
             (Some e, w2) \<Rightarrow> (Some e, s1, w2)
           | (None, w2) \<Rightarrow> upnp_session deps cfg first observed mapping target s1 w2))"

definition session_body ::
  "('w, 'k, 'f) session_deps \<Rightarrow> ('w \<Rightarrow> (goerror + stun_mapping) \<times> 'w) \<Rightarrow> config \<Rightarrow> stun_mapping \<Rightarrow> 'k \<Rightarrow> 'w \<Rightarrow>
   ('w, 'k, 'f) body_result" where
  "session_body deps query cfg first k w =
     (let s = \<lparr>ss_result = zero_result, ss_forwarder = None, ss_keep_alive = Some k, ss_upnp = False\<rparr> in
      case sd_ka_call deps k w of
        (Some e, w1) \<Rightarrow> (Some e, s, w1)
      | (None, w1) \<Rightarrow>
          (case query w1 of
             (Inl e, w2) \<Rightarrow> (Some e, s, w2)
           | (Inr observed0, w2) \<Rightarrow>
               let observed = (if ap_valid (mp_inner observed0) then observed0 else observed0\<lparr>mp_inner := mp_inner first\<rparr>)
               in forward_session deps cfg first observed s w2))"

definition acquire_keep_alive ::
  "('w, 'k, 'f) session_deps \<Rightarrow> stun_mapping \<Rightarrow> 'w \<Rightarrow> (goerror + 'k) \<times> 'w" where
  "acquire_keep_alive deps first w =
     (case sd_keep_alive deps of
        Some k \<Rightarrow> (Inr k, w)
      | None \<Rightarrow>
          (case sd_new_keep_alive deps of
             None \<Rightarrow> (Inl (errorf ''missing keep-alive client''), w)
           | Some new_ka \<Rightarrow>
               (case new_ka first w of
                  (Inl e, w') \<Rightarrow> (Inl e, w')
                | (Inr None, w') \<Rightarrow> (Inl (errorf ''missing keep-alive client''), w')
                | (Inr (Some k), w') \<Rightarrow> (Inr k, w'))))"

definition start_session ::
  "('w, 'k, 'f) session_deps \<Rightarrow> config \<Rightarrow> 'w \<Rightarrow> (goerror + ('k, 'f) session) \<times> 'w" where
  "start_session deps cfg w =
     (case sd_get_mapping deps of
        None \<Rightarrow> (Inl (errorf ''missing STUN client''), w)
      | Some query \<Rightarrow>
          (case query w of
             (Inl e, w1) \<Rightarrow> (Inl e, w1)
           | (Inr first, w1) \<Rightarrow>
               (case acquire_keep_alive deps first w1 of
                  (Inl e, w2) \<Rightarrow> (Inl e, w2)
                | (Inr k, w2) \<Rightarrow>
                    (case session_body deps query cfg first k w2 of
                       (None, s, w3) \<Rightarrow> (Inr s, w3)
                     | (Some e, s, w3) \<Rightarrow> (Inl e, release_session deps s w3)))))"

definition run_once ::
  "('w, 'k, 'f) session_deps \<Rightarrow> config \<Rightarrow> 'w \<Rightarrow> (session_result \<times> goerror option) \<times> 'w" where
  "run_once deps cfg w =
     (case start_session deps cfg w of
        (Inl e, w1) \<Rightarrow> ((zero_result, Some e), w1)
      | (Inr s, w1) \<Rightarrow> (case close_session deps s w1 of (e, s', w2) \<Rightarrow> ((ss_result s', e), w2)))"

section \<open>What a session owes\<close>

text \<open>
  The contract of the dependencies.  \<open>owed w\<close> are the resources the world has acquired and not given
  back; \<open>fheld\<close>, \<open>kheld\<close> and \<open>uheld\<close> what a forwarder, a keep-alive client and the UPnP mapper
  remember to hold.  \<open>sane\<close> is an invariant of the world that every operation keeps.
\<close>

definition frame ::
  "('w \<Rightarrow> 'r set) \<Rightarrow> ('f \<Rightarrow> 'w \<Rightarrow> 'r set) \<Rightarrow> ('k \<Rightarrow> 'w \<Rightarrow> 'r set) \<Rightarrow> ('w \<Rightarrow> bool) \<Rightarrow> 'w \<Rightarrow> 'w \<Rightarrow> bool" where
  "frame uheld fheld kheld sane w w' \<longleftrightarrow>
     (sane w \<longrightarrow> sane w') \<and> uheld w' = uheld w \<and> (\<forall>f. fheld f w' = fheld f w) \<and> (\<forall>k. kheld k w' = kheld k w)"

definition quiet ::
  "('w \<Rightarrow> 'r set) \<Rightarrow> ('w \<Rightarrow> 'r set) \<Rightarrow> ('f \<Rightarrow> 'w \<Rightarrow> 'r set) \<Rightarrow> ('k \<Rightarrow> 'w \<Rightarrow> 'r set) \<Rightarrow> ('w \<Rightarrow> bool) \<Rightarrow> 'w \<Rightarrow> 'w \<Rightarrow> bool" where
  "quiet owed uheld fheld kheld sane w w' \<longleftrightarrow> (sane w \<longrightarrow> owed w' = owed w) \<and> frame uheld fheld kheld sane w w'"

lemma diff_chain:
  "A1 \<subseteq> A - F \<Longrightarrow> A2 \<subseteq> A1 - K \<Longrightarrow> A3 \<subseteq> A2 - U \<Longrightarrow> A \<subseteq> B \<union> (F \<union> K \<union> U) \<Longrightarrow> A3 \<subseteq> B"
  by blast

locale session_env =
  fixes deps :: "('w, 'k, 'f) session_deps"
    and owed :: "'w \<Rightarrow> 'r set"
    and uheld :: "'w \<Rightarrow> 'r set"
    and fheld :: "'f \<Rightarrow> 'w \<Rightarrow> 'r set"
    and kheld :: "'k \<Rightarrow> 'w \<Rightarrow> 'r set"
    and sane :: "'w \<Rightarrow> bool"
  assumes query_quiet: "sd_get_mapping deps = Some query \<Longrightarrow> quiet owed uheld fheld kheld sane w (snd (query w))"
    and new_keep_alive: "sd_new_keep_alive deps = Some new_ka \<Longrightarrow> sane w \<Longrightarrow> new_ka m w = (r, w') \<Longrightarrow>
      sane w' \<and> owed w' = owed w \<and> uheld w' = uheld w \<and> (\<forall>k. r = Inr (Some k) \<longrightarrow> kheld k w' = {})"
    and ka_call: "sane w \<Longrightarrow> sd_ka_call deps k w = (e, w') \<Longrightarrow>
      sane w' \<and> owed w' \<subseteq> (owed w - kheld k w) \<union> kheld k w' \<and> uheld w' = uheld w \<and> (\<forall>f. fheld f w' = fheld f w)"
    and ka_close: "sane w \<Longrightarrow> sd_ka_close deps k w = (e, w') \<Longrightarrow>
      sane w' \<and> owed w' \<subseteq> owed w - kheld k w \<and> uheld w' = uheld w \<and> (\<forall>f. fheld f w' = fheld f w)"
    and new_forwarder: "sane w \<Longrightarrow> sd_new_forwarder deps method w = (fr, w') \<Longrightarrow>
      sane w' \<and> owed w' = owed w \<and> uheld w' = uheld w \<and> (\<forall>k. kheld k w' = kheld k w) \<and> (\<forall>f. fr = Inr f \<longrightarrow> fheld f w' = {})"
    and fwd_start: "sane w \<Longrightarrow> fheld f w = {} \<Longrightarrow> sd_fwd_start deps f opts w = (e, w') \<Longrightarrow>
      sane w' \<and> owed w' \<subseteq> owed w \<union> fheld f w' \<and> uheld w' = uheld w \<and> (\<forall>k. kheld k w' = kheld k w)"
    and fwd_stop: "sane w \<Longrightarrow> sd_fwd_stop deps f w = (e, w') \<Longrightarrow>
      sane w' \<and> owed w' \<subseteq> owed w - fheld f w \<and> uheld w' = uheld w \<and> (\<forall>k. kheld k w' = kheld k w)"
    and upnp_forward: "sane w \<Longrightarrow> uheld w = {} \<Longrightarrow> sd_upnp_forward deps um w = (e, w') \<Longrightarrow>
      sane w' \<and> owed w' \<subseteq> owed w \<union> (if e = None then uheld w' else {}) \<and>
      (\<forall>f. fheld f w' = fheld f w) \<and> (\<forall>k. kheld k w' = kheld k w)"
    and upnp_renew: "sane w \<Longrightarrow> sd_upnp_renew deps w = (e, w') \<Longrightarrow>
      owed w' \<subseteq> owed w \<union> uheld w \<and> frame uheld fheld kheld sane w w'"
    and upnp_revoke: "sane w \<Longrightarrow> sd_upnp_revoke deps w = (e, w') \<Longrightarrow>
      sane w' \<and> owed w' \<subseteq> owed w - uheld w \<and> (\<forall>f. fheld f w' = fheld f w) \<and> (\<forall>k. kheld k w' = kheld k w)"
    and notify_quiet: "sd_notify deps = Some notify \<Longrightarrow> quiet owed uheld fheld kheld sane w (snd (notify nm w))"
    and lan_quiet: "sd_initial_check deps = Some (lan, wan) \<Longrightarrow> quiet owed uheld fheld kheld sane w (snd (lan a src w))"
    and wan_quiet: "sd_initial_check deps = Some (lan, wan) \<Longrightarrow> quiet owed uheld fheld kheld sane w (snd (wan p src w))"
    and port_check_quiet: "quiet owed uheld fheld kheld sane w (snd (sd_port_check deps a src w))"
    and on_mapped_quiet: "quiet owed uheld fheld kheld sane w (sd_on_mapped deps res w)"
    and on_transient_quiet: "quiet owed uheld fheld kheld sane w (sd_on_transient deps op err n l w)"
    and on_upnp_error_quiet: "quiet owed uheld fheld kheld sane w (sd_on_upnp_error deps op err w)"
    and on_close_error_quiet: "quiet owed uheld fheld kheld sane w (sd_on_close_error deps err w)"
begin

definition held :: "('k, 'f) session \<Rightarrow> 'w \<Rightarrow> 'r set" where
  "held s w =
     (\<Union>f \<in> set_option (ss_forwarder s). fheld f w) \<union> (\<Union>k \<in> set_option (ss_keep_alive s). kheld k w) \<union>
     (if ss_upnp s then uheld w else {})"

text \<open>The books are kept when nothing is owed beyond \<open>B\<close> and what the session holds.\<close>

definition books :: "'r set \<Rightarrow> ('k, 'f) session \<Rightarrow> 'w \<Rightarrow> bool" where
  "books B s w \<longleftrightarrow> sane w \<and> owed w \<subseteq> B \<union> held s w"

lemma books_quiet: "quiet owed uheld fheld kheld sane w w' \<Longrightarrow> books B s w \<Longrightarrow> books B s w'"
  by (auto simp: books_def held_def quiet_def frame_def)

lemma quiet_uheld: "quiet owed uheld fheld kheld sane w w' \<Longrightarrow> uheld w' = uheld w"
  by (simp add: quiet_def frame_def)

lemma books_result [simp]: "books B (s\<lparr>ss_result := r\<rparr>) w \<longleftrightarrow> books B s w"
  by (simp add: books_def held_def)

lemma close_session_books:
  assumes "books B s w" "close_session deps s w = (e, s', w')"
  shows "sane w' \<and> owed w' \<subseteq> B \<and> s' = s\<lparr>ss_forwarder := None, ss_keep_alive := None, ss_upnp := False\<rparr>"
proof -
  obtain e1 w1 where 1: "(case ss_forwarder s of None \<Rightarrow> (None, w) | Some f \<Rightarrow> sd_fwd_stop deps f w) = (e1, w1)" by fastforce
  obtain e2 w2 where 2: "(case ss_keep_alive s of None \<Rightarrow> (None, w1) | Some k \<Rightarrow> sd_ka_close deps k w1) = (e2, w2)" by fastforce
  obtain e3 w3 where 3: "(if ss_upnp s then sd_upnp_revoke deps w2 else (None, w2)) = (e3, w3)" by fastforce
  from assms(2) 1 2 3 have s': "w' = w3" "s' = s\<lparr>ss_forwarder := None, ss_keep_alive := None, ss_upnp := False\<rparr>"
    by (simp_all add: close_session_def)
  have sane: "sane w" and o: "owed w \<subseteq> B \<union> held s w" using assms(1) by (simp_all add: books_def)
  have s1: "sane w1 \<and> owed w1 \<subseteq> owed w - (\<Union>f \<in> set_option (ss_forwarder s). fheld f w) \<and>
      uheld w1 = uheld w \<and> (\<forall>k. kheld k w1 = kheld k w)"
    using 1 sane fwd_stop [of w] by (auto split: option.splits)
  then have s2: "sane w2 \<and> owed w2 \<subseteq> owed w1 - (\<Union>k \<in> set_option (ss_keep_alive s). kheld k w1) \<and> uheld w2 = uheld w1"
    using 2 ka_close [of w1] by (auto split: option.splits)
  then have s3: "sane w3 \<and> owed w3 \<subseteq> owed w2 - (if ss_upnp s then uheld w2 else {})"
    using 3 upnp_revoke [of w2] by (auto split: if_splits)
  let ?F = "\<Union>f \<in> set_option (ss_forwarder s). fheld f w" and ?K = "\<Union>k \<in> set_option (ss_keep_alive s). kheld k w"
  let ?U = "if ss_upnp s then uheld w else {}"
  from s1 have F: "owed w1 \<subseteq> owed w - ?F" by blast
  from s1 s2 have K: "owed w2 \<subseteq> owed w1 - ?K" by simp
  from s1 s2 s3 have U: "owed w3 \<subseteq> owed w2 - ?U" by (cases "ss_upnp s") simp_all
  have "owed w \<subseteq> B \<union> (?F \<union> ?K \<union> ?U)" using o by (simp add: held_def)
  from diff_chain [OF F K U this] s' s3 show ?thesis by simp
qed

lemma release_session_books: "books B s w \<Longrightarrow> sane (release_session deps s w) \<and> owed (release_session deps s w) \<subseteq> B"
proof -
  assume b: "books B s w"
  obtain e s' w' where c: "close_session deps s w = (e, s', w')" by (metis prod.collapse)
  from close_session_books [OF b c] show ?thesis
    using c on_close_error_quiet [of w'] by (auto simp: release_session_def quiet_def frame_def split: option.splits)
qed

lemma check_initial_ports_quiet:
  assumes "books B s w" "check_initial_ports deps cfg target mapping w = (r, w')"
  shows "books B s w'"
proof (cases "sd_initial_check deps")
  case None
  with assms show ?thesis by (simp add: check_initial_ports_def)
next
  case (Some c)
  obtain lan wan where c: "c = (lan, wan)" by (cases c)
  with Some have here: "sd_initial_check deps = Some (lan, wan)" by simp
  have lan: "books B s v \<Longrightarrow> books B s v'" if "lan a src v = (x, v')" for a src v x v'
    using books_quiet [OF lan_quiet [OF here, of v a src]] that by simp
  have wan: "books B s v \<Longrightarrow> books B s v'" if "wan p src v = (x, v')" for p src v x v'
    using books_quiet [OF wan_quiet [OF here, of v p src]] that by simp
  from assms here show ?thesis
    by (auto simp: check_initial_ports_def Let_def split: if_splits prod.splits dest: lan wan)
qed

lemma target_closed_quiet: "books B s w \<Longrightarrow> target_closed deps res w = (r, w') \<Longrightarrow> books B s w'"
  using books_quiet [OF port_check_quiet, of B s w "sr_target res" "ap_addr (mp_inner (sr_mapping res))"]
  by (cases "sd_port_check deps (sr_target res) (ap_addr (mp_inner (sr_mapping res))) w")
    (auto simp: target_closed_def target_port_closed_def split: if_splits)

lemma finish_session_books:
  assumes "books B s w" "finish_session deps cfg first observed mapping target s w = (e, s', w')"
  shows "books B s' w'"
proof -
  obtain ports w1 where p: "check_initial_ports deps cfg target mapping w = (ports, w1)" by fastforce
  obtain result where result: "result = \<lparr>sr_method = session_method cfg, sr_mapping = mapping, sr_target = target,
      sr_unstable = unstable_mapping first observed, sr_ports = ports\<rparr>" by blast
  from check_initial_ports_quiet [OF assms(1) p] books_quiet [OF on_mapped_quiet]
  have b: "books B (s\<lparr>ss_result := result\<rparr>) (sd_on_mapped deps result w1)" by simp
  obtain r w3 where t: "target_closed deps result (sd_on_mapped deps result w1) = (r, w3)" by fastforce
  from assms(2) p t b target_closed_quiet [OF b t] show ?thesis
    by (auto simp: finish_session_def Let_def result [symmetric] split: if_splits bool.splits)
qed

lemma notify_session_books:
  assumes "books B s w" "notify_session deps cfg first observed mapping target s w = (e, s', w')"
  shows "books B s' w'"
proof (cases "sd_notify deps")
  case None
  with assms show ?thesis by (auto simp: notify_session_def intro: finish_session_books)
next
  case (Some notify)
  obtain e1 w1 where n: "notify (session_status cfg mapping target) w = (e1, w1)" by fastforce
  with books_quiet [OF notify_quiet [OF Some, of w "session_status cfg mapping target"] assms(1)] have "books B s w1" by simp
  with assms(2) Some n show ?thesis
    by (auto simp: notify_session_def intro: finish_session_books split: option.splits)
qed

lemma upnp_session_books:
  assumes "books B s w" "\<not> ss_upnp s" "uheld w = {}"
    and "upnp_session deps cfg first observed mapping target s w = (e, s', w')"
  shows "books B s' w'"
proof (cases "cfg_upnp cfg \<and> sd_has_upnp deps")
  case False
  with assms show ?thesis by (auto simp: upnp_session_def intro: notify_session_books split: if_splits)
next
  case True
  obtain e1 w1 where u: "sd_upnp_forward deps (session_upnp_mapping cfg mapping) w = (e1, w1)" by fastforce
  from upnp_forward [OF _ assms(3) u] assms(1) have f: "sane w1"
    "owed w1 \<subseteq> owed w \<union> (if e1 = None then uheld w1 else {})" "\<And>f. fheld f w1 = fheld f w" "\<And>k. kheld k w1 = kheld k w"
    by (auto simp: books_def)
  show ?thesis
  proof (cases e1)
    case None
    with f assms(1,2) have "books B (s\<lparr>ss_upnp := True\<rparr>) w1" by (auto simp: books_def held_def)
    with None True u assms(4) show ?thesis by (auto simp: upnp_session_def intro: notify_session_books)
  next
    case (Some err)
    with f assms(1,2) have "books B s w1" by (auto simp: books_def held_def)
    from books_quiet [OF on_upnp_error_quiet this] Some True u assms(4) show ?thesis
      by (auto simp: upnp_session_def intro: notify_session_books)
  qed
qed

lemma forward_session_books:
  assumes "books B s w" "\<not> ss_upnp s" "uheld w = {}" "ss_forwarder s = None"
    and "forward_session deps cfg first observed s w = (e, s', w')"
  shows "books B s' w'"
proof -
  obtain r w1 where n: "sd_new_forwarder deps (session_method cfg) w = (r, w1)" by fastforce
  from new_forwarder [OF _ n] assms(1) have n1: "sane w1" "owed w1 = owed w" "uheld w1 = uheld w"
    "\<And>k. kheld k w1 = kheld k w" "\<And>f. r = Inr f \<Longrightarrow> fheld f w1 = {}" by (auto simp: books_def)
  with assms(1,2,4) have b1: "books B s w1" by (simp add: books_def held_def)
  show ?thesis
  proof (cases r)
    case (Inl err)
    with b1 n assms(5) show ?thesis by (simp add: forward_session_def Let_def)
  next
    case (Inr f)
    obtain target where t: "target = resolve_target cfg (session_method cfg) (choose_mapping first observed)" by blast
    obtain e2 w2 where st: "sd_fwd_start deps f (forward_options cfg (choose_mapping first observed) target) w1 = (e2, w2)" by fastforce
    from fwd_start [OF n1(1) n1(5) [OF Inr] st] have s2: "sane w2" "owed w2 \<subseteq> owed w1 \<union> fheld f w2" "uheld w2 = uheld w1"
      "\<And>k. kheld k w2 = kheld k w1" by auto
    with b1 assms(2,4) have b2: "books B (s\<lparr>ss_forwarder := Some f\<rparr>) w2"
      by (auto simp: books_def held_def)
    show ?thesis
    proof (cases e2)
      case None
      have "upnp_session deps cfg first observed (choose_mapping first observed) target (s\<lparr>ss_forwarder := Some f\<rparr>) w2 = (e, s', w')"
        using assms(5) n Inr st None t by (simp add: forward_session_def Let_def)
      with upnp_session_books [OF b2] assms(2,3) n1(3) s2(3) show ?thesis by simp
    next
      case (Some err)
      with b2 n Inr st t assms(5) show ?thesis by (simp add: forward_session_def Let_def)
    qed
  qed
qed

lemma session_body_books:
  assumes "sane w" "owed w \<subseteq> B \<union> kheld k w" "uheld w = {}" "sd_get_mapping deps = Some query"
    and "session_body deps query cfg first k w = (e, s', w')"
  shows "books B s' w'"
proof -
  let ?s = "\<lparr>ss_result = zero_result, ss_forwarder = None, ss_keep_alive = Some k, ss_upnp = False\<rparr>"
  obtain e1 w1 where c: "sd_ka_call deps k w = (e1, w1)" by fastforce
  from ka_call [OF assms(1) c] assms(2,3) have b1: "books B ?s w1" "uheld w1 = {}"
    by (auto simp: books_def held_def)
  obtain r w2 where q: "query w1 = (r, w2)" by fastforce
  from books_quiet [OF query_quiet [OF assms(4)] b1(1)] q have b2: "books B ?s w2" by (metis snd_conv)
  from quiet_uheld [OF query_quiet [OF assms(4), of w1]] q b1(2) have u2: "uheld w2 = {}" by simp
  from assms(5) c q b1 b2 u2 show ?thesis
    by (auto simp: session_body_def Let_def intro: forward_session_books split: option.splits sum.splits if_splits)
qed

text \<open>Starting a session either fails and owes nothing new, or owes exactly what the session holds.\<close>

lemma start_session_books:
  assumes "sane w" "uheld w = {}" "start_session deps cfg w = (r, w')"
  shows "sane w' \<and> (case r of Inl _ \<Rightarrow> owed w' \<subseteq> owed w | Inr s \<Rightarrow> books (owed w) s w')"
proof (cases "sd_get_mapping deps")
  case None
  with assms show ?thesis by (auto simp: start_session_def)
next
  case (Some query)
  obtain r1 w1 where q: "query w = (r1, w1)" by fastforce
  with query_quiet [OF Some, of w] assms(1,2) have w1: "sane w1" "owed w1 = owed w" "uheld w1 = {}"
    by (auto simp: quiet_def frame_def)
  show ?thesis
  proof (cases r1)
    case (Inl err)
    with Some q w1 assms(3) show ?thesis by (auto simp: start_session_def)
  next
    case (Inr first)
    obtain r2 w2 where a: "acquire_keep_alive deps first w1 = (r2, w2)" by fastforce
    from a w1 new_keep_alive [OF _ w1(1), of _ first] have w2: "sane w2" "owed w2 = owed w" "uheld w2 = {}"
      by (auto simp: acquire_keep_alive_def split: option.splits sum.splits prod.splits)
    show ?thesis
    proof (cases r2)
      case (Inl err)
      with Some q Inr a w2 assms(3) show ?thesis by (auto simp: start_session_def)
    next
      case k: (Inr k)
      obtain e s w3 where b: "session_body deps query cfg first k w2 = (e, s, w3)" by (metis prod.collapse)
      from w2 have "owed w2 \<subseteq> owed w \<union> kheld k w2" by simp
      from session_body_books [OF w2(1) this w2(3) Some b] have bk: "books (owed w) s w3" .
      with release_session_books [OF bk] Some q Inr a k b assms(3) show ?thesis
        by (auto simp: start_session_def books_def split: option.splits)
    qed
  qed
qed

lemma failed_start_owes_nothing:
  "sane w \<Longrightarrow> uheld w = {} \<Longrightarrow> start_session deps cfg w = (Inl e, w') \<Longrightarrow> owed w' \<subseteq> owed w"
  using start_session_books by fastforce

lemma start_close_owes_nothing:
  assumes "sane w" "uheld w = {}" "start_session deps cfg w = (Inr s, w1)" "close_session deps s w1 = (e, s', w2)"
  shows "owed w2 \<subseteq> owed w"
  using start_session_books [OF assms(1-3)] close_session_books [OF _ assms(4)] by auto

end

end
