(* ===== verification/Engine_Loop.thy ===== *)
theory Engine_Loop
  imports Engine_Session
begin

text \<open>
  \<open>internal/engine/loop.go\<close> and \<open>retry.go\<close>: the loop that keeps a session's mapping open and watches
  it, and the loop that starts a new session when one has ended.  The events of the \<open>select\<close> are an
  argument, and so is the sleep between two sessions.
\<close>

section \<open>loop.go\<close>

record loop_options =
  lo_recheck_every :: int
  lo_keep_alive_limit :: int
  lo_stun_limit :: int

definition transient_failure_limit :: "int \<Rightarrow> nat" where
  "transient_failure_limit limit = (if 0 < limit then nat limit else 3)"

definition recheck_every :: "int \<Rightarrow> nat" where
  "recheck_every every = (if every \<le> 0 then 20 else nat every)"

definition local_address_unavailable :: "goerror \<Rightarrow> bool" where
  "local_address_unavailable e \<longleftrightarrow> errors_is e EADDRNOTAVAIL \<or> errors_is e ENODEV"

definition local_address_changed :: "goerror \<Rightarrow> goerror" where
  "local_address_changed e = wrap_errors [ErrLocalAddressChanged] e ''local address changed: ''"

text \<open>The counters of the loop.\<close>

record loop_state =
  lp_count :: nat
  lp_keep_alive_failures :: nat
  lp_stun_failures :: nat

definition loop_init :: loop_state where
  "loop_init = \<lparr>lp_count = 0, lp_keep_alive_failures = 0, lp_stun_failures = 0\<rparr>"

definition renew_upnp :: "('w, 'k, 'f) session_deps \<Rightarrow> ('k, 'f) session \<Rightarrow> 'w \<Rightarrow> 'w" where
  "renew_upnp deps s w =
     (if ss_upnp s then
        (case sd_upnp_renew deps w of
           (Some e, w') \<Rightarrow> sd_on_upnp_error deps ''renew upnp'' e w'
         | (None, w') \<Rightarrow> w')
      else w)"

text \<open>
  What follows a due recheck.  The left result is the error \<open>RunLoop\<close> returns, the right one the
  counters it goes on with.
\<close>

definition loop_recheck ::
  "('w, 'k, 'f) session_deps \<Rightarrow> loop_options \<Rightarrow> ('w \<Rightarrow> (goerror + stun_mapping) \<times> 'w) \<Rightarrow> ('k, 'f) session \<Rightarrow>
   nat \<Rightarrow> 'w \<Rightarrow> (goerror + loop_state) \<times> 'w" where
  "loop_recheck deps opts query s stun_failures w =
     (case query w of
        (Inl e, w1) \<Rightarrow>
          if local_address_unavailable e then (Inl (local_address_changed e), w1)
          else
            let n = Suc stun_failures; limit = transient_failure_limit (lo_stun_limit opts) in
            if limit \<le> n then (Inl e, w1)
            else (Inr \<lparr>lp_count = 0, lp_keep_alive_failures = 0, lp_stun_failures = n\<rparr>,
                  sd_on_transient deps ''STUN recheck'' e n limit w1)
      | (Inr mapping, w1) \<Rightarrow>
          if mp_outer mapping \<noteq> mp_outer (sr_mapping (ss_result s))
          then (Inl (GoError [ErrMappingChanged] ''mapped address changed''), w1)
          else (Inr loop_init, w1))"

definition loop_tick ::
  "('w, 'k, 'f) session_deps \<Rightarrow> loop_options \<Rightarrow> ('w \<Rightarrow> (goerror + stun_mapping) \<times> 'w) \<Rightarrow> ('k, 'f) session \<Rightarrow>
   'k \<Rightarrow> loop_state \<Rightarrow> 'w \<Rightarrow> (goerror + loop_state) \<times> 'w" where
  "loop_tick deps opts query s k ls w =
     (case sd_ka_call deps k w of
        (Some e, w1) \<Rightarrow>
          if local_address_unavailable e then (Inl (local_address_changed e), w1)
          else
            let n = Suc (lp_keep_alive_failures ls); limit = transient_failure_limit (lo_keep_alive_limit opts) in
            if limit \<le> n
            then (Inl (wrap_errors [ErrKeepAliveFailed] e
                    (''keep-alive failed after '' @ itoa (int n) @ '' consecutive attempts: '')), w1)
            else (Inr (ls\<lparr>lp_keep_alive_failures := n\<rparr>), sd_on_transient deps ''keep-alive'' e n limit w1)
      | (None, w1) \<Rightarrow>
          let w2 = renew_upnp deps s w1; ticks_done = Suc (lp_count ls) in
          if recheck_every (lo_recheck_every opts) \<le> ticks_done then loop_recheck deps opts query s (lp_stun_failures ls) w2
          else (Inr \<lparr>lp_count = ticks_done, lp_keep_alive_failures = 0, lp_stun_failures = lp_stun_failures ls\<rparr>, w2))"

text \<open>
  The \<open>select\<close> of the loop receives a tick or the end of the context; the events of a run are an
  argument.  \<open>None\<close> means that the loop still waits when the events are used up.
\<close>

datatype loop_event = Tick | ContextDone

fun loop_from ::
  "('w, 'k, 'f) session_deps \<Rightarrow> loop_options \<Rightarrow> ('w \<Rightarrow> (goerror + stun_mapping) \<times> 'w) \<Rightarrow> ('k, 'f) session \<Rightarrow>
   'k \<Rightarrow> loop_event list \<Rightarrow> loop_state \<Rightarrow> 'w \<Rightarrow> (goerror option \<times> 'w) option" where
  "loop_from deps opts query s k [] ls w = None"
| "loop_from deps opts query s k (ContextDone # evs) ls w = Some (None, w)"
| "loop_from deps opts query s k (Tick # evs) ls w =
     (case loop_tick deps opts query s k ls w of
        (Inl e, w1) \<Rightarrow> Some (Some e, w1)
      | (Inr ls1, w1) \<Rightarrow> loop_from deps opts query s k evs ls1 w1)"

text \<open>
  A session that has started has a STUN client and a keep-alive client
  (\<open>start_session_clients\<close>), so the last two cases of the match never arise.
\<close>

definition run_loop ::
  "('w, 'k, 'f) session_deps \<Rightarrow> config \<Rightarrow> loop_options \<Rightarrow> loop_event list \<Rightarrow> 'w \<Rightarrow> (goerror option \<times> 'w) option" where
  "run_loop deps cfg opts evs w =
     (case start_session deps cfg w of
        (Inl e, w1) \<Rightarrow> Some (Some e, w1)
      | (Inr s, w1) \<Rightarrow>
          (case (sd_get_mapping deps, ss_keep_alive s) of
             (Some query, Some k) \<Rightarrow>
               map_option (\<lambda>(e, w2). (e, release_session deps s w2)) (loop_from deps opts query s k evs loop_init w1)
           | _ \<Rightarrow> None))"

section \<open>The loop against its contract\<close>

text \<open>
  What one tick observes, and the streaks the counters stand for: the failures since the last
  successful keep-alive, the failed rechecks since the last successful one, and the successful
  keep-alives since the last recheck.
\<close>

datatype loop_obs =
    KeepAliveFailed goerror
  | KeptAlive
  | RecheckFailed goerror
  | Rechecked stun_mapping

definition observed ::
  "('w, 'k, 'f) session_deps \<Rightarrow> loop_options \<Rightarrow> ('w \<Rightarrow> (goerror + stun_mapping) \<times> 'w) \<Rightarrow> ('k, 'f) session \<Rightarrow>
   'k \<Rightarrow> nat \<Rightarrow> 'w \<Rightarrow> loop_obs" where
  "observed deps opts query s k ticks_done w =
     (case sd_ka_call deps k w of
        (Some e, _) \<Rightarrow> KeepAliveFailed e
      | (None, w1) \<Rightarrow>
          if recheck_every (lo_recheck_every opts) \<le> Suc ticks_done
          then (case fst (query (renew_upnp deps s w1)) of Inl e \<Rightarrow> RecheckFailed e | Inr m \<Rightarrow> Rechecked m)
          else KeptAlive)"

fun keep_alive_failed :: "loop_obs \<Rightarrow> bool" where
  "keep_alive_failed (KeepAliveFailed _) = True"
| "keep_alive_failed _ = False"

fun is_recheck :: "loop_obs \<Rightarrow> bool" where
  "is_recheck (RecheckFailed _) = True"
| "is_recheck (Rechecked _) = True"
| "is_recheck _ = False"

fun recheck_failed :: "loop_obs \<Rightarrow> bool" where
  "recheck_failed (RecheckFailed _) = True"
| "recheck_failed _ = False"

definition streaks :: "loop_obs list \<Rightarrow> loop_state" where
  "streaks h =
     \<lparr>lp_count = length (filter (\<lambda>x. \<not> keep_alive_failed x) (takeWhile (\<lambda>x. \<not> is_recheck x) (rev h))),
      lp_keep_alive_failures = length (takeWhile keep_alive_failed (rev h)),
      lp_stun_failures = length (takeWhile recheck_failed (rev (filter is_recheck h)))\<rparr>"

inductive loop_trace ::
  "('w, 'k, 'f) session_deps \<Rightarrow> loop_options \<Rightarrow> ('w \<Rightarrow> (goerror + stun_mapping) \<times> 'w) \<Rightarrow> ('k, 'f) session \<Rightarrow>
   'k \<Rightarrow> 'w \<Rightarrow> loop_obs list \<Rightarrow> loop_state \<Rightarrow> 'w \<Rightarrow> bool"
  for deps opts query s k w0 where
  started: "loop_trace deps opts query s k w0 [] loop_init w0"
| ticked: "loop_trace deps opts query s k w0 h ls w \<Longrightarrow> loop_tick deps opts query s k ls w = (Inr ls', w') \<Longrightarrow>
    loop_trace deps opts query s k w0 (h @ [observed deps opts query s k (lp_count ls) w]) ls' w'"

definition end_reason ::
  "loop_options \<Rightarrow> ('k, 'f) session \<Rightarrow> loop_obs list \<Rightarrow> goerror \<Rightarrow> bool" where
  "end_reason opts s h e \<longleftrightarrow> (case last h of
       KeepAliveFailed e1 \<Rightarrow>
         if local_address_unavailable e1 then e = local_address_changed e1
         else lp_keep_alive_failures (streaks h) = transient_failure_limit (lo_keep_alive_limit opts) \<and>
              errors_is e ErrKeepAliveFailed \<and> set (err_tags e1) \<subseteq> set (err_tags e)
     | RecheckFailed e1 \<Rightarrow>
         if local_address_unavailable e1 then e = local_address_changed e1
         else lp_stun_failures (streaks h) = transient_failure_limit (lo_stun_limit opts) \<and> e = e1
     | Rechecked m \<Rightarrow> mp_outer m \<noteq> mp_outer (sr_mapping (ss_result s)) \<and> errors_is e ErrMappingChanged
     | KeptAlive \<Rightarrow> False)"

lemma transient_failure_limit_pos [simp]: "0 < transient_failure_limit n"
  by (simp add: transient_failure_limit_def)

lemma recheck_every_pos [simp]: "0 < recheck_every n"
  by (simp add: recheck_every_def)

lemma streaks_Nil: "streaks [] = loop_init"
  by (simp add: streaks_def loop_init_def)

lemma streaks_snoc:
  "streaks (h @ [KeepAliveFailed e]) = (streaks h)\<lparr>lp_keep_alive_failures := Suc (lp_keep_alive_failures (streaks h))\<rparr>"
  "streaks (h @ [KeptAlive]) =
    \<lparr>lp_count = Suc (lp_count (streaks h)), lp_keep_alive_failures = 0, lp_stun_failures = lp_stun_failures (streaks h)\<rparr>"
  "streaks (h @ [RecheckFailed e]) =
    \<lparr>lp_count = 0, lp_keep_alive_failures = 0, lp_stun_failures = Suc (lp_stun_failures (streaks h))\<rparr>"
  "streaks (h @ [Rechecked m]) = loop_init"
  by (simp_all add: streaks_def loop_init_def)

lemmas loop_tick_defs = loop_tick_def loop_recheck_def observed_def Let_def

lemma loop_tick_streaks:
  assumes "loop_tick deps opts query s k (streaks h) w = (Inr ls', w')"
  shows "ls' = streaks (h @ [observed deps opts query s k (lp_count (streaks h)) w])"
  using assms by (auto simp: loop_tick_defs streaks_snoc split: option.splits sum.splits prod.splits if_splits)

lemma loop_trace_streaks:
  "loop_trace deps opts query s k w0 h ls w \<Longrightarrow> ls = streaks h"
proof (induction rule: loop_trace.induct)
  case started
  show ?case by (simp add: streaks_Nil)
next
  case (ticked h ls w ls' w')
  from ticked.hyps(2) ticked.IH loop_tick_streaks show ?case by metis
qed

lemma loop_tick_below:
  assumes "loop_tick deps opts query s k ls w = (Inr ls', w')"
    "lp_keep_alive_failures ls < transient_failure_limit (lo_keep_alive_limit opts)"
    "lp_stun_failures ls < transient_failure_limit (lo_stun_limit opts)"
    "lp_count ls < recheck_every (lo_recheck_every opts)"
  shows "lp_keep_alive_failures ls' < transient_failure_limit (lo_keep_alive_limit opts) \<and>
    lp_stun_failures ls' < transient_failure_limit (lo_stun_limit opts) \<and>
    lp_count ls' < recheck_every (lo_recheck_every opts)"
  using assms by (auto simp: loop_tick_defs loop_init_def split: option.splits sum.splits prod.splits if_splits)

lemma loop_trace_below:
  "loop_trace deps opts query s k w0 h ls w \<Longrightarrow>
    lp_keep_alive_failures ls < transient_failure_limit (lo_keep_alive_limit opts) \<and>
    lp_stun_failures ls < transient_failure_limit (lo_stun_limit opts) \<and>
    lp_count ls < recheck_every (lo_recheck_every opts)"
proof (induction rule: loop_trace.induct)
  case started
  show ?case by (simp add: loop_init_def)
next
  case (ticked h ls w ls' w')
  from loop_tick_below [OF ticked.hyps(2)] ticked.IH show ?case by simp
qed

lemma loop_tick_end:
  assumes "loop_tick deps opts query s k (streaks h) w = (Inl e, w')"
    "lp_keep_alive_failures (streaks h) < transient_failure_limit (lo_keep_alive_limit opts)"
    "lp_stun_failures (streaks h) < transient_failure_limit (lo_stun_limit opts)"
  shows "end_reason opts s (h @ [observed deps opts query s k (lp_count (streaks h)) w]) e"
  using assms
  by (auto simp: loop_tick_defs streaks_snoc end_reason_def wrap_errors_def
      split: option.splits sum.splits prod.splits if_splits)


lemma loop_trace_facts:
  assumes "loop_trace deps opts query s k w0 h ls w"
  shows "ls = streaks h \<and>
    lp_keep_alive_failures ls < transient_failure_limit (lo_keep_alive_limit opts) \<and>
    lp_stun_failures ls < transient_failure_limit (lo_stun_limit opts) \<and>
    lp_count ls < recheck_every (lo_recheck_every opts) \<and>
    (\<forall>e w'. loop_tick deps opts query s k ls w = (Inl e, w') \<longrightarrow>
       end_reason opts s (h @ [observed deps opts query s k (lp_count ls) w]) e)"
proof -
  note s = loop_trace_streaks [OF assms]
  note b = loop_trace_below [OF assms]
  show ?thesis using s b loop_tick_end [of deps opts query s k h w] by simp
qed

section \<open>The loop returns, and releases its session\<close>

lemma start_session_clients:
  assumes "start_session deps cfg w = (Inr s, w')"
  shows "sd_get_mapping deps \<noteq> None"
  using assms by (auto simp: start_session_def split: option.splits)

definition keeps_client :: "'k \<Rightarrow> ('w, 'k, 'f) body_result \<Rightarrow> bool" where
  "keeps_client k r \<longleftrightarrow> ss_keep_alive (fst (snd r)) = Some k"

lemma finish_session_client:
  "ss_keep_alive s = Some k \<Longrightarrow> keeps_client k (finish_session deps cfg a b m t s w)"
  by (auto simp: keeps_client_def finish_session_def Let_def split: prod.splits bool.splits)

lemma notify_session_client:
  "ss_keep_alive s = Some k \<Longrightarrow> keeps_client k (notify_session deps cfg a b m t s w)"
  by (auto simp: notify_session_def intro: finish_session_client split: option.splits prod.splits)
    (simp add: keeps_client_def)

lemma upnp_session_client:
  "ss_keep_alive s = Some k \<Longrightarrow> keeps_client k (upnp_session deps cfg a b m t s w)"
  by (auto simp: upnp_session_def intro: notify_session_client split: option.splits prod.splits)
    (simp_all add: keeps_client_def)

lemma forward_session_client:
  "ss_keep_alive s = Some k \<Longrightarrow> keeps_client k (forward_session deps cfg a b s w)"
  by (auto simp: forward_session_def Let_def intro: upnp_session_client split: option.splits prod.splits sum.splits)
    (simp_all add: keeps_client_def)

lemma session_body_client: "keeps_client k (session_body deps query cfg a k w)"
  by (auto simp: session_body_def Let_def intro: forward_session_client split: option.splits prod.splits sum.splits)
    (simp_all add: keeps_client_def)

lemma start_session_keep_alive:
  assumes "start_session deps cfg w = (Inr s, w')"
  shows "ss_keep_alive s \<noteq> None"
proof -
  from assms obtain query k first w2 where "session_body deps query cfg first k w2 = (None, s, w')"
    by (auto simp: start_session_def split: option.splits prod.splits sum.splits)
  with session_body_client [of k deps query cfg first w2] show ?thesis by (simp add: keeps_client_def)
qed

lemma loop_from_done: "ContextDone \<in> set evs \<Longrightarrow> loop_from deps opts query s k evs ls w \<noteq> None"
proof (induction evs arbitrary: ls w)
  case (Cons ev evs)
  then show ?case by (cases ev) (auto split: prod.splits sum.splits)
qed simp

lemma loop_from_dead_peer:
  assumes "\<And>w. fst (sd_ka_call deps k w) \<noteq> None"
  shows "transient_failure_limit (lo_keep_alive_limit opts) \<le> lp_keep_alive_failures ls + length evs \<Longrightarrow>
    lp_keep_alive_failures ls < transient_failure_limit (lo_keep_alive_limit opts) \<Longrightarrow>
    loop_from deps opts query s k evs ls w \<noteq> None"
proof (induction evs arbitrary: ls w)
  case (Cons ev evs)
  show ?case
  proof (cases ev)
    case Tick
    obtain e w1 where e: "sd_ka_call deps k w = (Some e, w1)"
      using assms [of w] by (metis not_None_eq prod.collapse)
    show ?thesis
    proof (cases "loop_tick deps opts query s k ls w")
      case (Pair r w2)
      show ?thesis
      proof (cases r)
        case (Inr ls1)
        with Pair e have "lp_keep_alive_failures ls1 = Suc (lp_keep_alive_failures ls)"
          "lp_keep_alive_failures ls1 < transient_failure_limit (lo_keep_alive_limit opts)"
          by (auto simp: loop_tick_defs split: if_splits)
        with Cons Pair Inr Tick show ?thesis by simp
      qed (use Pair Tick in simp)
    qed
  qed simp
qed simp

lemma run_loop_None:
  assumes "run_loop deps cfg opts evs w = None"
  obtains s w1 query k where "start_session deps cfg w = (Inr s, w1)"
    "loop_from deps opts query s k evs loop_init w1 = None"
proof -
  obtain r w1 where r: "start_session deps cfg w = (r, w1)" by fastforce
  with assms obtain s where s: "r = Inr s" by (cases r) (auto simp: run_loop_def)
  from start_session_clients start_session_keep_alive r s obtain query k
    where "sd_get_mapping deps = Some query" "ss_keep_alive s = Some k"
    by (metis not_None_eq)
  with assms r s that show ?thesis by (simp add: run_loop_def)
qed


context session_env
begin

lemma renew_upnp_books:
  assumes "books B s w"
  shows "books B s (renew_upnp deps s w)"
proof (cases "ss_upnp s")
  case True
  obtain e w1 where r: "sd_upnp_renew deps w = (e, w1)" by fastforce
  from upnp_renew [OF _ r] assms True have "books B s w1"
    by (auto simp: books_def held_def frame_def)
  with r True books_quiet [OF on_upnp_error_quiet this] show ?thesis
    by (cases e) (simp_all add: renew_upnp_def)
qed (simp add: renew_upnp_def assms)

lemma ka_call_books:
  assumes "books B s w" "ss_keep_alive s = Some k" "sd_ka_call deps k w = (e, w')"
  shows "books B s w'"
proof -
  from assms(1) have "sane w" by (simp add: books_def)
  from ka_call [OF this assms(3)] assms(1,2) show ?thesis by (auto simp: books_def held_def)
qed

lemma loop_tick_books:
  assumes "books B s w" "sd_get_mapping deps = Some query" "ss_keep_alive s = Some k"
    and "loop_tick deps opts query s k ls w = (r, w')"
  shows "books B s w'"
proof -
  obtain e w1 where c: "sd_ka_call deps k w = (e, w1)" by fastforce
  note b1 = ka_call_books [OF assms(1,3) c]
  obtain q w3 where q: "query (renew_upnp deps s w1) = (q, w3)" by fastforce
  from books_quiet [OF query_quiet [OF assms(2)] renew_upnp_books [OF b1]] q have b3: "books B s w3" by (metis snd_conv)
  have t: "books B s (sd_on_transient deps op err n l v)" if "books B s v" for op err n l v
    using books_quiet [OF on_transient_quiet that] .
  show ?thesis
    using assms(4) c b1 q b3 t renew_upnp_books [OF b1]
    by (auto simp: loop_tick_def loop_recheck_def Let_def split: option.splits sum.splits if_splits)
qed

lemma loop_from_books:
  "books B s w \<Longrightarrow> sd_get_mapping deps = Some query \<Longrightarrow> ss_keep_alive s = Some k \<Longrightarrow>
    loop_from deps opts query s k evs ls w = Some (e, w') \<Longrightarrow> books B s w'"
proof (induction evs arbitrary: ls w)
  case (Cons ev evs)
  obtain r w1 where t: "loop_tick deps opts query s k ls w = (r, w1)" by fastforce
  from loop_tick_books [OF Cons.prems(1-3) t] have "books B s w1" .
  with Cons t show ?case by (cases ev; cases r) auto
qed simp

lemma run_loop_releases:
  assumes "sane w" "uheld w = {}" "run_loop deps cfg opts evs w = Some (e, w')"
  shows "sane w' \<and> owed w' \<subseteq> owed w"
proof -
  obtain r w1 where r: "start_session deps cfg w = (r, w1)" by fastforce
  note b = start_session_books [OF assms(1,2) r]
  show ?thesis
  proof (cases r)
    case (Inl err)
    with b r assms(3) show ?thesis by (simp add: run_loop_def)
  next
    case (Inr s)
    with assms(3) r obtain query k e' w2 where q: "sd_get_mapping deps = Some query" "ss_keep_alive s = Some k"
        "loop_from deps opts query s k evs loop_init w1 = Some (e', w2)" "w' = release_session deps s w2"
      by (auto simp: run_loop_def split: option.splits)
    from b Inr have "books (owed w) s w1" by simp
    from release_session_books [OF loop_from_books [OF this q(1-3)]] q(4) show ?thesis by simp
  qed
qed

end

section \<open>retry.go\<close>

text \<open>
  Durations are nanoseconds in 64-bit integers; \<open>int64\<close> is Go's conversion and the reduction of a
  product to its 64 bits.  \<open>ro_timer\<close> is the \<open>select\<close> between the timer and the end of the context; it
  answers the context's error when that comes first.
\<close>

definition int64 :: "int \<Rightarrow> int" where
  "int64 i = signed_take_bit 63 i"

definition second :: int where
  "second = 1000000000"

record 'w retry_options =
  ro_retryable :: "(goerror \<Rightarrow> bool) option"
  ro_on_retry :: "goerror \<Rightarrow> int \<Rightarrow> 'w \<Rightarrow> 'w"
  ro_sleep :: "(int \<Rightarrow> 'w \<Rightarrow> goerror option \<times> 'w) option"
  ro_timer :: "int \<Rightarrow> 'w \<Rightarrow> goerror option \<times> 'w"
  ro_context_ended :: "'w \<Rightarrow> bool"

definition default_retryable :: "goerror \<Rightarrow> bool" where
  "default_retryable e \<longleftrightarrow>
     errors_is e ErrMappingChanged \<or> errors_is e ErrKeepAliveFailed \<or> errors_is e ErrTargetClosed \<or>
     errors_is e ErrLocalAddressChanged \<or> errors_is e ErrNoServerAvailable \<or>
     errors_is e EADDRNOTAVAIL \<or> errors_is e ENODEV"

definition retryable :: "goerror \<Rightarrow> (goerror \<Rightarrow> bool) option \<Rightarrow> bool" where
  "retryable e fn = (case fn of Some f \<Rightarrow> f e | None \<Rightarrow> default_retryable e)"

definition min_retry_delay :: int where
  "min_retry_delay = second"

definition max_retry_delay :: int where
  "max_retry_delay = 3600 * second"

definition retry_delay :: "config \<Rightarrow> int" where
  "retry_delay cfg =
     (let delay =
        (if 0 < cfg_keep_alive_interval cfg then
           let seconds = int64 (cfg_keep_alive_interval cfg); max_seconds = int64 (max_retry_delay div second)
           in int64 ((if max_seconds < seconds then max_seconds else seconds) * second)
         else 15 * second)
      in if delay < min_retry_delay then min_retry_delay else delay)"

definition sleep_retry :: "'w retry_options \<Rightarrow> int \<Rightarrow> 'w \<Rightarrow> goerror option \<times> 'w" where
  "sleep_retry ro delay w = (case ro_sleep ro of Some sleep \<Rightarrow> sleep delay w | None \<Rightarrow> ro_timer ro delay w)"

definition ends_program :: "config \<Rightarrow> goerror \<Rightarrow> bool" where
  "ends_program cfg e \<longleftrightarrow>
     cfg_exit_when_changed cfg \<and> (errors_is e ErrMappingChanged \<or> errors_is e ErrLocalAddressChanged)"

text \<open>\<open>None\<close> means that the program is still running when the runs are used up.\<close>

fun run_with_retry ::
  "config \<Rightarrow> ('s \<Rightarrow> 'w \<Rightarrow> (goerror option \<times> 'w) option) \<Rightarrow> 'w retry_options \<Rightarrow> 's list \<Rightarrow> 'w \<Rightarrow>
   (goerror option \<times> 'w) option" where
  "run_with_retry cfg run ro [] w = None"
| "run_with_retry cfg run ro (r # rs) w =
     (case run r w of
        None \<Rightarrow> None
      | Some (None, w1) \<Rightarrow> Some (None, w1)
      | Some (Some e, w1) \<Rightarrow>
          if ro_context_ended ro w1 then Some (None, w1)
          else if ends_program cfg e then Some (Some e, w1)
          else if \<not> retryable e (ro_retryable ro) then Some (Some e, w1)
          else
            let delay = retry_delay cfg in
            (case sleep_retry ro delay (ro_on_retry ro e delay w1) of
               (Some _, w2) \<Rightarrow> Some (None, w2)
             | (None, w2) \<Rightarrow> run_with_retry cfg run ro rs w2))"

lemma int64_id: "- (2 ^ 63) \<le> i \<Longrightarrow> i < 2 ^ 63 \<Longrightarrow> int64 i = i"
  by (simp add: int64_def signed_take_bit_int_eq_self)

text \<open>
  The period of the loop's ticker (\<open>loop.go\<close>) multiplies without a limit; a configuration that
  \<open>ParseArgs\<close> has accepted is small enough for it, one nanosecond count for each second asked for.
\<close>

definition loop_interval :: "config \<Rightarrow> int" where
  "loop_interval cfg =
     (let interval = int64 (int64 (cfg_keep_alive_interval cfg) * second) in
      if interval \<le> 0 then 15 * second else interval)"

lemma loop_interval_valid:
  assumes "config_valid cfg"
  shows "loop_interval cfg = cfg_keep_alive_interval cfg * second"
proof -
  have k: "0 < cfg_keep_alive_interval cfg" "cfg_keep_alive_interval cfg \<le> 86400"
    using assms by (simp_all add: config_valid_def max_keep_alive_interval_def)
  then have "int64 (cfg_keep_alive_interval cfg) = cfg_keep_alive_interval cfg"
      "int64 (cfg_keep_alive_interval cfg * second) = cfg_keep_alive_interval cfg * second"
    by (simp_all add: int64_id second_def)
  with k show ?thesis by (simp add: loop_interval_def second_def)
qed

lemma loop_interval_wraps: "cfg_keep_alive_interval cfg = 9223372037 \<Longrightarrow> loop_interval cfg = 15 * second"
  by (simp add: loop_interval_def int64_def second_def signed_take_bit_int_less_exp)

text \<open>
  C30: the delay between two sessions is the keep-alive interval in nanoseconds, limited to the
  range from one second to one hour, for every 64-bit interval: the multiplication never wraps
  around, so an oversized \<open>-k\<close> cannot make the retries a busy loop.
\<close>

theorem retry_delay_bounds:
  assumes "- (2 ^ 63) \<le> cfg_keep_alive_interval cfg" "cfg_keep_alive_interval cfg < 2 ^ 63"
  shows "retry_delay cfg = (if cfg_keep_alive_interval cfg \<le> 0 then 15 else min 3600 (cfg_keep_alive_interval cfg)) * second \<and>
    second \<le> retry_delay cfg \<and> retry_delay cfg \<le> 3600 * second"
proof (cases "0 < cfg_keep_alive_interval cfg")
  case True
  let ?k = "cfg_keep_alive_interval cfg"
  have k: "int64 ?k = ?k" using assms by (rule int64_id)
  have m: "int64 (max_retry_delay div second) = 3600" by (simp add: int64_id max_retry_delay_def second_def)
  have "int64 (min 3600 ?k * second) = min 3600 ?k * second"
    using True by (intro int64_id) (simp_all add: second_def min_def)
  moreover have "(if 3600 < ?k then 3600 else ?k) = min 3600 ?k" by (simp add: min_def)
  ultimately have "retry_delay cfg = min 3600 ?k * second"
    using True k m by (simp add: retry_delay_def Let_def min_retry_delay_def second_def)
  with True show ?thesis by (simp add: second_def)
next
  case False
  then show ?thesis by (simp add: retry_delay_def min_retry_delay_def second_def)
qed

text \<open>Every property of the world that the runs, the report and the sleep keep survives the retries.\<close>

lemma run_with_retry_keeps:
  assumes "\<And>r w e w'. P w \<Longrightarrow> run r w = Some (e, w') \<Longrightarrow> P w'"
    and "\<And>e d w. P w \<Longrightarrow> P (ro_on_retry ro e d w)"
    and "\<And>d w. P w \<Longrightarrow> P (snd (sleep_retry ro d w))"
  shows "P w \<Longrightarrow> run_with_retry cfg run ro rs w = Some (e, w') \<Longrightarrow> P w'"
proof (induction rs arbitrary: w)
  case (Cons r rs)
  then obtain e1 w1 where r: "run r w = Some (e1, w1)" by (auto split: option.splits)
  from assms(1) [OF Cons.prems(1) r] have w1: "P w1" .
  show ?case
  proof (cases e1)
    case None
    with Cons.prems(2) r w1 show ?thesis by simp
  next
    case (Some err)
    obtain d where d: "d = retry_delay cfg" by blast
    obtain e2 w2 where sl: "sleep_retry ro d (ro_on_retry ro err d w1) = (e2, w2)" by fastforce
    with assms(3) [OF assms(2) [OF w1], of d err d] have "P w2" by simp
    with Cons Some r w1 sl d show ?thesis
      by (auto simp: Let_def split: if_splits option.splits)
  qed
qed simp

lemma run_with_retry_error:
  "run_with_retry cfg run ro rs w = Some (Some e, w') \<Longrightarrow>
    (\<exists>r w0. run r w0 = Some (Some e, w')) \<and> \<not> ro_context_ended ro w' \<and>
    (ends_program cfg e \<or> \<not> retryable e (ro_retryable ro))"
proof (induction rs arbitrary: w)
  case (Cons r rs)
  then show ?case by (auto simp: Let_def split: option.splits if_splits prod.splits)
qed simp

lemma run_with_retry_goes_on:
  assumes "run r w = Some (Some e, w1)" "\<not> ro_context_ended ro w1" "\<not> ends_program cfg e"
    "retryable e (ro_retryable ro)" "sleep_retry ro (retry_delay cfg) (ro_on_retry ro e (retry_delay cfg) w1) = (None, w2)"
  shows "run_with_retry cfg run ro (r # rs) w = run_with_retry cfg run ro rs w2"
  using assms by (simp add: Let_def)


section \<open>Samples\<close>

text \<open>A session whose peer answers the first keep-alive only; the world counts the calls.\<close>

definition sample_mapping :: stun_mapping where
  "sample_mapping = \<lparr>mp_inner = AddrPort (Addr4 192 168 1 2) 4000, mp_outer = AddrPort (Addr4 203 0 113 7) 4001,
     mp_server = \<lparr>sv_host = ''stun.example.org'', sv_port = 3478\<rparr>\<rparr>"

definition sample_deps :: "(nat, unit, unit) session_deps" where
  "sample_deps = \<lparr>sd_get_mapping = Some (\<lambda>w. (Inr sample_mapping, w)), sd_keep_alive = Some (),
     sd_new_keep_alive = None, sd_new_forwarder = (\<lambda>m w. (Inr (), w)), sd_port_check = (\<lambda>a s w. (PortUnknown, w)),
     sd_initial_check = None, sd_notify = None, sd_on_mapped = (\<lambda>r w. w), sd_on_transient = (\<lambda>op e n l w. w),
     sd_on_upnp_error = (\<lambda>op e w. w), sd_on_close_error = (\<lambda>e w. w), sd_has_upnp = False,
     sd_ka_call = (\<lambda>k w. (if w = 0 then None else Some (errorf ''i/o timeout''), Suc w)),
     sd_ka_close = (\<lambda>k w. (None, w)), sd_fwd_start = (\<lambda>f opts w. (None, w)), sd_fwd_stop = (\<lambda>f w. (None, w)),
     sd_upnp_forward = (\<lambda>m w. (None, w)), sd_upnp_renew = (\<lambda>w. (None, w)), sd_upnp_revoke = (\<lambda>w. (None, w))\<rparr>"

definition default_loop_options :: loop_options where
  "default_loop_options = \<lparr>lo_recheck_every = 0, lo_keep_alive_limit = 0, lo_stun_limit = 0\<rparr>"

definition sample_retry :: "nat retry_options" where
  "sample_retry = \<lparr>ro_retryable = None, ro_on_retry = (\<lambda>e d w. w), ro_sleep = Some (\<lambda>d w. (None, w)), ro_timer = (\<lambda>d w. (None, w)),
     ro_context_ended = (\<lambda>w. False)\<rparr>"

definition sample_run :: "bool \<Rightarrow> nat \<Rightarrow> (goerror option \<times> nat) option" where
  "sample_run ok w = Some (if ok then None else Some (GoError [ErrKeepAliveFailed] ''peer gone''), Suc w)"

definition sample_session :: "(unit, unit) session" where
  "sample_session = \<lparr>ss_result = zero_result\<lparr>sr_mapping := sample_mapping\<rparr>, ss_forwarder = Some (),
     ss_keep_alive = Some (), ss_upnp = False\<rparr>"

lemmas loop_samples = sample_mapping_def sample_deps_def default_loop_options_def sample_retry_def sample_run_def
  sample_session_def


theorem retry_delay_bounds_witness:
  "retry_delay (initial_config (\<lambda>_. [])\<lparr>cfg_keep_alive_interval := 9000000000\<rparr>) = 3600 * second"
  using retry_delay_bounds [of "initial_config (\<lambda>_. [])\<lparr>cfg_keep_alive_interval := 9000000000\<rparr>"] by simp


lemma sample_trace:
  "loop_trace sample_deps default_loop_options (\<lambda>w. (Inr sample_mapping, w)) sample_session () 1
     [KeepAliveFailed (errorf ''i/o timeout''), KeepAliveFailed (errorf ''i/o timeout'')]
     (loop_init\<lparr>lp_keep_alive_failures := 2\<rparr>) 3"
proof -
  let ?t = "loop_tick sample_deps default_loop_options (\<lambda>w. (Inr sample_mapping, w)) sample_session ()"
  let ?o = "observed sample_deps default_loop_options (\<lambda>w. (Inr sample_mapping, w)) sample_session ()"
  have o: "?o n (Suc w) = KeepAliveFailed (errorf ''i/o timeout'')" for n w
    by (simp add: observed_def sample_deps_def)
  have "?t loop_init 1 = (Inr (loop_init\<lparr>lp_keep_alive_failures := 1\<rparr>), 2)"
    "?t (loop_init\<lparr>lp_keep_alive_failures := 1\<rparr>) 2 = (Inr (loop_init\<lparr>lp_keep_alive_failures := 2\<rparr>), 3)"
    by (simp_all add: loop_tick_def sample_deps_def default_loop_options_def transient_failure_limit_def
        local_address_unavailable_def loop_init_def Let_def)
  from ticked [OF ticked [OF started this(1)] this(2)] o [of _ 0] o [of _ 1]
  show ?thesis by (simp add: numeral_2_eq_2)
qed

text \<open>
  C29: the counters of the loop are the streaks they stand for.  After any number of ticks they hold
  the failures since the last successful keep-alive, the failed rechecks in a row and the
  successes since the last recheck; each stays below its limit while the loop goes on; and a tick
  that ends the loop does so because a streak has reached exactly its limit, the local address is
  gone, or the recheck found another outer address.
\<close>

theorem loop_counts_streaks:
  assumes "loop_trace deps opts query s k w0 h ls w"
  shows "ls = streaks h \<and>
    lp_keep_alive_failures ls < transient_failure_limit (lo_keep_alive_limit opts) \<and>
    lp_stun_failures ls < transient_failure_limit (lo_stun_limit opts) \<and>
    lp_count ls < recheck_every (lo_recheck_every opts) \<and>
    (\<forall>e w'. loop_tick deps opts query s k ls w = (Inl e, w') \<longrightarrow>
       end_reason opts s (h @ [observed deps opts query s k (lp_count ls) w]) e)"
  by (rule loop_trace_facts [OF assms])

theorem loop_counts_streaks_witness:
  "\<exists>e w'. loop_tick sample_deps default_loop_options (\<lambda>w. (Inr sample_mapping, w)) sample_session ()
      (loop_init\<lparr>lp_keep_alive_failures := 2\<rparr>) 3 = (Inl e, w') \<and>
    end_reason default_loop_options sample_session
      ([KeepAliveFailed (errorf ''i/o timeout''), KeepAliveFailed (errorf ''i/o timeout'')] @
       [observed sample_deps default_loop_options (\<lambda>w. (Inr sample_mapping, w)) sample_session () 0 3]) e"
proof -
  let ?e = "wrap_errors [ErrKeepAliveFailed] (errorf ''i/o timeout'')
      (''keep-alive failed after '' @ itoa 3 @ '' consecutive attempts: '')"
  have t: "loop_tick sample_deps default_loop_options (\<lambda>w. (Inr sample_mapping, w)) sample_session ()
      (loop_init\<lparr>lp_keep_alive_failures := 2\<rparr>) 3 = (Inl ?e, 4)"
    by (simp add: loop_tick_def sample_deps_def default_loop_options_def transient_failure_limit_def
        local_address_unavailable_def Let_def)
  with loop_counts_streaks [OF sample_trace] have "end_reason default_loop_options sample_session
      ([KeepAliveFailed (errorf ''i/o timeout''), KeepAliveFailed (errorf ''i/o timeout'')] @
       [observed sample_deps default_loop_options (\<lambda>w. (Inr sample_mapping, w)) sample_session ()
         (lp_count (loop_init\<lparr>lp_keep_alive_failures := 2\<rparr>)) 3]) ?e" by blast
  with t show ?thesis by (auto simp: loop_init_def)
qed

end
