(* ===== verification/App_Log.thy ===== *)
theory App_Log
  imports Engine_Loop
begin

text \<open>
  The log of \<open>internal/app/app.go\<close>: each \<open>log\<close> function as the lines it writes to standard error.  A
  stamped line stands for the time, the level in brackets and the text.
\<close>
datatype log_line = Stamped string string | PlainLine string

section \<open>Durations\<close>

text \<open>
  \<open>time.Duration.String\<close>.  \<open>fmt_frac v prec\<close> is the fraction of \<open>v\<close> in units of \<open>10^prec\<close>, without its
  trailing zeros, and the whole part.
\<close>

fun fmt_frac :: "int \<Rightarrow> nat \<Rightarrow> bool \<Rightarrow> string \<Rightarrow> string \<times> int" where
  "fmt_frac v 0 started acc = ((if started then CHR ''.'' # acc else acc), v)"
| "fmt_frac v (Suc prec) started acc =
     (let digit = v mod 10; started' = (started \<or> digit \<noteq> 0) in
      fmt_frac (v div 10) prec started' (if started' then digit_char (nat digit) # acc else acc))"

definition duration_unsigned :: "int \<Rightarrow> string" where
  "duration_unsigned u =
     (if u = 0 then ''0s''
      else if u < 1000 then itoa u @ ''ns''
      else if u < 1000000 then (case fmt_frac u 3 False [] of (f, n) \<Rightarrow> itoa n @ f @ [CHR 0xC2, CHR 0xB5] @ ''s'')
      else if u < 1000000000 then (case fmt_frac u 6 False [] of (f, n) \<Rightarrow> itoa n @ f @ ''ms'')
      else (case fmt_frac u 9 False [] of
              (f, seconds) \<Rightarrow>
                let minutes = seconds div 60; hours = minutes div 60;
                    s = itoa (seconds mod 60) @ f @ ''s''
                in if minutes = 0 then s
                   else if hours = 0 then itoa minutes @ ''m'' @ s
                   else itoa hours @ ''h'' @ itoa (minutes mod 60) @ ''m'' @ s))"

definition duration_text :: "int \<Rightarrow> string" where
  "duration_text d = (if d < 0 then ''-'' else []) @ duration_unsigned \<bar>d\<bar>"

section \<open>The log functions\<close>

definition version :: string where
  "version = ''2.2.2-go''"

definition print_startup :: "bool \<Rightarrow> log_line list" where
  "print_startup show_tip =
     Stamped ''I'' (''QNatter v'' @ version) #
     (if show_tip then [Stamped ''I'' ''Tips: Use `--help` to see help messages''] else [])"

definition log_config :: "config \<Rightarrow> log_line list" where
  "log_config cfg =
     [Stamped ''D''
        (''config: protocol='' @ (if cfg_udp cfg then ''udp'' else ''tcp'') @ '' bind='' @ cfg_bind_value cfg @ '':'' @
         itoa (cfg_bind_port cfg) @ '' method='' @ (if cfg_forward_method cfg = [] then ''auto'' else cfg_forward_method cfg) @
         '' target='' @ cfg_target_ip cfg @ '':'' @ itoa (cfg_target_port cfg))]"

definition log_exit_reason :: "goerror \<Rightarrow> log_line list" where
  "log_exit_reason e =
     (if errors_is e ErrMappingChanged
      then [Stamped ''I'' ''QNatter is exiting because mapped address has changed'']
      else if errors_is e ErrLocalAddressChanged
      then [Stamped ''I'' ''QNatter is exiting because local IP address has changed'']
      else [])"

definition log_retry :: "goerror \<Rightarrow> int \<Rightarrow> log_line list" where
  "log_retry e delay =
     [Stamped ''W''
        ((if errors_is e ENODEV then ''bind interface is unavailable''
          else if errors_is e EADDRNOTAVAIL then ''local address is unavailable''
          else err_text e) @ ''; retrying in '' @ duration_text delay)]"

definition log_transient_failure :: "string \<Rightarrow> goerror \<Rightarrow> nat \<Rightarrow> nat \<Rightarrow> log_line list" where
  "log_transient_failure operation e attempt limit =
     (let text1 = operation @ '' failed ('' @ itoa (int attempt) @ ''/'' @ itoa (int limit) @ ''); preserving current mapping'' in
      [Stamped ''W'' (if errors_is e ErrNoServerAvailable then text1 else text1 @ '': '' @ err_text e)])"

definition log_notify_script :: "string \<Rightarrow> log_line list" where
  "log_notify_script path = (if path = [] then [] else [Stamped ''I'' (''Calling script: '' @ path)])"

definition log_notify_result :: "string \<Rightarrow> log_line list" where
  "log_notify_result user_error = (if user_error = [] then [] else [Stamped ''W'' user_error])"

definition log_upnp_error :: "string \<Rightarrow> goerror \<Rightarrow> log_line list" where
  "log_upnp_error operation e = [Stamped ''E'' (''upnp: failed to '' @ operation @ '': '' @ err_text e)]"

definition log_upnp_found_router :: "string \<Rightarrow> log_line list" where
  "log_upnp_found_router ip = (if ip = [] then [] else [Stamped ''I'' (''[UPnP] Found router '' @ ip)])"

definition log_upnp_scanning :: "log_line list" where
  "log_upnp_scanning = [Stamped ''I'' ''Scanning UPnP Devices...'']"

definition log_close_error :: "goerror \<Rightarrow> log_line list" where
  "log_close_error e = [Stamped ''W'' (''failed to release resources: '' @ err_text e)]"

definition port_warning :: "port_report \<Rightarrow> log_line list" where
  "port_warning r =
     (if \<not> pr_checked r then []
      else if pr_target_lan r = PortClosed then [Stamped ''W'' ''!! Target port is closed !!'']
      else if pr_target_lan r = PortOpen \<and> pr_outer_lan r = PortClosed \<and> pr_outer_wan r = PortClosed
      then [Stamped ''W'' ''!! Hole punching failed !!'']
      else if pr_outer_lan r = PortOpen \<and> pr_outer_wan r = PortClosed
      then [Stamped ''W'' ''!! You may be behind a firewall !!'']
      else [])"

definition log_mapping :: "config \<Rightarrow> session_result \<Rightarrow> log_line list" where
  "log_mapping cfg r =
     (let protocol = (if cfg_udp cfg then ''udp'' else ''tcp'');
          m = sr_mapping r;
          forward = (if sr_method r \<noteq> ''none'' \<and> sr_method r \<noteq> ''test''
                     then protocol @ ''://'' @ addr_port_text (sr_target r) @ '' <--'' @ sr_method r @ ''--> '' else [])
      in (if sr_unstable r then [Stamped ''W'' ''Network is unstable, or not full cone''] else []) @
         [Stamped ''I''
            (forward @ protocol @ ''://'' @ addr_port_text (mp_inner m) @ '' <--QNatter--> '' @ protocol @ ''://'' @
             addr_port_text (mp_outer m))] @
         (if sr_method r = ''test'' then
            [Stamped ''I'' ''Test mode is on.'',
             Stamped ''I'' (''Please check [ '' @ (if cfg_udp cfg then ''udp'' else ''http'') @ ''://'' @ addr_port_text (mp_outer m) @ '' ]'')]
          else []) @
         port_warning (sr_ports r))"

lemmas app_log_defs [go_defs] =
  duration_unsigned_def duration_text_def version_def print_startup_def log_config_def log_exit_reason_def
  log_retry_def log_transient_failure_def log_notify_script_def log_notify_result_def log_upnp_error_def
  log_upnp_found_router_def log_upnp_scanning_def log_close_error_def port_warning_def log_mapping_def

lemma duration_examples:
  "duration_text 15000000000 = ''15s''"
  "duration_text 3600000000000 = ''1h0m0s''"
  "duration_text 90500000000 = ''1m30.5s''"
  "duration_text (-1500000) = ''-1.5ms''"
  by code_simp+

end
