(* ===== verification/Engine_Wire.thy ===== *)
theory Engine_Wire
  imports Engine_Session Keep_Alive
begin

text \<open>
  \<open>internal/engine/wire.go\<close>: the STUN client and the keep-alive client that a configuration stands
  for.  The bind value decides the source address and the interface of both.
\<close>

definition new_stun_client_from_config :: "config \<Rightarrow> stun_client" where
  "new_stun_client_from_config cfg =
     \<lparr>sc_servers = map (\<lambda>s. \<lparr>sv_host = sv_host s, sv_port = sv_port s\<rparr>) (cfg_stun_servers cfg),
      sc_source = bd_source (bind_from_config cfg), sc_udp = cfg_udp cfg,
      sc_transport = \<lparr>nt_timeout = 0, nt_interface = bd_interface (bind_from_config cfg), nt_reuse = True\<rparr>,
      sc_initial_source = zero_addr_port\<rparr>"

datatype keep_alive_client = TCPKeepAlive tcp_client | UDPKeepAlive udp_client

definition new_keep_alive_from_config :: "config \<Rightarrow> stun_mapping \<Rightarrow> endpoint_error + keep_alive_client" where
  "new_keep_alive_from_config cfg mapping =
     (let b = bind_from_config cfg; default_port = (if cfg_udp cfg then 53 else 80) in
      res_bind (split_host_port_default (cfg_keep_alive_server cfg) default_port) (\<lambda>(host, port).
        if cfg_udp cfg
        then Inr (UDPKeepAlive \<lparr>uc_host = host, uc_port = port, uc_source = mp_inner mapping,
                    uc_interface = bd_interface b, uc_conn = None\<rparr>)
        else Inr (TCPKeepAlive \<lparr>tc_host = host, tc_port = port, tc_source = mp_inner mapping,
                    tc_interface = bd_interface b, tc_conn = None\<rparr>)))"

fun ka_endpoint :: "keep_alive_client \<Rightarrow> string \<times> int" where
  "ka_endpoint (TCPKeepAlive c) = (tc_host c, tc_port c)"
| "ka_endpoint (UDPKeepAlive c) = (uc_host c, uc_port c)"

fun ka_source :: "keep_alive_client \<Rightarrow> addr_port" where
  "ka_source (TCPKeepAlive c) = tc_source c"
| "ka_source (UDPKeepAlive c) = uc_source c"

fun ka_interface :: "keep_alive_client \<Rightarrow> string" where
  "ka_interface (TCPKeepAlive c) = tc_interface c"
| "ka_interface (UDPKeepAlive c) = uc_interface c"

lemma split_default_port:
  assumes "split_host_port_default v d = Inr (h, p)" "1 \<le> d'" "d' \<le> 65535"
  obtains p' where "split_host_port_default v d' = Inr (h, p')" "h \<noteq> []" "1 \<le> p'" "p' \<le> 65535"
proof -
  have "\<exists>p'. split_host_port_default v d' = Inr (h, p') \<and> h \<noteq> [] \<and> 1 \<le> p' \<and> p' \<le> 65535"
    using assms unfolding split_host_port_default_def Let_def
    by (auto split: if_splits option.splits dest: parse_port_range)
  with that show ?thesis by blast
qed

lemma plain_default:
  "split_host_port_default ''119.29.29.29'' d = Inr (''119.29.29.29'', d)"
  "split_host_port_default ''www.qq.com'' d = Inr (''www.qq.com'', d)"
  by (simp_all add: go_defs)

lemma finish_keep_alive_server_splits:
  assumes "finish_keep_alive_server cfg0 = Inr cfg"
  shows "\<exists>d h p. split_host_port_default (cfg_keep_alive_server cfg) d = Inr (h, p)"
  using assms plain_default by (auto simp: finish_keep_alive_server_def split: if_splits sum.splits)

lemma parse_args_keep_alive_server:
  assumes "parse_args getenv stat args = Inr cfg"
  shows "\<exists>d h p. split_host_port_default (cfg_keep_alive_server cfg) d = Inr (h, p)"
  using assms by (auto simp: parse_args_def Let_def dest: finish_keep_alive_server_splits)

lemma parse_canonical:
  assumes "canonical_ipv4 s"
  obtains a b c d where "s = ipv4_text a b c d" "parse_addr s = Some (Addr4 a b c d)"
proof -
  from assms obtain a b c d where "ipv4_text a b c d = s"
    by (auto simp: canonical_ipv4_def split: option.splits addr.splits)
  with that parse_addr_ipv4_text show ?thesis by metis
qed

lemma ipv4_text_not_Nil: "ipv4_text a b c d \<noteq> []"
  by (simp add: ipv4_text_def byte_text_def)

text \<open>
  A configuration that \<open>ParseArgs\<close> has accepted can always be wired.  Building the keep-alive
  client cannot fail; it has a host and a port in range, keeps alive the inner address of the
  mapping it is given, and goes through the interface that the STUN client queries through; a bind
  address that was normalised is the IPv4 source of both and names no interface.
\<close>

theorem wiring_total:
  assumes "parse_args getenv stat args = Inr cfg"
  shows "\<exists>k. new_keep_alive_from_config cfg m = Inr k \<and> fst (ka_endpoint k) \<noteq> [] \<and>
      1 \<le> snd (ka_endpoint k) \<and> snd (ka_endpoint k) \<le> 65535 \<and> ka_source k = mp_inner m \<and>
      ka_interface k = nt_interface (sc_transport (new_stun_client_from_config cfg)) \<and>
      sc_servers (new_stun_client_from_config cfg) = cfg_stun_servers cfg \<and>
      (\<forall>a b c d. cfg_bind_value cfg = ipv4_text a b c d \<longrightarrow>
         sc_source (new_stun_client_from_config cfg) = AddrPort (Addr4 a b c d) (of_int (cfg_bind_port cfg)) \<and>
         ka_interface k = [])"
proof -
  obtain d h p where "split_host_port_default (cfg_keep_alive_server cfg) d = Inr (h, p)"
    using parse_args_keep_alive_server [OF assms] by blast
  then obtain p' where p': "split_host_port_default (cfg_keep_alive_server cfg) (if cfg_udp cfg then 53 else 80) = Inr (h, p')"
      "h \<noteq> []" "1 \<le> p'" "p' \<le> 65535"
    by (rule split_default_port [where d' = "if cfg_udp cfg then 53 else 80"]) auto
  have b: "bind_from_config cfg = \<lparr>bd_source = AddrPort (Addr4 a b c d) (of_int (cfg_bind_port cfg)), bd_interface = []\<rparr>"
    if "cfg_bind_value cfg = ipv4_text a b c d" for a b c d
    using that by (simp add: bind_from_config_def parse_addr_ipv4_text ipv4_text_not_Nil Let_def)
  from p' b show ?thesis
    by (cases "cfg_udp cfg")
      (auto simp: new_keep_alive_from_config_def new_stun_client_from_config_def Let_def map_idI)
qed

theorem wiring_total_witness:
  "\<exists>cfg k. parse_args (\<lambda>_. []) (\<lambda>_. None) [''-i'', ''192.168.1.2'', ''-u''] = Inr cfg \<and>
    new_keep_alive_from_config cfg zero_mapping = Inr k \<and> ka_interface k = []"
proof -
  have "\<exists>cfg. parse_args (\<lambda>_. []) (\<lambda>_. None) [''-i'', ''192.168.1.2'', ''-u''] = Inr cfg \<and>
      cfg_bind_value cfg = ipv4_text 192 168 1 2"
    by (simp add: go_defs)
  then obtain cfg where c: "parse_args (\<lambda>_. []) (\<lambda>_. None) [''-i'', ''192.168.1.2'', ''-u''] = Inr cfg"
      "cfg_bind_value cfg = ipv4_text 192 168 1 2" by blast
  with wiring_total [OF c(1), of zero_mapping] show ?thesis by blast
qed

text \<open>
  The check of the bind value lets an IPv6 literal through as an interface name, because a colon
  counts as a letter of one; the wiring then reads it as the address it is, so the program, which
  is IPv4 only everywhere else, sends its queries from an IPv6 source and binds no interface.
\<close>

lemma ipv6_loopback: "parse_addr ''::1'' = Some (Addr6 (replicate 14 0 @ [0, 1]) [])"
  by code_simp

lemma ipv6_literal_binds:
  "\<exists>cfg. parse_args (\<lambda>_. []) (\<lambda>_. None) [''-i'', ''::1''] = Inr cfg \<and>
    bind_from_config cfg = \<lparr>bd_source = AddrPort (Addr6 (replicate 14 0 @ [0, 1]) []) 0, bd_interface = []\<rparr>"
proof -
  have "\<exists>cfg. parse_args (\<lambda>_. []) (\<lambda>_. None) [''-i'', ''::1''] = Inr cfg \<and> cfg_bind_value cfg = ''::1'' \<and> cfg_bind_port cfg = 0"
    by (simp add: go_defs)
  then show ?thesis by (auto simp: bind_from_config_def ipv6_loopback)
qed

end
