(* ===== verification/Upnp_Service.thy ===== *)
theory Upnp_Service
  imports Net_Addr
begin

text \<open>
  \<open>internal/upnp/service.go\<close>: the services of a device description, the SOAP requests that add and
  delete a port mapping, and what counts as a failure in the answer.  URLs are parsed, resolved
  and printed by \<open>net/url\<close> and names are compared by \<open>strings.EqualFold\<close>; both are an argument (the
  record \<open>url_lib\<close>), as are the XML decoder's tokens and the HTTP client.
\<close>

section \<open>The libraries\<close>

text \<open>A parsed URL through its accessors: \<open>Scheme\<close>, \<open>Host\<close>, \<open>Hostname()\<close>, \<open>Port()\<close>, \<open>String()\<close>.\<close>

record url =
  u_scheme :: string
  u_host :: string
  u_hostname :: string
  u_port :: string
  u_text :: string

record url_lib =
  ul_parse :: "string \<Rightarrow> url option"
  ul_resolve :: "url \<Rightarrow> url \<Rightarrow> url"
  ul_fold :: "string \<Rightarrow> string \<Rightarrow> bool"

text \<open>
  The tokens of a document, and whether the decoder stops at the end of the input (\<open>None\<close>) or with
  a syntax error.
\<close>

datatype xml_token = StartElement string | CharData string | EndElement string | OtherToken

type_synonym xml_decoder = "string \<Rightarrow> xml_token list \<times> goerror option"

section \<open>Hosts and URLs\<close>

definition effective_port :: "url_lib \<Rightarrow> string \<Rightarrow> string \<Rightarrow> string" where
  "effective_port lib p scheme =
     (if p \<noteq> [] then p else if ul_fold lib scheme ''https'' then ''443'' else ''80'')"

definition same_host_port :: "url_lib \<Rightarrow> url \<Rightarrow> url \<Rightarrow> bool" where
  "same_host_port lib a b \<longleftrightarrow>
     u_hostname a \<noteq> [] \<and> u_hostname b \<noteq> [] \<and> ul_fold lib (u_hostname a) (u_hostname b) \<and>
     effective_port lib (u_port a) (u_scheme a) = effective_port lib (u_port b) (u_scheme b)"

definition resolve_url :: "url_lib \<Rightarrow> string \<Rightarrow> string \<Rightarrow> string" where
  "resolve_url lib value base_url =
     (if value = [] then []
      else case ul_parse lib base_url of
             None \<Rightarrow> []
           | Some base \<Rightarrow>
               if u_host base = [] then []
               else (case ul_parse lib value of
                       None \<Rightarrow> []
                     | Some ref \<Rightarrow>
                         let resolved = ul_resolve lib base ref in
                         if u_host resolved = [] then []
                         else if \<not> same_host_port lib resolved base then []
                         else u_text resolved))"

section \<open>Services\<close>

record upnp_service =
  us_type :: string
  us_id :: string
  us_scpd :: string
  us_control :: string
  us_event :: string

definition forward_service_types :: "string list" where
  "forward_service_types =
     [''urn:schemas-upnp-org:service:WANIPConnection:1'', ''urn:schemas-upnp-org:service:WANIPConnection:2'',
      ''urn:schemas-upnp-org:service:WANPPPConnection:1'']"

definition is_forward :: "upnp_service \<Rightarrow> bool" where
  "is_forward s \<longleftrightarrow> us_type s \<in> set forward_service_types \<and> us_id s \<noteq> [] \<and> us_control s \<noteq> []"

definition max_service_count :: nat where
  "max_service_count = 512"

text \<open>
  What the loop of \<open>ParseServices\<close> sees: a token it skips, a \<open>service\<close> element as \<open>DecodeElement\<close>
  fills it in, or an error of the decoder.
\<close>

datatype description_item = SkippedToken | ServiceElement upnp_service | DecoderError goerror

definition service_from_xml :: "url_lib \<Rightarrow> string \<Rightarrow> upnp_service \<Rightarrow> upnp_service" where
  "service_from_xml lib base raw =
     \<lparr>us_type = trim_space (us_type raw), us_id = trim_space (us_id raw),
      us_scpd = resolve_url lib (trim_space (us_scpd raw)) base,
      us_control = resolve_url lib (trim_space (us_control raw)) base,
      us_event = resolve_url lib (trim_space (us_event raw)) base\<rparr>"

fun parse_services_from ::
  "url_lib \<Rightarrow> string \<Rightarrow> upnp_service list \<Rightarrow> description_item list \<Rightarrow> goerror + upnp_service list" where
  "parse_services_from lib base services [] = Inr services"
| "parse_services_from lib base services (SkippedToken # items) = parse_services_from lib base services items"
| "parse_services_from lib base services (DecoderError e # items) = Inl e"
| "parse_services_from lib base services (ServiceElement raw # items) =
     (let s = service_from_xml lib base raw in
      if us_type s = [] \<or> us_id s = [] \<or> us_control s = [] then parse_services_from lib base services items
      else if max_service_count \<le> Suc (length services) then Inr (services @ [s])
      else parse_services_from lib base (services @ [s]) items)"

definition parse_services ::
  "url_lib \<Rightarrow> (string \<Rightarrow> description_item list) \<Rightarrow> string \<Rightarrow> string \<Rightarrow> goerror + upnp_service list" where
  "parse_services lib decode description base = parse_services_from lib base [] (decode description)"

definition same_origin_services :: "url_lib \<Rightarrow> upnp_service list \<Rightarrow> string \<Rightarrow> upnp_service list" where
  "same_origin_services lib services origin =
     (case ul_parse lib origin of
        None \<Rightarrow> []
      | Some base \<Rightarrow>
          if u_host base = [] then []
          else filter (\<lambda>s. case ul_parse lib (us_control s) of
                             None \<Rightarrow> False
                           | Some parsed \<Rightarrow> u_host parsed \<noteq> [] \<and> same_host_port lib parsed base) services)"

section \<open>SOAP requests\<close>

record port_mapping =
  pm_remote_host :: string
  pm_external_port :: int
  pm_protocol :: string
  pm_internal_port :: int
  pm_internal_client :: string
  pm_description :: string
  pm_lease_duration :: int

definition max_lease_duration :: int where
  "max_lease_duration = 7 * 24 * 60 * 60"

definition mapping_protocol :: "string \<Rightarrow> goerror + string" where
  "mapping_protocol value =
     (let protocol = map to_upper (trim_space value) in
      if protocol = [] then Inr ''TCP''
      else if protocol \<noteq> ''TCP'' \<and> protocol \<noteq> ''UDP'' then Inl (errorf (''unsupported UPnP protocol '' @ go_quote value))
      else Inr protocol)"

definition validate_mapping :: "port_mapping \<Rightarrow> goerror option" where
  "validate_mapping m =
     (if pm_external_port m < 0 \<or> 65535 < pm_external_port m
      then Some (errorf (''invalid UPnP external port '' @ itoa (pm_external_port m)))
      else if pm_internal_port m < 0 \<or> 65535 < pm_internal_port m
      then Some (errorf (''invalid UPnP internal port '' @ itoa (pm_internal_port m)))
      else if pm_lease_duration m < 0 \<or> max_lease_duration < pm_lease_duration m
      then Some (errorf (''invalid UPnP lease duration '' @ itoa (pm_lease_duration m)))
      else None)"

text \<open>\<open>html.EscapeString\<close>.\<close>

definition escape_char :: "char \<Rightarrow> string" where
  "escape_char c =
     (if c = CHR ''&'' then ''&amp;''
      else if c = CHR 0x27 then ''&#39;''
      else if c = CHR ''<'' then ''&lt;''
      else if c = CHR ''>'' then ''&gt;''
      else if c = CHR 0x22 then ''&#34;''
      else [c])"

definition html_escape :: "string \<Rightarrow> string" where
  "html_escape s = concat (map escape_char s)"

definition crlf :: string where
  "crlf = [CHR 0x0D, CHR 0x0A]"

definition quoted :: "string \<Rightarrow> string" where
  "quoted s = CHR 0x22 # s @ [CHR 0x22]"

text \<open>An element on a line of its own, as the body lists them.\<close>

definition soap_element :: "string \<Rightarrow> string \<Rightarrow> string" where
  "soap_element name content = ''      <'' @ name @ ''>'' @ content @ ''</'' @ name @ ''>'' @ crlf"

definition soap_envelope :: "string \<Rightarrow> string \<Rightarrow> string \<Rightarrow> string" where
  "soap_envelope action service_type elements =
     ''<?xml version='' @ quoted ''1.0'' @ '' encoding='' @ quoted ''utf-8'' @ ''?>'' @ crlf @
     ''<s:Envelope xmlns:s='' @ quoted ''http://schemas.xmlsoap.org/soap/envelope/'' @ crlf @
     ''  s:encodingStyle='' @ quoted ''http://schemas.xmlsoap.org/soap/encoding/'' @ ''>'' @ crlf @
     ''  <s:Body>'' @ crlf @
     ''    <m:'' @ action @ '' xmlns:m='' @ quoted (html_escape service_type) @ ''>'' @ crlf @
     elements @
     ''    </m:'' @ action @ ''>'' @ crlf @
     ''  </s:Body>'' @ crlf @
     ''</s:Envelope>'' @ crlf"

definition add_port_mapping_body :: "string \<Rightarrow> port_mapping \<Rightarrow> string \<Rightarrow> string \<Rightarrow> string" where
  "add_port_mapping_body service_type m protocol description =
     soap_envelope ''AddPortMapping'' service_type
      (soap_element ''NewRemoteHost'' (html_escape (pm_remote_host m)) @
       soap_element ''NewExternalPort'' (itoa (pm_external_port m)) @
       soap_element ''NewProtocol'' protocol @
       soap_element ''NewInternalPort'' (itoa (pm_internal_port m)) @
       soap_element ''NewInternalClient'' (html_escape (pm_internal_client m)) @
       soap_element ''NewEnabled'' ''1'' @
       soap_element ''NewPortMappingDescription'' (html_escape description) @
       soap_element ''NewLeaseDuration'' (itoa (pm_lease_duration m)))"

definition delete_port_mapping_body :: "string \<Rightarrow> port_mapping \<Rightarrow> string \<Rightarrow> string" where
  "delete_port_mapping_body service_type m protocol =
     soap_envelope ''DeletePortMapping'' service_type
      (soap_element ''NewRemoteHost'' (html_escape (pm_remote_host m)) @
       soap_element ''NewExternalPort'' (itoa (pm_external_port m)) @
       soap_element ''NewProtocol'' protocol)"

record http_request =
  rq_method :: string
  rq_url :: string
  rq_headers :: "(string \<times> string) list"
  rq_body :: string

definition user_agent :: string where
  "user_agent = ''curl/8.0.0 (QNatter)''"

text \<open>\<open>http.NewRequest\<close> fails on a URL that does not parse.\<close>

definition soap_request :: "url_lib \<Rightarrow> upnp_service \<Rightarrow> string \<Rightarrow> string \<Rightarrow> goerror + http_request" where
  "soap_request lib s action body =
     (case ul_parse lib (us_control s) of
        None \<Rightarrow> Inl (errorf (''parse '' @ us_control s))
      | Some _ \<Rightarrow>
          Inr \<lparr>rq_method = ''POST'', rq_url = us_control s,
               rq_headers = [(''User-Agent'', user_agent), (''Accept'', ''*/*''),
                 (''SOAPAction'', quoted (us_type s @ ''#'' @ action)), (''Content-Type'', ''text/xml''),
                 (''Connection'', ''close'')],
               rq_body = body\<rparr>)"

definition check_mapping_request :: "upnp_service \<Rightarrow> port_mapping \<Rightarrow> goerror + string" where
  "check_mapping_request s m =
     (if \<not> is_forward s then Inl (errorf (''unsupported UPnP service type '' @ go_quote (us_type s)))
      else res_bind (mapping_protocol (pm_protocol m)) (\<lambda>protocol.
        case validate_mapping m of Some e \<Rightarrow> Inl e | None \<Rightarrow> Inr protocol))"

definition new_add_port_mapping_request :: "url_lib \<Rightarrow> upnp_service \<Rightarrow> port_mapping \<Rightarrow> goerror + http_request" where
  "new_add_port_mapping_request lib s m =
     res_bind (check_mapping_request s m) (\<lambda>protocol.
       let description = (if pm_description m = [] then ''QNatter'' else pm_description m) in
       soap_request lib s ''AddPortMapping'' (add_port_mapping_body (us_type s) m protocol description))"

definition new_delete_port_mapping_request :: "url_lib \<Rightarrow> upnp_service \<Rightarrow> port_mapping \<Rightarrow> goerror + http_request" where
  "new_delete_port_mapping_request lib s m =
     res_bind (check_mapping_request s m) (\<lambda>protocol.
       soap_request lib s ''DeletePortMapping'' (delete_port_mapping_body (us_type s) m protocol))"

section \<open>SOAP answers\<close>

text \<open>
  A response is its status and its body; reading a body past its bytes ends it, or fails.
  \<open>io.ReadAll(io.LimitReader(body, n))\<close> returns at most \<open>n\<close> bytes.
\<close>

record http_response =
  rs_status :: int
  rs_body :: string
  rs_read_error :: "goerror option"

definition read_limited :: "nat \<Rightarrow> http_response \<Rightarrow> goerror + string" where
  "read_limited n resp =
     (if n \<le> length (rs_body resp) then Inr (take n (rs_body resp))
      else case rs_read_error resp of Some e \<Rightarrow> Inl e | None \<Rightarrow> Inr (rs_body resp))"

definition max_soap_body_size :: nat where
  "max_soap_body_size = 65536"

fun upnp_error_from :: "string \<Rightarrow> string \<Rightarrow> string \<Rightarrow> xml_token list \<Rightarrow> string \<times> string" where
  "upnp_error_from current code description [] = (code, description)"
| "upnp_error_from current code description (StartElement name # ts) = upnp_error_from name code description ts"
| "upnp_error_from current code description (CharData data # ts) =
     (let value = trim_space data in
      if value = [] then upnp_error_from current code description ts
      else if current = ''errorCode'' then upnp_error_from current value description ts
      else if current = ''errorDescription'' then upnp_error_from current code value ts
      else upnp_error_from current code description ts)"
| "upnp_error_from current code description (EndElement name # ts) =
     upnp_error_from (if current = name then [] else current) code description ts"
| "upnp_error_from current code description (OtherToken # ts) = upnp_error_from current code description ts"

definition parse_upnp_error :: "xml_decoder \<Rightarrow> string \<Rightarrow> string \<times> string" where
  "parse_upnp_error xml body =
     (case xml body of
        (ts, None) \<Rightarrow> upnp_error_from [] [] [] ts
      | (ts, Some e) \<Rightarrow> ([], []))"

text \<open>What \<open>doSOAP\<close> makes of the answer of the HTTP client.\<close>

definition soap_verdict :: "xml_decoder \<Rightarrow> string \<Rightarrow> goerror + http_response \<Rightarrow> goerror option" where
  "soap_verdict xml action answer =
     (case answer of
        Inl e \<Rightarrow> Some e
      | Inr resp \<Rightarrow>
          (case read_limited (max_soap_body_size + 1) resp of
             Inl e \<Rightarrow> Some e
           | Inr body \<Rightarrow>
               if max_soap_body_size < length body then Some (errorf (''upnp '' @ action @ '' response too large (limit '' @ itoa (int max_soap_body_size) @ '' bytes)''))
               else case parse_upnp_error xml body of (code, description) \<Rightarrow>
                 if code \<noteq> [] \<or> description \<noteq> []
                 then Some (errorf (''upnp '' @ action @ '' failed: ['' @ code @ ''] '' @ description))
                 else if rs_status resp < 200 \<or> 300 \<le> rs_status resp
                 then Some (errorf (''upnp '' @ action @ '' returned HTTP '' @ itoa (rs_status resp)))
                 else None))"

section \<open>What a SOAP body says\<close>

text \<open>
  The mark-up of a document: each tag with the character data before it.  \<open>html_unescape\<close> is what
  an XML reader makes of the entities of \<open>html.EscapeString\<close>.
\<close>

function xml_pairs :: "string \<Rightarrow> (string \<times> string) list" where
  "xml_pairs s =
     (case cut (CHR ''<'') s of
        None \<Rightarrow> []
      | Some (t, r) \<Rightarrow>
          (case cut (CHR ''>'') r of
             None \<Rightarrow> [(t, r)]
           | Some (g, r') \<Rightarrow> (t, g) # xml_pairs r'))"
  by pat_completeness auto
termination
proof (relation "measure length")
  fix s :: string and x t r y g r'
  assume "cut (CHR ''<'') s = Some x" "(t, r) = x" "cut (CHR ''>'') r = Some y" "(g, r') = y"
  moreover have shorter: "length v < length u" if "cut c u = Some (p, v)" for c u p v
    using that
  proof -
    from that have "c \<in> set u" and v: "v = tl (dropWhile (\<lambda>x. x \<noteq> c) u)" by (auto simp: cut_def split: if_splits)
    then have "dropWhile (\<lambda>x. x \<noteq> c) u \<noteq> []" by auto
    then have "length v < length (dropWhile (\<lambda>x. x \<noteq> c) u)" by (simp add: v)
    also have "\<dots> \<le> length u" by (rule length_dropWhile_le)
    finally show ?thesis .
  qed
  ultimately have "length r < length s" "length r' < length r" by blast+
  then show "(r', s) \<in> measure length" by simp
qed simp

declare xml_pairs.simps [simp del]

lemma cut_at: "c \<notin> set p \<Longrightarrow> cut c (p @ c # r) = Some (p, r)"
  by (auto simp: cut_def takeWhile_append dropWhile_append)

lemma xml_pairs_tag:
  "CHR ''<'' \<notin> set t \<Longrightarrow> CHR ''>'' \<notin> set g \<Longrightarrow> xml_pairs (t @ CHR ''<'' # g @ CHR ''>'' # r) = (t, g) # xml_pairs r"
  by (subst xml_pairs.simps) (simp add: cut_at)

lemma xml_pairs_end: "CHR ''<'' \<notin> set t \<Longrightarrow> xml_pairs t = []"
  by (subst xml_pairs.simps) (simp add: cut_def)

function html_unescape :: "string \<Rightarrow> string" where
  "html_unescape [] = []"
| "html_unescape (c # cs) =
     (if c = CHR ''&'' then
        if prefix ''amp;'' cs then CHR ''&'' # html_unescape (drop 4 cs)
        else if prefix ''#39;'' cs then CHR 0x27 # html_unescape (drop 4 cs)
        else if prefix ''lt;'' cs then CHR ''<'' # html_unescape (drop 3 cs)
        else if prefix ''gt;'' cs then CHR ''>'' # html_unescape (drop 3 cs)
        else if prefix ''#34;'' cs then CHR 0x22 # html_unescape (drop 4 cs)
        else c # html_unescape cs
      else c # html_unescape cs)"
  by pat_completeness auto
termination by (relation "measure length") auto

lemma html_unescape_escape [simp]: "html_unescape (html_escape s) = s"
proof (induction s)
  case Nil
  show ?case by (simp add: html_escape_def)
next
  case (Cons c cs)
  have "html_escape (c # cs) = escape_char c @ html_escape cs" by (simp add: html_escape_def)
  with Cons.IH show ?case by (simp add: escape_char_def)
qed

lemma html_escape_chars:
  "c \<in> set (html_escape s) \<Longrightarrow> c \<noteq> CHR ''<'' \<and> c \<noteq> CHR ''>'' \<and> c \<noteq> CHR 0x22"
  by (auto simp: html_escape_def escape_char_def split: if_splits)

lemma crlf_no_tag [simp]: "CHR ''<'' \<notin> set crlf" "CHR ''>'' \<notin> set crlf"
  by (simp_all add: crlf_def)

definition plain :: "string \<Rightarrow> bool" where
  "plain s \<longleftrightarrow> CHR ''<'' \<notin> set s \<and> CHR ''>'' \<notin> set s"

lemma plain_escape [simp]: "plain (html_escape s)"
  using html_escape_chars by (auto simp: plain_def)

lemma itoa_chars: "c \<in> set (itoa i) \<Longrightarrow> c = CHR ''-'' \<or> is_dec_digit c"
  by (auto simp: itoa_def split: if_splits dest: format_uint_dec_chars)

lemma plain_itoa [simp]: "plain (itoa i)"
  using itoa_chars [of "CHR ''<''" i] itoa_chars [of "CHR ''>''" i] by (auto simp: plain_def is_dec_digit_def)

lemma plain_append [simp]: "plain (s @ t) \<longleftrightarrow> plain s \<and> plain t"
  by (auto simp: plain_def)

lemma xml_pairs_element:
  assumes "plain p" "plain name" "plain content"
  shows "xml_pairs (p @ soap_element name content @ r) =
    (p @ ''      '', name) # (content, CHR ''/'' # name) # xml_pairs (crlf @ r)"
proof -
  have "xml_pairs ((p @ ''      '') @ CHR ''<'' # name @ CHR ''>'' # (content @ CHR ''<'' # (CHR ''/'' # name) @ CHR ''>'' # crlf @ r)) =
    (p @ ''      '', name) # (content, CHR ''/'' # name) # xml_pairs (crlf @ r)"
    using assms by (subst xml_pairs_tag, simp add: plain_def, simp add: plain_def)
      (subst xml_pairs_tag, simp add: plain_def, simp add: plain_def, simp)
  then show ?thesis by (simp add: soap_element_def)
qed

text \<open>The fields of a body: the closing tags of the elements, with their content unescaped.\<close>

definition soap_fields :: "string \<Rightarrow> (string \<times> string) list" where
  "soap_fields body =
     map (\<lambda>(t, g). (drop 1 g, html_unescape t)) (filter (\<lambda>(t, g). prefix ''/New'' g) (xml_pairs body))"

definition soap_tags :: "string \<Rightarrow> string list" where
  "soap_tags body = map snd (xml_pairs body)"

definition soap_prologue :: "string \<Rightarrow> string \<Rightarrow> string list" where
  "soap_prologue action service_type =
     [''?xml version='' @ quoted ''1.0'' @ '' encoding='' @ quoted ''utf-8'' @ ''?'',
      ''s:Envelope xmlns:s='' @ quoted ''http://schemas.xmlsoap.org/soap/envelope/'' @ crlf @
        ''  s:encodingStyle='' @ quoted ''http://schemas.xmlsoap.org/soap/encoding/'',
      ''s:Body'', ''m:'' @ action @ '' xmlns:m='' @ quoted (html_escape service_type)]"

definition soap_epilogue :: "string \<Rightarrow> string" where
  "soap_epilogue action = ''    </m:'' @ action @ ''>'' @ crlf @ ''  </s:Body>'' @ crlf @ ''</s:Envelope>'' @ crlf"

lemma soap_envelope_shape:
  "soap_envelope action st elements =
    [] @ CHR ''<'' # (soap_prologue action st ! 0) @ CHR ''>'' #
    (crlf @ CHR ''<'' # (soap_prologue action st ! 1) @ CHR ''>'' #
    ((crlf @ ''  '') @ CHR ''<'' # (soap_prologue action st ! 2) @ CHR ''>'' #
    ((crlf @ ''    '') @ CHR ''<'' # (soap_prologue action st ! 3) @ CHR ''>'' #
    (crlf @ elements @ soap_epilogue action))))"
  by (simp add: soap_envelope_def soap_prologue_def soap_epilogue_def numeral_2_eq_2 numeral_3_eq_3)

lemma xml_pairs_envelope:
  assumes "plain action"
  shows "xml_pairs (soap_envelope action st elements) =
    ([], soap_prologue action st ! 0) # (crlf, soap_prologue action st ! 1) # (crlf @ ''  '', soap_prologue action st ! 2) #
    (crlf @ ''    '', soap_prologue action st ! 3) # xml_pairs (crlf @ elements @ soap_epilogue action)"
proof -
  have p: "CHR ''>'' \<notin> set (soap_prologue action st ! i)" if "i < 4" for i
  proof -
    from that consider "i = 0" | "i = 1" | "i = 2" | "i = 3" by linarith
    then show ?thesis
      using assms plain_escape [of st]
      by cases (simp_all add: soap_prologue_def quoted_def crlf_def plain_def numeral_2_eq_2 numeral_3_eq_3)
  qed
  show ?thesis
    unfolding soap_envelope_shape
    by (subst xml_pairs_tag, simp, simp add: p)+ simp
qed

lemma xml_pairs_epilogue:
  assumes "plain action"
  shows "xml_pairs (crlf @ soap_epilogue action) =
    [(crlf @ ''    '', ''/m:'' @ action), (crlf @ ''  '', ''/s:Body''), (crlf, ''/s:Envelope'')]"
proof -
  have "xml_pairs ((crlf @ ''    '') @ CHR ''<'' # (''/m:'' @ action) @ CHR ''>'' #
      ((crlf @ ''  '') @ CHR ''<'' # ''/s:Body'' @ CHR ''>'' # (crlf @ CHR ''<'' # ''/s:Envelope'' @ CHR ''>'' # crlf))) =
    [(crlf @ ''    '', ''/m:'' @ action), (crlf @ ''  '', ''/s:Body''), (crlf, ''/s:Envelope'')]"
    using assms
    by (subst xml_pairs_tag, simp, simp add: plain_def) (subst xml_pairs_tag, simp, simp,
      subst xml_pairs_tag, simp, simp, simp add: xml_pairs_end)
  then show ?thesis by (simp add: soap_epilogue_def)
qed

definition element_tags :: "string \<Rightarrow> string list" where
  "element_tags name = [name, CHR ''/'' # name]"

definition soap_skeleton :: "string \<Rightarrow> string \<Rightarrow> string list \<Rightarrow> string list" where
  "soap_skeleton action service_type names =
     soap_prologue action service_type @ concat (map element_tags names) @ [''/m:'' @ action, ''/s:Body'', ''/s:Envelope'']"

text \<open>A body whose elements are listed by name and content.\<close>

definition listed_elements :: "(string \<times> string) list \<Rightarrow> string" where
  "listed_elements fs = concat (map (\<lambda>(n, c). soap_element n c) fs)"

lemma xml_pairs_listed:
  assumes "\<forall>(n, c) \<in> set fs. plain n \<and> plain c" "plain action"
  shows "xml_pairs (crlf @ listed_elements fs @ soap_epilogue action) =
    concat (map (\<lambda>(n, c). [(crlf @ ''      '', n), (c, CHR ''/'' # n)]) fs) @
    [(crlf @ ''    '', ''/m:'' @ action), (crlf @ ''  '', ''/s:Body''), (crlf, ''/s:Envelope'')]"
  using assms(1)
proof (induction fs)
  case Nil
  from xml_pairs_epilogue [OF assms(2)] show ?case by (simp add: listed_elements_def)
next
  case (Cons f fs)
  obtain n c where f: "f = (n, c)" by (cases f)
  with Cons.prems have "plain n" "plain c" by simp_all
  then have "xml_pairs (crlf @ soap_element n c @ listed_elements fs @ soap_epilogue action) =
      (crlf @ ''      '', n) # (c, CHR ''/'' # n) # xml_pairs (crlf @ listed_elements fs @ soap_epilogue action)"
    by (intro xml_pairs_element) (simp_all add: plain_def)
  moreover from Cons.prems have "\<forall>(n, c) \<in> set fs. plain n \<and> plain c" by simp
  note Cons.IH [OF this]
  ultimately show ?case by (simp add: listed_elements_def f)
qed

lemma soap_listed:
  assumes "\<forall>(n, c) \<in> set fs. plain n \<and> plain c \<and> prefix ''New'' n" "plain action" "\<not> prefix ''New'' action"
  shows "soap_tags (soap_envelope action st (listed_elements fs)) = soap_skeleton action st (map fst fs) \<and>
    soap_fields (soap_envelope action st (listed_elements fs)) = map (\<lambda>(n, c). (n, html_unescape c)) fs"
proof
  let ?l = "concat (map (\<lambda>(n, c). [(crlf @ ''      '', n), (c, CHR ''/'' # n)]) fs)"
  have fs: "\<forall>(n, c) \<in> set fs. plain n \<and> plain c" using assms(1) by blast
  have body: "xml_pairs (soap_envelope action st (listed_elements fs)) =
      ([], soap_prologue action st ! 0) # (crlf, soap_prologue action st ! 1) # (crlf @ ''  '', soap_prologue action st ! 2) #
      (crlf @ ''    '', soap_prologue action st ! 3) # ?l @
      [(crlf @ ''    '', ''/m:'' @ action), (crlf @ ''  '', ''/s:Body''), (crlf, ''/s:Envelope'')]"
    unfolding xml_pairs_envelope [OF assms(2)] xml_pairs_listed [OF fs assms(2)] ..
  have l: "map snd ?l = concat (map (element_tags \<circ> fst) fs)"
    by (induction fs) (auto simp: element_tags_def)
  show "soap_tags (soap_envelope action st (listed_elements fs)) = soap_skeleton action st (map fst fs)"
    unfolding soap_tags_def soap_skeleton_def body
    by (simp add: l soap_prologue_def numeral_2_eq_2 numeral_3_eq_3)
  have "map (\<lambda>(t, g). (drop 1 g, html_unescape t)) (filter (\<lambda>(t, g). prefix ''/New'' g) ?l) =
      map (\<lambda>(n, c). (n, html_unescape c)) fs"
    using assms(1)
  proof (induction fs)
    case (Cons f fs)
    then show ?case by (cases f) (auto simp: prefix_def)
  qed simp
  then show "soap_fields (soap_envelope action st (listed_elements fs)) = map (\<lambda>(n, c). (n, html_unescape c)) fs"
    unfolding soap_fields_def body
    by (simp add: soap_prologue_def numeral_2_eq_2 numeral_3_eq_3)
qed

definition add_fields :: "port_mapping \<Rightarrow> string \<Rightarrow> string \<Rightarrow> (string \<times> string) list" where
  "add_fields m protocol description =
     [(''NewRemoteHost'', pm_remote_host m), (''NewExternalPort'', itoa (pm_external_port m)), (''NewProtocol'', protocol),
      (''NewInternalPort'', itoa (pm_internal_port m)), (''NewInternalClient'', pm_internal_client m), (''NewEnabled'', ''1''),
      (''NewPortMappingDescription'', description), (''NewLeaseDuration'', itoa (pm_lease_duration m))]"

definition delete_fields :: "port_mapping \<Rightarrow> string \<Rightarrow> (string \<times> string) list" where
  "delete_fields m protocol =
     [(''NewRemoteHost'', pm_remote_host m), (''NewExternalPort'', itoa (pm_external_port m)), (''NewProtocol'', protocol)]"

lemma html_escape_plain:
  "(\<And>c. c \<in> set s \<Longrightarrow> c \<notin> {CHR ''&'', CHR 0x27, CHR ''<'', CHR ''>'', CHR 0x22}) \<Longrightarrow> html_escape s = s"
  by (induction s) (auto simp: html_escape_def escape_char_def)

lemma html_escape_itoa: "html_escape (itoa i) = itoa i"
proof (rule html_escape_plain)
  fix c assume "c \<in> set (itoa i)"
  from itoa_chars [OF this] show "c \<notin> {CHR ''&'', CHR 0x27, CHR ''<'', CHR ''>'', CHR 0x22}"
    by (auto simp: is_dec_digit_def)
qed

lemma html_unescape_itoa: "html_unescape (itoa i) = itoa i"
  by (metis html_escape_itoa html_unescape_escape)

lemma add_body_listed:
  assumes "protocol = ''TCP'' \<or> protocol = ''UDP''"
  shows "soap_tags (add_port_mapping_body st m protocol d) =
      soap_skeleton ''AddPortMapping'' st (map fst (add_fields m protocol d)) \<and>
    soap_fields (add_port_mapping_body st m protocol d) = add_fields m protocol d"
proof -
  let ?fs = "[(''NewRemoteHost'', html_escape (pm_remote_host m)), (''NewExternalPort'', itoa (pm_external_port m)),
      (''NewProtocol'', protocol), (''NewInternalPort'', itoa (pm_internal_port m)),
      (''NewInternalClient'', html_escape (pm_internal_client m)), (''NewEnabled'', ''1''),
      (''NewPortMappingDescription'', html_escape d), (''NewLeaseDuration'', itoa (pm_lease_duration m))]"
  have b: "add_port_mapping_body st m protocol d = soap_envelope ''AddPortMapping'' st (listed_elements ?fs)"
    by (simp add: add_port_mapping_body_def listed_elements_def)
  have p: "plain protocol" "html_unescape protocol = protocol" using assms by (auto simp: plain_def)
  have u: "map (\<lambda>(n, c). (n, html_unescape c)) ?fs = add_fields m protocol d"
    by (simp add: add_fields_def html_unescape_itoa p)
  have "\<forall>(n, c) \<in> set ?fs. plain n \<and> plain c \<and> prefix ''New'' n"
    by (simp add: p) (simp add: plain_def)
  from soap_listed [OF this, of "''AddPortMapping''" st] u b show ?thesis
    by (simp add: plain_def add_fields_def)
qed

lemma delete_body_listed:
  assumes "protocol = ''TCP'' \<or> protocol = ''UDP''"
  shows "soap_tags (delete_port_mapping_body st m protocol) =
      soap_skeleton ''DeletePortMapping'' st (map fst (delete_fields m protocol)) \<and>
    soap_fields (delete_port_mapping_body st m protocol) = delete_fields m protocol"
proof -
  let ?fs = "[(''NewRemoteHost'', html_escape (pm_remote_host m)), (''NewExternalPort'', itoa (pm_external_port m)),
      (''NewProtocol'', protocol)]"
  have b: "delete_port_mapping_body st m protocol = soap_envelope ''DeletePortMapping'' st (listed_elements ?fs)"
    by (simp add: delete_port_mapping_body_def listed_elements_def)
  have p: "plain protocol" "html_unescape protocol = protocol" using assms by (auto simp: plain_def)
  have u: "map (\<lambda>(n, c). (n, html_unescape c)) ?fs = delete_fields m protocol"
    by (simp add: delete_fields_def html_unescape_itoa p)
  have "\<forall>(n, c) \<in> set ?fs. plain n \<and> plain c \<and> prefix ''New'' n"
    by (simp add: p) (simp add: plain_def)
  from soap_listed [OF this, of "''DeletePortMapping''" st] u b show ?thesis
    by (simp add: plain_def delete_fields_def)
qed

lemma mapping_protocol_cases: "mapping_protocol v = Inr p \<Longrightarrow> p = ''TCP'' \<or> p = ''UDP''"
  by (auto simp: mapping_protocol_def Let_def split: if_splits)

text \<open>
  C36: no value can change the meaning of a SOAP request.  When a request is built, for whatever
  remote host, client and description, an XML reader finds exactly the elements the action has,
  in order, and in them, unescaped, exactly the mapping's values, with the protocol \<open>TCP\<close> or \<open>UDP\<close>,
  both ports in 0..65535 and the lease in 0..604800.
\<close>

theorem soap_request_not_injectable:
  assumes "new_add_port_mapping_request lib s m = Inr add" "new_delete_port_mapping_request lib s m = Inr del"
  shows "\<exists>protocol description.
    (protocol = ''TCP'' \<or> protocol = ''UDP'') \<and> description = (if pm_description m = [] then ''QNatter'' else pm_description m) \<and>
    0 \<le> pm_external_port m \<and> pm_external_port m \<le> 65535 \<and> 0 \<le> pm_internal_port m \<and> pm_internal_port m \<le> 65535 \<and>
    0 \<le> pm_lease_duration m \<and> pm_lease_duration m \<le> 604800 \<and>
    rq_url add = us_control s \<and> rq_url del = us_control s \<and>
    soap_tags (rq_body add) = soap_skeleton ''AddPortMapping'' (us_type s) (map fst (add_fields m protocol description)) \<and>
    soap_fields (rq_body add) = add_fields m protocol description \<and>
    soap_tags (rq_body del) = soap_skeleton ''DeletePortMapping'' (us_type s) (map fst (delete_fields m protocol)) \<and>
    soap_fields (rq_body del) = delete_fields m protocol"
proof -
  from assms(1) obtain protocol where p: "mapping_protocol (pm_protocol m) = Inr protocol" "validate_mapping m = None"
    by (auto simp: new_add_port_mapping_request_def check_mapping_request_def split: if_splits option.splits)
  obtain d where d: "d = (if pm_description m = [] then ''QNatter'' else pm_description m)" by blast
  have v: "0 \<le> pm_external_port m \<and> pm_external_port m \<le> 65535 \<and> 0 \<le> pm_internal_port m \<and> pm_internal_port m \<le> 65535 \<and>
    0 \<le> pm_lease_duration m \<and> pm_lease_duration m \<le> 604800"
    using p(2) by (auto simp: validate_mapping_def max_lease_duration_def split: if_splits)
  have a: "rq_url add = us_control s" "rq_body add = add_port_mapping_body (us_type s) m protocol d"
    and b: "rq_url del = us_control s" "rq_body del = delete_port_mapping_body (us_type s) m protocol"
    using assms p d
    by (auto simp: new_add_port_mapping_request_def new_delete_port_mapping_request_def check_mapping_request_def
        soap_request_def Let_def split: if_splits option.splits)
  note pr = mapping_protocol_cases [OF p(1)]
  note add = add_body_listed [OF pr, of "us_type s" m d] and del = delete_body_listed [OF pr, of "us_type s" m]
  show ?thesis
    unfolding a b
    by (rule exI [of _ protocol], rule exI [of _ d])
      (intro conjI v [THEN conjunct1] v [THEN conjunct2, THEN conjunct1] pr d refl
        add [THEN conjunct1] add [THEN conjunct2] del [THEN conjunct1] del [THEN conjunct2]; use v in simp)
qed

section \<open>Faults\<close>

lemma upnp_error_from_keeps:
  "upnp_error_from cur code desc ts = (code', desc') \<Longrightarrow> (code \<noteq> [] \<longrightarrow> code' \<noteq> []) \<and> (desc \<noteq> [] \<longrightarrow> desc' \<noteq> [])"
  by (induction cur code desc ts rule: upnp_error_from.induct) (auto simp: Let_def split: if_splits)

lemma upnp_error_from_append:
  "\<exists>cur' code' desc'. upnp_error_from cur code desc (ts @ us) = upnp_error_from cur' code' desc' us"
  by (induction cur code desc ts rule: upnp_error_from.induct) (auto simp: Let_def)

lemma upnp_error_found:
  assumes "trim_space data \<noteq> []" "name = ''errorCode'' \<or> name = ''errorDescription''"
    "upnp_error_from cur code desc (pre @ StartElement name # CharData data # rest) = (code', desc')"
  shows "code' \<noteq> [] \<or> desc' \<noteq> []"
proof -
  obtain c1 k1 d1 where "upnp_error_from cur code desc (pre @ StartElement name # CharData data # rest) =
      upnp_error_from c1 k1 d1 (StartElement name # CharData data # rest)"
    using upnp_error_from_append by blast
  then show ?thesis
    using assms upnp_error_from_keeps [of name "trim_space data" d1 rest code' desc']
      upnp_error_from_keeps [of name k1 "trim_space data" rest code' desc']
    by auto
qed


section \<open>Same origin\<close>

definition confined_url :: "url_lib \<Rightarrow> string \<Rightarrow> string \<Rightarrow> bool" where
  "confined_url lib origin u \<longleftrightarrow>
     (\<exists>base parsed. ul_parse lib origin = Some base \<and> ul_parse lib u = Some parsed \<and> same_host_port lib parsed base)"

lemma same_origin_confined:
  "s \<in> set (same_origin_services lib services origin) \<Longrightarrow> s \<in> set services \<and> confined_url lib origin (us_control s)"
  by (cases "ul_parse lib origin") (auto simp: same_origin_services_def confined_url_def split: option.splits if_splits)

lemma parse_services_from_facts:
  "length services < max_service_count \<Longrightarrow> parse_services_from lib base services items = Inr ss \<Longrightarrow>
    length ss \<le> max_service_count \<and>
    (\<forall>s \<in> set ss. s \<in> set services \<or>
      (\<exists>raw. s = service_from_xml lib base raw \<and> us_type s \<noteq> [] \<and> us_id s \<noteq> [] \<and> us_control s \<noteq> []))"
proof (induction lib base services items rule: parse_services_from.induct)
  case (4 lib base services raw items)
  then show ?case by (auto simp: Let_def split: if_splits)
qed auto

lemma parse_services_facts:
  assumes "parse_services lib decode description base = Inr ss"
  shows "length ss \<le> 512 \<and>
    (\<forall>s \<in> set ss. \<exists>raw. s = service_from_xml lib base raw \<and> us_type s \<noteq> [] \<and> us_id s \<noteq> [] \<and> us_control s \<noteq> [])"
  using parse_services_from_facts [of "[]" lib base "decode description" ss] assms
  by (auto simp: parse_services_def max_service_count_def)

section \<open>A sample\<close>

definition sample_url :: "string \<Rightarrow> string \<Rightarrow> url" where
  "sample_url host path = \<lparr>u_scheme = ''http'', u_host = host, u_hostname = host, u_port = [], u_text = ''http://'' @ host @ path\<rparr>"

text \<open>A library that knows URLs of the form \<open>http://host/path\<close>.\<close>

definition sample_lib :: url_lib where
  "sample_lib = \<lparr>ul_parse = (\<lambda>s. if prefix ''http://'' s then
       (let r = drop 7 s; host = takeWhile (\<lambda>c. c \<noteq> CHR ''/'') r in Some (sample_url host (drop (length host) r)))
       else Some \<lparr>u_scheme = [], u_host = [], u_hostname = [], u_port = [], u_text = s\<rparr>),
     ul_resolve = (\<lambda>base ref. if u_host ref = [] then sample_url (u_host base) (u_text ref) else ref),
     ul_fold = (=)\<rparr>"

definition sample_service :: upnp_service where
  "sample_service = \<lparr>us_type = ''urn:schemas-upnp-org:service:WANIPConnection:1'', us_id = ''wan'', us_scpd = [],
     us_control = ''http://192.168.1.1/ctl'', us_event = []\<rparr>"

definition sample_port_mapping :: port_mapping where
  "sample_port_mapping = \<lparr>pm_remote_host = [], pm_external_port = 4000, pm_protocol = ''TCP'', pm_internal_port = 4000,
     pm_internal_client = ''<&>'', pm_description = ''QNatter'', pm_lease_duration = 45\<rparr>"

lemmas upnp_samples = sample_url_def sample_lib_def sample_service_def sample_port_mapping_def

lemma sample_parse: "ul_parse sample_lib ''http://192.168.1.1/ctl'' = Some (sample_url ''192.168.1.1'' ''/ctl'')"
  by (simp add: sample_lib_def sample_url_def Let_def)

lemma sample_check: "check_mapping_request sample_service sample_port_mapping = Inr ''TCP''"
  by (simp add: check_mapping_request_def is_forward_def forward_service_types_def sample_service_def mapping_protocol_def
      sample_port_mapping_def trim_space_def is_space_def to_upper_def validate_mapping_def max_lease_duration_def)

theorem soap_request_not_injectable_witness:
  "\<exists>add protocol. new_add_port_mapping_request sample_lib sample_service sample_port_mapping = Inr add \<and>
    soap_fields (rq_body add) = add_fields sample_port_mapping protocol ''QNatter''"
proof -
  obtain add del where a: "new_add_port_mapping_request sample_lib sample_service sample_port_mapping = Inr add"
      "new_delete_port_mapping_request sample_lib sample_service sample_port_mapping = Inr del"
    by (simp add: new_add_port_mapping_request_def new_delete_port_mapping_request_def sample_check soap_request_def
        sample_parse sample_service_def [THEN arg_cong [where f = us_control]] Let_def)
  from soap_request_not_injectable [OF a] a(1) show ?thesis by (auto simp: sample_port_mapping_def)
qed


end
