(* ===== verification/Upnp_Discovery.thy ===== *)
theory Upnp_Discovery
  imports Upnp_Service Socket_Options
begin

text \<open>
  \<open>internal/upnp/discovery.go\<close>: the search for routers over SSDP.  The socket is an argument: what
  opening, the deadline and each write answer, and the sequence of datagrams, timeouts and errors
  the reads see.
\<close>

section \<open>Responses\<close>

record location =
  loc_ip :: string
  loc_url :: string

text \<open>\<open>net.ParseIP\<close>: a literal without a zone, in its 16-byte form.\<close>

fun as16 :: "addr \<Rightarrow> byte list option" where
  "as16 AddrInvalid = None"
| "as16 (Addr4 a b c d) = Some (replicate 10 0 @ [0xff, 0xff, a, b, c, d])"
| "as16 (Addr6 bs zone) = (if zone = [] then Some bs else None)"

definition parse_ip :: "string \<Rightarrow> byte list option" where
  "parse_ip s = (case parse_addr s of None \<Rightarrow> None | Some a \<Rightarrow> as16 a)"

definition same_ip :: "string \<Rightarrow> string \<Rightarrow> bool" where
  "same_ip a b \<longleftrightarrow> parse_ip a \<noteq> None \<and> parse_ip b \<noteq> None \<and> parse_ip a = parse_ip b"

text \<open>\<open>lookup\<close> is the resolver: the addresses of a host name, or nothing when it fails.\<close>

definition same_location_host :: "url_lib \<Rightarrow> (string \<Rightarrow> string list option) \<Rightarrow> string \<Rightarrow> string \<Rightarrow> bool" where
  "same_location_host lib lookup source_ip location \<longleftrightarrow>
     (case ul_parse lib location of
        None \<Rightarrow> False
      | Some parsed \<Rightarrow>
          if u_scheme parsed \<noteq> ''http'' \<and> u_scheme parsed \<noteq> ''https'' then False
          else if u_hostname parsed = [] then False
          else if parse_ip (u_hostname parsed) \<noteq> None then same_ip (u_hostname parsed) source_ip
          else (case lookup (u_hostname parsed) of
                  None \<Rightarrow> False
                | Some addrs \<Rightarrow> list_ex (\<lambda>a. same_ip a source_ip) addrs))"

fun ssdp_lines :: "url_lib \<Rightarrow> (string \<Rightarrow> string list option) \<Rightarrow> string \<Rightarrow> string list \<Rightarrow> location option" where
  "ssdp_lines lib lookup ip [] = None"
| "ssdp_lines lib lookup ip (l # ls) =
     (case cut (CHR '':'') (trim_space l) of
        None \<Rightarrow> ssdp_lines lib lookup ip ls
      | Some (name, value) \<Rightarrow>
          if \<not> equal_fold name ''LOCATION'' then ssdp_lines lib lookup ip ls
          else
            let url = trim_space value in
            if \<not> same_location_host lib lookup ip url then None
            else Some \<lparr>loc_ip = ip, loc_url = url\<rparr>)"

definition parse_ssdp_response :: "url_lib \<Rightarrow> (string \<Rightarrow> string list option) \<Rightarrow> string \<Rightarrow> string \<Rightarrow> location option" where
  "parse_ssdp_response lib lookup data ip = ssdp_lines lib lookup ip (split_on (CHR 0x0A) data)"

section \<open>The discovery loop\<close>

definition max_ssdp_replies :: nat where
  "max_ssdp_replies = 256"

definition max_ssdp_locations :: nat where
  "max_ssdp_locations = 64"

definition max_ssdp_sources :: nat where
  "max_ssdp_sources = 16"

definition ssdp_read_buffer_size :: nat where
  "ssdp_read_buffer_size = 4096"

definition max_ssdp_datagram :: nat where
  "max_ssdp_datagram = 65507"

text \<open>
  What an iteration meets: the end of the context, a datagram with the text of its source address,
  the timeout of the deadline, or another read error.
\<close>

datatype ssdp_event = SsdpContextDone | Datagram string string | SsdpTimeout | SsdpReadError goerror

record ssdp_state =
  sp_locations :: "location list"
  sp_sources :: "string list"
  sp_buffer :: nat
  sp_replies :: nat

definition ssdp_start :: ssdp_state where
  "ssdp_start = \<lparr>sp_locations = [], sp_sources = [], sp_buffer = ssdp_read_buffer_size, sp_replies = 0\<rparr>"

text \<open>One datagram: the read fills the buffer with at most its length.\<close>

definition ssdp_datagram ::
  "url_lib \<Rightarrow> (string \<Rightarrow> string list option) \<Rightarrow> string \<Rightarrow> string \<Rightarrow> ssdp_state \<Rightarrow> ssdp_state" where
  "ssdp_datagram lib lookup data ip s0 =
     (let n = min (length data) (sp_buffer s0); s = s0\<lparr>sp_replies := Suc (sp_replies s0)\<rparr> in
      if sp_buffer s \<le> n \<and> sp_buffer s < max_ssdp_datagram
      then s\<lparr>sp_buffer := min (sp_buffer s * 2) max_ssdp_datagram\<rparr>
      else if ip \<noteq> [] \<and> ip \<notin> set (sp_sources s) \<and> max_ssdp_sources \<le> length (sp_sources s) then s
      else
        let s1 = (if ip \<noteq> [] \<and> ip \<notin> set (sp_sources s) then s\<lparr>sp_sources := ip # sp_sources s\<rparr> else s) in
        case parse_ssdp_response lib lookup (take n data) ip of
          None \<Rightarrow> s1
        | Some l \<Rightarrow>
            if l \<in> set (sp_locations s1) then s1
            else s1\<lparr>sp_locations := sp_locations s1 @ [l]\<rparr>)"

definition ssdp_full :: "ssdp_state \<Rightarrow> bool" where
  "ssdp_full s \<longleftrightarrow> max_ssdp_replies \<le> sp_replies s \<or> max_ssdp_locations \<le> length (sp_locations s)"

text \<open>\<open>None\<close> means that the loop still waits for the next datagram.\<close>

fun ssdp_loop ::
  "url_lib \<Rightarrow> (string \<Rightarrow> string list option) \<Rightarrow> ssdp_event list \<Rightarrow> ssdp_state \<Rightarrow> (goerror + location list) option" where
  "ssdp_loop lib lookup [] s = (if ssdp_full s then Some (Inr (sp_locations s)) else None)"
| "ssdp_loop lib lookup (SsdpContextDone # evs) s = Some (Inr (sp_locations s))"
| "ssdp_loop lib lookup (Datagram data ip # evs) s =
     (if ssdp_full s then Some (Inr (sp_locations s)) else ssdp_loop lib lookup evs (ssdp_datagram lib lookup data ip s))"
| "ssdp_loop lib lookup (SsdpTimeout # evs) s = Some (Inr (sp_locations s))"
| "ssdp_loop lib lookup (SsdpReadError e # evs) s =
     (if ssdp_full s then Some (Inr (sp_locations s)) else Some (Inl e))"

section \<open>Searching\<close>

definition ssdp_mx :: int where
  "ssdp_mx = 2"

definition ssdp_address :: string where
  "ssdp_address = ''239.255.255.250:1900''"

definition search_message :: "string \<Rightarrow> string" where
  "search_message st =
     ''M-SEARCH * HTTP/1.1'' @ crlf @
     ''ST: '' @ st @ crlf @
     ''MX: '' @ itoa ssdp_mx @ crlf @
     ''MAN: '' @ quoted ''ssdp:discover'' @ crlf @
     ''HOST: '' @ ssdp_address @ crlf @
     crlf"

definition search_messages :: "string list" where
  "search_messages = [search_message ''ssdp:all'', search_message ''upnp:rootdevice'']"

text \<open>
  The options of a search, and the socket it meets: \<open>se_open\<close> answers the listening on a network and
  address with socket options, \<open>se_deadline\<close> the deadline that lies so many nanoseconds ahead.
\<close>

record discover_options =
  dc_bind_ip :: string
  dc_interface :: string
  dc_timeout :: int

record ssdp_env =
  se_open :: "string \<Rightarrow> string \<Rightarrow> sock_options \<Rightarrow> goerror option"
  se_deadline :: "int \<Rightarrow> goerror option"
  se_write :: "string \<Rightarrow> goerror option"
  se_lookup :: "string \<Rightarrow> string list option"
  se_events :: "ssdp_event list"

fun first_write_error :: "ssdp_env \<Rightarrow> string list \<Rightarrow> goerror option" where
  "first_write_error env [] = None"
| "first_write_error env (m # ms) = (case se_write env m of Some e \<Rightarrow> Some e | None \<Rightarrow> first_write_error env ms)"

text \<open>The time for the replies is the time limit of the search, but no longer than devices may take.\<close>

definition discover_timeout :: "int \<Rightarrow> int" where
  "discover_timeout timeout = (if timeout \<le> 0 then ssdp_mx * 1000000000 else timeout)"

definition listen_window :: "int \<Rightarrow> int" where
  "listen_window limit = (let window = ssdp_mx * 1000000000 in if limit < window then limit else window)"

definition discover_locations :: "url_lib \<Rightarrow> ssdp_env \<Rightarrow> int \<Rightarrow> (goerror + location list) option" where
  "discover_locations lib env limit =
     (case se_deadline env (listen_window limit) of
        Some e \<Rightarrow> Some (Inl e)
      | None \<Rightarrow>
          (case first_write_error env search_messages of
             Some e \<Rightarrow> Some (Inl e)
           | None \<Rightarrow> ssdp_loop lib (se_lookup env) (se_events env) ssdp_start))"

text \<open>The address the socket is bound to.\<close>

definition discover_address :: "string \<Rightarrow> string" where
  "discover_address bind_ip =
     (if bind_ip \<noteq> [] \<and> bind_ip \<noteq> ''0.0.0.0'' then join_host_port bind_ip ''0'' else '':0'')"

definition default_open_packet :: "ssdp_env \<Rightarrow> string \<Rightarrow> string \<Rightarrow> discover_options \<Rightarrow> goerror option" where
  "default_open_packet env network address opts =
     se_open env network address \<lparr>so_interface = dc_interface opts, so_reuse = True, so_disable_reuse_port = False\<rparr>"

definition discover :: "url_lib \<Rightarrow> ssdp_env \<Rightarrow> discover_options \<Rightarrow> (goerror + location list) option" where
  "discover lib env opts =
     (case default_open_packet env ''udp4'' (discover_address (dc_bind_ip opts)) opts of
        Some e \<Rightarrow> Some (Inl e)
      | None \<Rightarrow> discover_locations lib env (discover_timeout (dc_timeout opts)))"

section \<open>Bounds and confinement\<close>

definition ssdp_inv :: "url_lib \<Rightarrow> (string \<Rightarrow> string list option) \<Rightarrow> ssdp_state \<Rightarrow> bool" where
  "ssdp_inv lib lookup s \<longleftrightarrow>
     sp_replies s \<le> 256 \<and> length (sp_locations s) \<le> 64 \<and> distinct (sp_locations s) \<and>
     length (sp_sources s) \<le> 16 \<and> distinct (sp_sources s) \<and>
     4096 \<le> sp_buffer s \<and> sp_buffer s \<le> 65507 \<and>
     (\<forall>l \<in> set (sp_locations s). same_location_host lib lookup (loc_ip l) (loc_url l) \<and> loc_ip l \<in> set (sp_sources s))"

lemmas ssdp_limits = max_ssdp_replies_def max_ssdp_locations_def max_ssdp_sources_def max_ssdp_datagram_def
  ssdp_read_buffer_size_def

lemma parse_ip_Nil: "parse_ip [] = None"
  by (simp add: parse_ip_def parse_addr_def)

lemma same_location_host_source: "same_location_host lib lookup ip url \<Longrightarrow> ip \<noteq> []"
  by (auto simp: same_location_host_def same_ip_def parse_ip_Nil list_ex_iff split: option.splits if_splits)

lemma ssdp_lines_confined:
  "ssdp_lines lib lookup ip ls = Some l \<Longrightarrow> loc_ip l = ip \<and> same_location_host lib lookup ip (loc_url l)"
  by (induction ls) (auto simp: Let_def split: option.splits prod.splits if_splits)

lemma parse_ssdp_response_confined:
  "parse_ssdp_response lib lookup data ip = Some l \<Longrightarrow> loc_ip l = ip \<and> same_location_host lib lookup ip (loc_url l) \<and> ip \<noteq> []"
  using ssdp_lines_confined same_location_host_source by (fastforce simp: parse_ssdp_response_def)

lemma ssdp_inv_start: "ssdp_inv lib lookup ssdp_start"
  by (simp add: ssdp_inv_def ssdp_start_def ssdp_limits)

lemma ssdp_datagram_inv:
  assumes "ssdp_inv lib lookup s" "\<not> ssdp_full s"
  shows "ssdp_inv lib lookup (ssdp_datagram lib lookup data ip s)"
proof -
  let ?n = "min (length data) (sp_buffer s)"
  have s: "Suc (sp_replies s) \<le> 256" "Suc (length (sp_locations s)) \<le> 64"
    using assms(2) by (simp_all add: ssdp_full_def ssdp_limits)
  show ?thesis
    using assms(1) s parse_ssdp_response_confined [of lib lookup "take ?n data" ip]
    by (cases "parse_ssdp_response lib lookup (take ?n data) ip")
      (auto simp: ssdp_inv_def ssdp_datagram_def Let_def ssdp_limits)
qed

lemma ssdp_datagram_replies: "sp_replies (ssdp_datagram lib lookup data ip s) = Suc (sp_replies s)"
  by (simp add: ssdp_datagram_def Let_def split: option.splits)

lemma ssdp_loop_inv:
  "ssdp_loop lib lookup evs s = Some (Inr ls) \<Longrightarrow> ssdp_inv lib lookup s \<Longrightarrow> \<exists>s'. ssdp_inv lib lookup s' \<and> sp_locations s' = ls"
  by (induction lib lookup evs s rule: ssdp_loop.induct) (auto split: if_splits dest: ssdp_datagram_inv)

lemma ssdp_loop_ends: "256 \<le> sp_replies s + length evs \<Longrightarrow> ssdp_loop lib lookup evs s \<noteq> None"
  by (induction lib lookup evs s rule: ssdp_loop.induct)
    (auto simp: ssdp_full_def max_ssdp_replies_def ssdp_datagram_replies)

lemma discover_loop:
  assumes "discover lib env opts = Some (Inr ls)"
  shows "ssdp_loop lib (se_lookup env) (se_events env) ssdp_start = Some (Inr ls)"
  using assms by (auto simp: discover_def default_open_packet_def discover_locations_def split: option.splits)


definition sample_ssdp_env :: "ssdp_event list \<Rightarrow> ssdp_env" where
  "sample_ssdp_env evs = \<lparr>se_open = (\<lambda>_ _ _. None), se_deadline = (\<lambda>_. None), se_write = (\<lambda>_. None),
     se_lookup = (\<lambda>_. None), se_events = evs\<rparr>"

definition sample_discover :: discover_options where
  "sample_discover = \<lparr>dc_bind_ip = [], dc_interface = [], dc_timeout = 0\<rparr>"


end
