(* ===== verification/Upnp_Client.thy ===== *)
theory Upnp_Client
  imports Upnp_Discovery Engine_Session
begin

text \<open>
  \<open>internal/upnp/device.go\<close> and \<open>client.go\<close>, and \<open>internal/engine/upnp.go\<close>: the device description,
  the choice of a router, and the client the engine forwards, renews and revokes its mapping
  with.  The HTTP client is a history of calls and an environment that answers them.
\<close>

section \<open>The world of the UPnP client\<close>

text \<open>
  A call is a fetched description, or a SOAP request with the service and mapping it was built
  for; \<open>ue_ssdp\<close> is what a search would meet, and a search is an event as well, as is the report of
  the router that was found (\<open>OnFoundRouter\<close>).
\<close>

datatype upnp_call =
    SearchCall
  | FoundRouter string
  | GetCall http_request "goerror + http_response"
  | SoapCall string upnp_service port_mapping http_request "goerror + http_response"

type_synonym upnp_history = "upnp_call list"

record upnp_env =
  ue_lib :: url_lib
  ue_xml :: xml_decoder
  ue_description :: "string \<Rightarrow> description_item list"
  ue_http :: "upnp_history \<Rightarrow> http_request \<Rightarrow> goerror + http_response"
  ue_ssdp :: "upnp_history \<Rightarrow> ssdp_env"

definition do_soap ::
  "upnp_env \<Rightarrow> string \<Rightarrow> upnp_service \<Rightarrow> port_mapping \<Rightarrow> http_request \<Rightarrow> upnp_history \<Rightarrow> goerror option \<times> upnp_history" where
  "do_soap env action s m req h =
     (let answer = ue_http env h req in
      (soap_verdict (ue_xml env) action answer, h @ [SoapCall action s m req answer]))"

definition add_port_mapping ::
  "upnp_env \<Rightarrow> upnp_service \<Rightarrow> port_mapping \<Rightarrow> upnp_history \<Rightarrow> goerror option \<times> upnp_history" where
  "add_port_mapping env s m h =
     (case new_add_port_mapping_request (ue_lib env) s m of
        Inl e \<Rightarrow> (Some e, h)
      | Inr req \<Rightarrow> do_soap env ''AddPortMapping'' s m req h)"

definition delete_port_mapping ::
  "upnp_env \<Rightarrow> upnp_service \<Rightarrow> port_mapping \<Rightarrow> upnp_history \<Rightarrow> goerror option \<times> upnp_history" where
  "delete_port_mapping env s m h =
     (case new_delete_port_mapping_request (ue_lib env) s m of
        Inl e \<Rightarrow> (Some e, h)
      | Inr req \<Rightarrow> do_soap env ''DeletePortMapping'' s m req h)"

section \<open>device.go\<close>

definition max_description_size :: nat where
  "max_description_size = 1048576"

record device =
  dv_ip :: string
  dv_location :: string
  dv_services :: "upnp_service list"
  dv_forward :: "upnp_service option"

definition description_request :: "string \<Rightarrow> http_request" where
  "description_request location =
     \<lparr>rq_method = ''GET'', rq_url = location,
      rq_headers = [(''User-Agent'', user_agent), (''Accept'', ''*/*''), (''Connection'', ''close'')], rq_body = []\<rparr>"

definition device_from_answer ::
  "upnp_env \<Rightarrow> string \<Rightarrow> string \<Rightarrow> goerror + http_response \<Rightarrow> goerror + device" where
  "device_from_answer env ip location answer =
     res_bind answer (\<lambda>resp.
       if rs_status resp < 200 \<or> 300 \<le> rs_status resp
       then Inl (errorf (''upnp description '' @ location @ '' returned HTTP '' @ itoa (rs_status resp)))
       else res_bind (read_limited (max_description_size + 1) resp) (\<lambda>body.
         if max_description_size < length body then Inl (errorf (''upnp description '' @ location @ '' too large (limit '' @
             itoa (int max_description_size) @ '' bytes)''))
         else res_bind (parse_services (ue_lib env) (ue_description env) body location) (\<lambda>services.
           let confined = same_origin_services (ue_lib env) services location in
           Inr \<lparr>dv_ip = ip, dv_location = location, dv_services = confined, dv_forward = find is_forward confined\<rparr>)))"

definition load_device_description ::
  "upnp_env \<Rightarrow> string \<Rightarrow> string \<Rightarrow> upnp_history \<Rightarrow> (goerror + device) \<times> upnp_history" where
  "load_device_description env ip location h =
     (case ul_parse (ue_lib env) location of
        None \<Rightarrow> (Inl (errorf (''parse '' @ location)), h)
      | Some _ \<Rightarrow>
          let req = description_request location; answer = ue_http env h req in
          (device_from_answer env ip location answer, h @ [GetCall req answer]))"

section \<open>client.go\<close>

text \<open>\<open>CheckRedirect\<close>: the next request against those already made, the oldest first.\<close>

definition max_redirects :: nat where
  "max_redirects = 3"

definition check_redirect :: "url_lib \<Rightarrow> url \<Rightarrow> url list \<Rightarrow> goerror option" where
  "check_redirect lib req via =
     (case via of
        [] \<Rightarrow> Some (errorf ''upnp: cross-host redirect rejected'')
      | origin # _ \<Rightarrow>
          if \<not> same_host_port lib req origin then Some (errorf ''upnp: cross-host redirect rejected'')
          else if max_redirects \<le> length via then Some (errorf ''upnp: too many redirects'')
          else None)"

text \<open>The requests of one \<open>Do\<close> whose redirects are all followed.\<close>

definition redirects_followed :: "url_lib \<Rightarrow> url list \<Rightarrow> bool" where
  "redirects_followed lib us \<longleftrightarrow>
     (\<forall>i \<in> {1..<length us}. check_redirect lib (us ! i) (take i us) = None)"

record upnp_client =
  up_bind_ip :: string
  up_interface :: string
  up_timeout :: int

definition client_discover_options :: "upnp_client \<Rightarrow> discover_options" where
  "client_discover_options c = \<lparr>dc_bind_ip = up_bind_ip c, dc_interface = up_interface c, dc_timeout = up_timeout c\<rparr>"

definition no_forward_service :: "nat \<Rightarrow> goerror" where
  "no_forward_service n =
     GoError [ErrNoForwardService] (''upnp: no IGD port mapping service found ('' @ itoa (int n) @ '' location(s) probed)'')"

fun first_forward_device ::
  "upnp_env \<Rightarrow> location list \<Rightarrow> upnp_history \<Rightarrow> device option \<times> upnp_history" where
  "first_forward_device env [] h = (None, h)"
| "first_forward_device env (l # ls) h =
     (case load_device_description env (loc_ip l) (loc_url l) h of
        (Inl _, h1) \<Rightarrow> first_forward_device env ls h1
      | (Inr d, h1) \<Rightarrow> if dv_forward d \<noteq> None then (Some d, h1) else first_forward_device env ls h1)"

text \<open>
  The search ends by its deadline (\<open>discover_bounded\<close>); an environment whose events stop earlier is
  read as the deadline passing with nothing found.
\<close>

definition search :: "upnp_env \<Rightarrow> upnp_client \<Rightarrow> upnp_history \<Rightarrow> (goerror + location list) \<times> upnp_history" where
  "search env c h =
     ((case discover (ue_lib env) (ue_ssdp env h) (client_discover_options c) of
         Some r \<Rightarrow> r
       | None \<Rightarrow> Inr []), h @ [SearchCall])"

definition discover_router :: "upnp_env \<Rightarrow> upnp_client \<Rightarrow> upnp_history \<Rightarrow> (goerror + device) \<times> upnp_history" where
  "discover_router env c h =
     (case search env c h of
        (Inl e, h1) \<Rightarrow> (Inl e, h1)
      | (Inr locations, h1) \<Rightarrow>
          (case first_forward_device env locations h1 of
             (Some d, h2) \<Rightarrow> (Inr d, h2)
           | (None, h2) \<Rightarrow> (Inl (no_forward_service (length locations)), h2)))"

section \<open>engine/upnp.go\<close>

record upnp_mapper =
  ux_client :: upnp_client
  ux_service :: "upnp_service option"
  ux_mapping :: port_mapping

definition zero_port_mapping :: port_mapping where
  "zero_port_mapping = \<lparr>pm_remote_host = [], pm_external_port = 0, pm_protocol = [], pm_internal_port = 0,
     pm_internal_client = [], pm_description = [], pm_lease_duration = 0\<rparr>"

text \<open>The timeout of the client, in nanoseconds.\<close>

definition mapper_timeout :: int where
  "mapper_timeout = 1000000000"

definition new_upnp_mapper_from_config :: "config \<Rightarrow> upnp_mapper" where
  "new_upnp_mapper_from_config cfg =
     (let b = bind_from_config cfg in
      \<lparr>ux_client = \<lparr>up_bind_ip = addr_text (ap_addr (bd_source b)), up_interface = bd_interface b, up_timeout = mapper_timeout\<rparr>,
       ux_service = None, ux_mapping = zero_port_mapping\<rparr>)"

definition protocol_name :: "bool \<Rightarrow> string" where
  [simp]: "protocol_name udp = (if udp then ''udp'' else ''tcp'')"

definition engine_port_mapping :: "upnp_mapping \<Rightarrow> port_mapping" where
  "engine_port_mapping m =
     \<lparr>pm_remote_host = [], pm_external_port = um_external_port m, pm_protocol = protocol_name (um_udp m),
      pm_internal_port = um_internal_port m, pm_internal_client = um_internal_client m, pm_description = ''QNatter'',
      pm_lease_duration = um_lease_duration m\<rparr>"

text \<open>\<open>discoverRouter\<close>: the replacement of the caller, or the search of the client.\<close>

definition engine_discover_router ::
  "(upnp_client \<Rightarrow> upnp_history \<Rightarrow> (goerror + device) \<times> upnp_history) option \<Rightarrow> upnp_env \<Rightarrow> upnp_client \<Rightarrow> upnp_history \<Rightarrow>
   (goerror + device) \<times> upnp_history" where
  [simp]: "engine_discover_router replacement env c h =
     (case replacement of Some f \<Rightarrow> f c h | None \<Rightarrow> discover_router env c h)"

text \<open>
  \<open>Forward\<close>.  \<open>DiscoverRouter\<close> returns a device with a forward service or an error, so the second
  check of the code never fires; it is written out all the same.
\<close>

definition upnp_forward ::
  "upnp_env \<Rightarrow> upnp_mapping \<Rightarrow> upnp_mapper \<Rightarrow> upnp_history \<Rightarrow> goerror option \<times> upnp_mapper \<times> upnp_history" where
  "upnp_forward env m x h =
     (case engine_discover_router None env ((ux_client x)\<lparr>up_bind_ip := um_internal_client m\<rparr>) h of
        (Inl e, h1) \<Rightarrow> (Some e, x, h1)
      | (Inr d, h1) \<Rightarrow>
          (case dv_forward d of
             None \<Rightarrow> (Some (GoError [ErrNoForwardService] (''device '' @ dv_ip d @ '' has no port mapping service: upnp: no IGD port mapping service found'')), x, h1)
           | Some s \<Rightarrow>
               let pm = engine_port_mapping m in
               (case add_port_mapping env s pm (h1 @ [FoundRouter (dv_ip d)]) of
                  (Some e, h2) \<Rightarrow> (Some e, x\<lparr>ux_service := None\<rparr>, h2)
                | (None, h2) \<Rightarrow> (None, x\<lparr>ux_service := Some s, ux_mapping := pm\<rparr>, h2))))"

definition upnp_renew :: "upnp_env \<Rightarrow> upnp_mapper \<Rightarrow> upnp_history \<Rightarrow> goerror option \<times> upnp_history" where
  "upnp_renew env x h =
     (case ux_service x of None \<Rightarrow> (None, h) | Some s \<Rightarrow> add_port_mapping env s (ux_mapping x) h)"

definition upnp_revoke :: "upnp_env \<Rightarrow> upnp_mapper \<Rightarrow> upnp_history \<Rightarrow> goerror option \<times> upnp_mapper \<times> upnp_history" where
  "upnp_revoke env x h =
     (case ux_service x of
        None \<Rightarrow> (None, x, h)
      | Some s \<Rightarrow>
          (case delete_port_mapping env s (ux_mapping x) h of
             (Some e, h1) \<Rightarrow> (Some e, x, h1)
           | (None, h1) \<Rightarrow> (None, x\<lparr>ux_service := None\<rparr>, h1)))"

section \<open>Mappings on the router\<close>

text \<open>
  The mappings the router is known to have: those an \<open>AddPortMapping\<close> that succeeded has made and
  no \<open>DeletePortMapping\<close> has been sent for, named by control URL and content.
\<close>

fun mapping_step :: "xml_decoder \<Rightarrow> (string \<times> port_mapping) set \<Rightarrow> upnp_call \<Rightarrow> (string \<times> port_mapping) set" where
  "mapping_step xml R (SoapCall action s m req answer) =
     (if action = ''AddPortMapping'' then
        (if soap_verdict xml action answer = None then insert (us_control s, m) R else R)
      else R - {(us_control s, m)})"
| "mapping_step xml R _ = R"

definition owed_mappings :: "upnp_env \<Rightarrow> upnp_history \<Rightarrow> (string \<times> port_mapping) set" where
  "owed_mappings env h = foldl (mapping_step (ue_xml env)) {} h"

definition mapper_held :: "upnp_mapper \<Rightarrow> (string \<times> port_mapping) set" where
  "mapper_held x = (case ux_service x of None \<Rightarrow> {} | Some s \<Rightarrow> {(us_control s, ux_mapping x)})"

text \<open>What the mapper holds it can also ask to be deleted.\<close>

definition mapper_ok :: "upnp_env \<Rightarrow> upnp_mapper \<Rightarrow> bool" where
  "mapper_ok env x \<longleftrightarrow>
     (case ux_service x of
        None \<Rightarrow> True
      | Some s \<Rightarrow> (\<exists>req. new_delete_port_mapping_request (ue_lib env) s (ux_mapping x) = Inr req))"

lemma owed_mappings_snoc [simp]: "owed_mappings env (h @ [c]) = mapping_step (ue_xml env) (owed_mappings env h) c"
  by (simp add: owed_mappings_def)

lemma delete_buildable:
  "new_add_port_mapping_request lib s m = Inr req \<Longrightarrow> \<exists>req'. new_delete_port_mapping_request lib s m = Inr req'"
  by (auto simp: new_add_port_mapping_request_def new_delete_port_mapping_request_def soap_request_def Let_def
      split: option.splits)

lemma load_device_description_owed:
  "load_device_description env ip url h = (r, h') \<Longrightarrow> owed_mappings env h' = owed_mappings env h"
  by (auto simp: load_device_description_def Let_def split: option.splits)

lemma first_forward_device_owed:
  "first_forward_device env ls h = (r, h') \<Longrightarrow> owed_mappings env h' = owed_mappings env h"
proof (induction ls arbitrary: h)
  case (Cons l ls)
  obtain q h1 where q: "load_device_description env (loc_ip l) (loc_url l) h = (q, h1)" by fastforce
  from load_device_description_owed [OF q] Cons.IH [of h1] Cons.prems q show ?case
    by (auto split: sum.splits if_splits)
qed simp

lemma discover_router_owed:
  assumes "discover_router env c h = (r, h')"
  shows "owed_mappings env h' = owed_mappings env h"
proof -
  obtain q h1 where q: "search env c h = (q, h1)" by fastforce
  then have h1: "owed_mappings env h1 = owed_mappings env h" by (auto simp: search_def)
  show ?thesis
  proof (cases q)
    case (Inr ls)
    obtain d h2 where d: "first_forward_device env ls h1 = (d, h2)" by fastforce
    from first_forward_device_owed [OF d] h1 assms q Inr d show ?thesis
      by (auto simp: discover_router_def split: option.splits)
  qed (use assms q h1 in \<open>simp add: discover_router_def\<close>)
qed

lemma add_port_mapping_owed:
  assumes "add_port_mapping env s m h = (e, h')"
  shows "owed_mappings env h' = owed_mappings env h \<union> (if e = None then {(us_control s, m)} else {}) \<and>
    (e = None \<longrightarrow> (\<exists>req. new_delete_port_mapping_request (ue_lib env) s m = Inr req))"
  using assms delete_buildable [of "ue_lib env" s m]
  by (auto simp: add_port_mapping_def do_soap_def Let_def split: sum.splits)

lemma delete_port_mapping_owed:
  assumes "delete_port_mapping env s m h = (e, h')" "new_delete_port_mapping_request (ue_lib env) s m = Inr req"
  shows "owed_mappings env h' = owed_mappings env h - {(us_control s, m)}"
  using assms by (auto simp: delete_port_mapping_def do_soap_def Let_def)

lemma upnp_forward_owed:
  assumes "mapper_held x = {}" "upnp_forward env m x h = (e, x', h')"
  shows "mapper_ok env x' \<and>
    owed_mappings env h' = owed_mappings env h \<union> (if e = None then mapper_held x' else {}) \<and>
    (e \<noteq> None \<longrightarrow> mapper_held x' = {})"
proof -
  have n: "ux_service x = None" using assms(1) by (auto simp: mapper_held_def split: option.splits)
  obtain r h1 where d: "discover_router env ((ux_client x)\<lparr>up_bind_ip := um_internal_client m\<rparr>) h = (r, h1)" by fastforce
  note o1 = discover_router_owed [OF d]
  show ?thesis
  proof (cases r)
    case (Inl err)
    with assms(2) d n o1 show ?thesis by (auto simp: upnp_forward_def mapper_ok_def mapper_held_def)
  next
    case (Inr dev)
    show ?thesis
    proof (cases "dv_forward dev")
      case None
      with assms(2) d n o1 Inr show ?thesis by (auto simp: upnp_forward_def mapper_ok_def mapper_held_def)
    next
      case (Some s)
      obtain e2 h2 where a: "add_port_mapping env s (engine_port_mapping m) (h1 @ [FoundRouter (dv_ip dev)]) = (e2, h2)" by fastforce
      from add_port_mapping_owed [OF a] o1 a assms(2) d Inr Some show ?thesis
        by (cases e2) (auto simp: upnp_forward_def Let_def mapper_ok_def mapper_held_def)
    qed
  qed
qed

lemma upnp_renew_owed:
  assumes "upnp_renew env x h = (e, h')"
  shows "owed_mappings env h' \<subseteq> owed_mappings env h \<union> mapper_held x"
  using assms add_port_mapping_owed [of env _ "ux_mapping x" h e h']
  by (auto simp: upnp_renew_def mapper_held_def split: option.splits if_splits)

lemma upnp_revoke_owed:
  assumes "mapper_ok env x" "upnp_revoke env x h = (e, x', h')"
  shows "mapper_ok env x' \<and> owed_mappings env h' \<subseteq> owed_mappings env h - mapper_held x \<and> mapper_held x' \<subseteq> mapper_held x \<and>
    (e = None \<longrightarrow> mapper_held x' = {})"
proof (cases "ux_service x")
  case None
  with assms show ?thesis by (auto simp: upnp_revoke_def mapper_held_def)
next
  case (Some s)
  with assms(1) obtain req where req: "new_delete_port_mapping_request (ue_lib env) s (ux_mapping x) = Inr req"
    by (auto simp: mapper_ok_def)
  obtain e1 h1 where d: "delete_port_mapping env s (ux_mapping x) h = (e1, h1)" by fastforce
  note o = delete_port_mapping_owed [OF d req]
  have h: "mapper_held x = {(us_control s, ux_mapping x)}" by (simp add: mapper_held_def Some)
  show ?thesis
  proof (cases e1)
    case None
    with assms(2) d Some have "e = None" "x' = x\<lparr>ux_service := None\<rparr>" "h' = h1" by (simp_all add: upnp_revoke_def)
    then show ?thesis using o h by (simp add: mapper_held_def mapper_ok_def)
  next
    case (Some err)
    with assms(2) d \<open>ux_service x = Some s\<close> have "e = Some err" "x' = x" "h' = h1" by (simp_all add: upnp_revoke_def)
    then show ?thesis using o h assms(1) by simp
  qed
qed

section \<open>Where the requests go\<close>

text \<open>
  A call is confined when it fetches a description from the host its location was announced by, or
  sends a SOAP request to a control URL of the same host and port as such a description.
\<close>

definition announced :: "upnp_env \<Rightarrow> upnp_history \<Rightarrow> string \<Rightarrow> bool" where
  "announced env h u \<longleftrightarrow> (\<exists>ip. same_location_host (ue_lib env) (se_lookup (ue_ssdp env h)) ip u)"

fun confined_call :: "upnp_env \<Rightarrow> upnp_history \<Rightarrow> upnp_call \<Rightarrow> bool" where
  "confined_call env h SearchCall = True"
| "confined_call env h (FoundRouter _) = True"
| "confined_call env h (GetCall req _) = announced env h (rq_url req)"
| "confined_call env h (SoapCall _ s _ req _) =
     (rq_url req = us_control s \<and> (\<exists>u. announced env h u \<and> confined_url (ue_lib env) u (us_control s)))"

lemma load_device_description_calls:
  assumes "load_device_description env ip url h1 = (r, h2)" "announced env h url"
  shows "\<exists>cs. h2 = h1 @ cs \<and> list_all (confined_call env h) cs"
  using assms by (auto simp: load_device_description_def description_request_def Let_def split: option.splits)

lemma find_is_forward: "find is_forward ss = Some s \<Longrightarrow> s \<in> set ss \<and> is_forward s"
  by (auto simp: find_Some_iff)

lemma load_device_description_forward:
  assumes "load_device_description env ip url h1 = (Inr d, h2)" "dv_forward d = Some s"
  shows "is_forward s \<and> confined_url (ue_lib env) url (us_control s)"
proof -
  from assms(1) obtain answer where "device_from_answer env ip url answer = Inr d"
    by (auto simp: load_device_description_def Let_def split: option.splits)
  then obtain services where "dv_forward d = find is_forward (same_origin_services (ue_lib env) services url)"
    by (auto simp: device_from_answer_def Let_def split: if_splits)
  with assms(2) find_is_forward same_origin_confined show ?thesis by metis
qed

lemma first_forward_device_calls:
  "first_forward_device env ls h1 = (r, h2) \<Longrightarrow> list_all (\<lambda>l. announced env h (loc_url l)) ls \<Longrightarrow>
    (\<exists>cs. h2 = h1 @ cs \<and> list_all (confined_call env h) cs) \<and>
    (\<forall>d s. r = Some d \<and> dv_forward d = Some s \<longrightarrow>
       is_forward s \<and> (\<exists>u. announced env h u \<and> confined_url (ue_lib env) u (us_control s)))"
proof (induction ls arbitrary: h1)
  case Nil
  then show ?case by simp
next
  case (Cons l ls)
  obtain q h3 where q: "load_device_description env (loc_ip l) (loc_url l) h1 = (q, h3)" by fastforce
  from Cons.prems(2) have l: "announced env h (loc_url l)" and ls: "list_all (\<lambda>l. announced env h (loc_url l)) ls" by simp_all
  from load_device_description_calls [OF q l] obtain cs where cs: "h3 = h1 @ cs" "list_all (confined_call env h) cs" by blast
  show ?case
  proof (cases "\<exists>d. q = Inr d \<and> dv_forward d \<noteq> None")
    case True
    then obtain d s where d: "q = Inr d" "dv_forward d = Some s" by blast
    with Cons.prems(1) q have r: "r = Some d" "h2 = h3" by simp_all
    have "is_forward s \<and> confined_url (ue_lib env) (loc_url l) (us_control s)"
      using load_device_description_forward [OF _ d(2)] q d(1) by blast
    with r d(2) cs l show ?thesis by auto
  next
    case False
    with Cons.prems(1) q have "first_forward_device env ls h3 = (r, h2)" by (auto split: sum.splits)
    from Cons.IH [OF this ls] obtain cs' where cs': "h2 = h3 @ cs'" "list_all (confined_call env h) cs'"
      "\<forall>d s. r = Some d \<and> dv_forward d = Some s \<longrightarrow>
        is_forward s \<and> (\<exists>u. announced env h u \<and> confined_url (ue_lib env) u (us_control s))" by blast
    have "h2 = h1 @ (cs @ cs')" "list_all (confined_call env h) (cs @ cs')" using cs cs' by simp_all
    with cs'(3) show ?thesis by blast
  qed
qed

lemma search_announced:
  assumes "search env c h = (Inr ls, h1)"
  shows "list_all (\<lambda>l. announced env h (loc_url l)) ls"
proof (cases "discover (ue_lib env) (ue_ssdp env h) (client_discover_options c)")
  case None
  with assms show ?thesis by (simp add: search_def)
next
  case (Some r)
  with assms have d: "discover (ue_lib env) (ue_ssdp env h) (client_discover_options c) = Some (Inr ls)"
    by (simp add: search_def)
  from ssdp_loop_inv [OF discover_loop [OF d] ssdp_inv_start] obtain s where
    "ssdp_inv (ue_lib env) (se_lookup (ue_ssdp env h)) s" "sp_locations s = ls" by blast
  then show ?thesis by (auto simp: ssdp_inv_def announced_def list_all_iff)
qed

lemma discover_router_calls:
  assumes "discover_router env c h = (r, h')"
  shows "(\<exists>cs. h' = h @ cs \<and> list_all (confined_call env h) cs) \<and>
    (\<forall>d. r = Inr d \<longrightarrow> (\<exists>s. dv_forward d = Some s \<and> is_forward s \<and>
      (\<exists>u. announced env h u \<and> confined_url (ue_lib env) u (us_control s))))"
proof -
  obtain q h1 where q: "search env c h = (q, h1)" by fastforce
  then have h1: "h1 = h @ [SearchCall]" by (simp add: search_def)
  show ?thesis
  proof (cases q)
    case (Inl e)
    with assms q h1 have "r = Inl e" "h' = h @ [SearchCall]" by (simp_all add: discover_router_def)
    then show ?thesis by simp
  next
    case (Inr ls)
    obtain d h2 where d: "first_forward_device env ls h1 = (d, h2)" by fastforce
    from first_forward_device_calls [OF d search_announced] q Inr obtain cs where
      cs: "h2 = h1 @ cs" "list_all (confined_call env h) cs"
        "\<forall>d' s. d = Some d' \<and> dv_forward d' = Some s \<longrightarrow>
          is_forward s \<and> (\<exists>u. announced env h u \<and> confined_url (ue_lib env) u (us_control s))" by blast
    have f: "\<forall>d'. d = Some d' \<longrightarrow> dv_forward d' \<noteq> None"
    proof -
      have "first_forward_device env ls h1 = (Some d', h2) \<Longrightarrow> dv_forward d' \<noteq> None" for ls h1 h2 d'
        by (induction ls arbitrary: h1) (auto split: prod.splits sum.splits if_splits)
      with d show ?thesis by blast
    qed
    have h2: "h2 = h @ (SearchCall # cs)" "list_all (confined_call env h) (SearchCall # cs)" using cs h1 by simp_all
    from assms q Inr d have r: "h' = h2" "\<forall>d'. r = Inr d' \<longrightarrow> d = Some d'"
      by (auto simp: discover_router_def split: option.splits)
    from h2 r(1) cs(3) f r(2) show ?thesis by (metis not_None_eq)
  qed
qed


section \<open>Redirects\<close>

text \<open>
  Redirects stay on the host and port of the first request.  As \<open>via\<close> counts the first request too,
  the limit of three lets two redirects through, not the three that the constant's comment names.
\<close>

lemma redirects_confined:
  assumes "redirects_followed lib us" "u \<in> set (tl us)"
  shows "same_host_port lib u (hd us)"
proof -
  from assms(2) obtain j where "j < length (tl us)" "tl us ! j = u" by (auto simp: in_set_conv_nth)
  then obtain i where i: "i < length us" "0 < i" "us ! i = u" by (intro that [of "Suc j"]) (simp_all add: nth_tl)
  then have "check_redirect lib u (take i us) = None"
    using assms(1) by (auto simp: redirects_followed_def)
  moreover have "take i us = hd us # take (i - 1) (tl us)" using i by (cases us) (auto simp: take_Cons')
  ultimately show ?thesis by (auto simp: check_redirect_def split: if_splits)
qed

lemma at_most_two_redirects:
  assumes "redirects_followed lib us"
  shows "length us \<le> 3"
proof (rule ccontr)
  assume "\<not> ?thesis"
  then have l: "3 < length us" by simp
  with assms have "check_redirect lib (us ! 3) (take 3 us) = None" by (simp add: redirects_followed_def)
  moreover obtain v vs where v: "take 3 us = v # vs" using l by (cases us) auto
  moreover from l have "length (v # vs) = 3" unfolding v [symmetric] by simp
  ultimately show False by (auto simp: check_redirect_def max_redirects_def split: if_splits)
qed

section \<open>The search and the session\<close>

text \<open>
  The client the engine builds waits one second for the replies, half the time in which a device
  may answer, although the window is meant to be at least that long.
\<close>

lemma mapper_listens_too_briefly: "listen_window (discover_timeout mapper_timeout) = 1000000000 \<and> listen_window (discover_timeout mapper_timeout) < ssdp_mx * 1000000000"
  by (simp add: listen_window_def discover_timeout_def mapper_timeout_def ssdp_mx_def)

text \<open>
  C40: a configuration that \<open>ParseArgs\<close> has accepted asks for a lease that the UPnP client accepts.
  For any forward service the mapping of a session passes every check, so the only reasons for
  which no \<open>AddPortMapping\<close> is sent are the search and the router's control URL.
\<close>

theorem session_lease_accepted:
  assumes "parse_args getenv stat args = Inr cfg" "is_forward s"
  shows "check_mapping_request s (engine_port_mapping (session_upnp_mapping cfg mapping)) =
      Inr (if cfg_udp cfg then ''UDP'' else ''TCP'')"
proof -
  from assms(1) obtain cfg0 cfg1 servers where
    "validate_config stat cfg0 = Inr cfg1" "finish_keep_alive_server (cfg1\<lparr>cfg_stun_servers := servers\<rparr>) = Inr cfg"
    by (auto simp: parse_args_def Let_def)
  with validate_config_InrD [of stat cfg0 cfg1] finish_keep_alive_server_InrD [of "cfg1\<lparr>cfg_stun_servers := servers\<rparr>" cfg]
  have k: "0 < cfg_keep_alive_interval cfg" "cfg_keep_alive_interval cfg \<le> 86400"
    by (auto simp: max_keep_alive_interval_def)
  have port: "0 \<le> uint (ap_port (mp_inner mapping))" "uint (ap_port (mp_inner mapping)) \<le> 65535"
    using uint_lt2p [of "ap_port (mp_inner mapping)"] by simp_all
  have up: "map to_upper ''tcp'' = ''TCP''" "map to_upper ''udp'' = ''UDP''" by code_simp+
  have ts: "trim_space ''tcp'' = ''tcp''" "trim_space ''udp'' = ''udp''" by code_simp+
  from k port assms(2) show ?thesis
    by (cases "cfg_udp cfg")
      (simp_all add: check_mapping_request_def engine_port_mapping_def session_upnp_mapping_def mapping_protocol_def ts up
        validate_mapping_def max_lease_duration_def Let_def del: list.map)
qed

section \<open>Samples\<close>

definition sample_upnp_env :: upnp_env where
  "sample_upnp_env = \<lparr>ue_lib = sample_lib, ue_xml = (\<lambda>_. ([], None)),
     ue_description = (\<lambda>_. [ServiceElement (sample_service\<lparr>us_control := ''/ctl''\<rparr>)]),
     ue_http = (\<lambda>h req. Inr \<lparr>rs_status = 200, rs_body = ''ok'', rs_read_error = None\<rparr>),
     ue_ssdp = (\<lambda>h. sample_ssdp_env [Datagram ''LOCATION: http://192.168.1.1/d'' ''192.168.1.1'', SsdpTimeout])\<rparr>"

definition sample_mapper :: upnp_mapper where
  "sample_mapper = \<lparr>ux_client = \<lparr>up_bind_ip = ''0.0.0.0'', up_interface = [], up_timeout = mapper_timeout\<rparr>, ux_service = None, ux_mapping = zero_port_mapping\<rparr>"

definition sample_upnp_mapping :: upnp_mapping where
  "sample_upnp_mapping = \<lparr>um_external_port = 4000, um_internal_port = 4000, um_internal_client = ''192.168.1.2'',
     um_udp = False, um_lease_duration = 45\<rparr>"


theorem session_lease_accepted_witness:
  "\<exists>cfg. parse_args (\<lambda>_. []) (\<lambda>_. None) [''-U'', ''-k'', ''86400''] = Inr cfg \<and>
    check_mapping_request sample_service (engine_port_mapping (session_upnp_mapping cfg zero_mapping)) =
      Inr (if cfg_udp cfg then ''UDP'' else ''TCP'')"
proof -
  have "\<exists>cfg. parse_args (\<lambda>_. []) (\<lambda>_. None) [''-U'', ''-k'', ''86400''] = Inr cfg"
    by (simp add: go_defs)
  moreover have "is_forward sample_service"
    by (simp add: is_forward_def forward_service_types_def sample_service_def)
  ultimately show ?thesis using session_lease_accepted by blast
qed

end
