(* ===== verification/Forward_Nft.thy ===== *)
theory Forward_Nft
  imports Forward_Rules
begin

text \<open>
  \<open>internal/forward/nftables_executor.go\<close>: the forwarder that installs nftables rules and the
  route policy, and removes the rules by their handles.  The commands it runs outside the program
  (\<open>nft\<close>, \<open>ip\<close>) and the files it reads make up a history; the environment answers each call from
  the history so far, so a command may fail at any point.
\<close>

datatype nft_event =
    NftCall nft_command string "goerror option"
  | IpCall "string list" string "goerror option"
  | ReadCall string

type_synonym nft_history = "nft_event list"

record nft_env =
  nv_nft :: "nft_history \<Rightarrow> string \<Rightarrow> string \<times> goerror option"
  nv_ip :: "nft_history \<Rightarrow> string list \<Rightarrow> string \<times> goerror option"
  nv_version :: "nft_history \<Rightarrow> goerror + string"
  nv_ip_forward :: "nft_history \<Rightarrow> goerror + string"
  nv_route_get :: "nft_history \<Rightarrow> string \<Rightarrow> goerror + string"

record nft_forwarder =
  nf_snat :: bool
  nf_dnat_handle :: int
  nf_snat_handle :: int
  nf_conn_mark_handle :: int
  nf_route_mark_handle :: int

definition fresh_nft_forwarder :: "bool \<Rightarrow> nft_forwarder" where
  "fresh_nft_forwarder snat = \<lparr>nf_snat = snat, nf_dnat_handle = 0, nf_snat_handle = 0,
     nf_conn_mark_handle = 0, nf_route_mark_handle = 0\<rparr>"

record route_policy =
  rp_mark :: string
  rp_table :: string
  rp_priority :: string

type_synonym nft_step = "nft_forwarder \<Rightarrow> nft_history \<Rightarrow> goerror option \<times> nft_forwarder \<times> nft_history"

definition run_nft :: "nft_env \<Rightarrow> nft_command \<Rightarrow> nft_history \<Rightarrow> (string \<times> goerror option) \<times> nft_history" where
  "run_nft env cmd h =
     (let (output, e) = nv_nft env h (command_text cmd) in ((output, e), h @ [NftCall cmd output e]))"

definition run_ip :: "nft_env \<Rightarrow> string list \<Rightarrow> nft_history \<Rightarrow> (string \<times> goerror option) \<times> nft_history" where
  "run_ip env args h = (let (output, e) = nv_ip env h args in ((output, e), h @ [IpCall args output e]))"

definition run_ip_checked :: "nft_env \<Rightarrow> string list \<Rightarrow> nft_history \<Rightarrow> goerror option \<times> nft_history" where
  "run_ip_checked env args h =
     (case run_ip env args h of
        ((output, None), h') \<Rightarrow> (None, h')
      | ((output, Some e), h') \<Rightarrow>
          let what = ''ip '' @ join '' '' args @ '': ''; text1 = trim_space output in
          (Some (if text1 = [] then wrap_errors [] e what
                 else GoError (err_tags e) (what @ err_text e @ '': '' @ text1)), h'))"

definition qnatter_route_policy :: "nat \<Rightarrow> route_policy" where
  "qnatter_route_policy slot =
     \<lparr>rp_mark = ''0x4e000'' @ pad_zero 3 (format_uint 16 slot),
      rp_table = itoa (20000 + int slot), rp_priority = itoa (20000 + int slot)\<rparr>"

definition route_policy_from_options :: "start_options \<Rightarrow> route_policy" where
  "route_policy_from_options opts =
     (if st_route_mark opts \<noteq> [] \<and> st_route_table opts \<noteq> [] \<and> st_route_priority opts \<noteq> [] then
        \<lparr>rp_mark = st_route_mark opts, rp_table = st_route_table opts, rp_priority = st_route_priority opts\<rparr>
      else qnatter_route_policy 0)"

fun route_source_fields :: "string list \<Rightarrow> goerror + string" where
  "route_source_fields (f # g # rest) =
     (if f \<noteq> ''src'' then route_source_fields (g # rest)
      else (case parse_addr g of None \<Rightarrow> Inl (errorf ''ParseAddr'') | Some _ \<Rightarrow> Inr g))"
| "route_source_fields _ = Inl (errorf ''route source address not found'')"

definition parse_route_source_ip :: "string \<Rightarrow> goerror + string" where
  "parse_route_source_ip output = route_source_fields (Go_Base.fields output)"

text \<open>\<open>nv_route_get\<close> is the output of \<open>ip -4 route get\<close>.\<close>

definition default_route_source_ip :: "nft_env \<Rightarrow> string \<Rightarrow> nft_history \<Rightarrow> goerror + string" where
  "default_route_source_ip env target h = res_bind (nv_route_get env h target) parse_route_source_ip"

definition route_source_ip :: "nft_env \<Rightarrow> string \<Rightarrow> nft_history \<Rightarrow> (goerror + string) \<times> nft_history" where
  "route_source_ip env target h =
     (default_route_source_ip env target h, h @ [ReadCall ''ip -4 route get''])"

section \<open>Rules\<close>

definition delete_rule_by_spec :: "nft_env \<Rightarrow> string \<Rightarrow> string \<Rightarrow> nft_history \<Rightarrow> goerror option \<times> nft_history" where
  "delete_rule_by_spec env chain spec h =
     (case run_nft env (ListChain chain) h of
        ((output, Some e), h1) \<Rightarrow> (Some e, h1)
      | ((output, None), h1) \<Rightarrow>
          (case lookup_rule_handle output spec of
             Inl e \<Rightarrow> (Some e, h1)
           | Inr handle \<Rightarrow>
               (case run_nft env (DeleteRule chain handle) h1 of ((_, e), h2) \<Rightarrow> (e, h2))))"

definition insert_rule :: "nft_env \<Rightarrow> string \<Rightarrow> string \<Rightarrow> nft_history \<Rightarrow> (goerror + int) \<times> nft_history" where
  "insert_rule env chain spec h =
     (case run_nft env (InsertRule chain spec) h of
        ((output, Some e), h1) \<Rightarrow> (Inl e, h1)
      | ((output, None), h1) \<Rightarrow>
          (case parse_nftables_handle output of
             Inr handle \<Rightarrow> (Inr handle, h1)
           | Inl e \<Rightarrow>
               (case delete_rule_by_spec env chain spec h1 of
                  (None, h2) \<Rightarrow> (Inl e, h2)
                | (Some rollback, h2) \<Rightarrow>
                    (Inl (GoError (err_tags e)
                       (err_text e @ ''; the inserted rule in chain '' @ chain @ '' ('' @ spec @
                        '') could not be removed: '' @ err_text rollback)), h2))))"

definition insert_into ::
  "nft_env \<Rightarrow> string \<Rightarrow> string \<Rightarrow> (int \<Rightarrow> nft_forwarder \<Rightarrow> nft_forwarder) \<Rightarrow> nft_step" where
  "insert_into env chain spec remember f h =
     (case insert_rule env chain spec h of
        (Inl e, h') \<Rightarrow> (Some e, f, h')
      | (Inr handle, h') \<Rightarrow> (None, remember handle f, h'))"

section \<open>Stop\<close>

definition delete_handle ::
  "nft_env \<Rightarrow> string \<Rightarrow> int \<Rightarrow> goerror option \<times> nft_history \<Rightarrow> goerror option \<times> nft_history" where
  "delete_handle env chain handle r =
     (case r of
        (first, h) \<Rightarrow>
          if 0 < handle then
            (case run_nft env (DeleteRule chain handle) h of
               ((_, e), h') \<Rightarrow> (if first = None then e else first, h'))
          else (first, h))"

definition nft_stop :: "nft_env \<Rightarrow> nft_step" where
  "nft_stop env f h =
     (let r1 = delete_handle env ''qnatter_dnat'' (nf_dnat_handle f) (None, h);
          r2 = delete_handle env ''qnatter_snat'' (nf_snat_handle f) r1;
          r3 = delete_handle env ''qnatter_mark'' (nf_conn_mark_handle f) r2;
          r4 = delete_handle env ''qnatter_mark'' (nf_route_mark_handle f) r3;
          zero = (\<lambda>n. if 0 < n then 0 else n)
      in (fst r4,
          f\<lparr>nf_dnat_handle := zero (nf_dnat_handle f), nf_snat_handle := zero (nf_snat_handle f),
            nf_conn_mark_handle := zero (nf_conn_mark_handle f),
            nf_route_mark_handle := zero (nf_route_mark_handle f)\<rparr>,
          snd r4))"

section \<open>Start\<close>

text \<open>\<open>a ;; b\<close> is a step followed by a step when it succeeds; \<open>or_stop\<close> is a step after whose
failure the forwarder stops and returns the step's error.\<close>

definition then_step :: "nft_step \<Rightarrow> nft_step \<Rightarrow> nft_step" where
  "then_step a b f h =
     (case a f h of (None, f', h') \<Rightarrow> b f' h' | (Some e, f', h') \<Rightarrow> (Some e, f', h'))"

definition or_stop :: "nft_env \<Rightarrow> nft_step \<Rightarrow> nft_step" where
  "or_stop env a f h =
     (case a f h of
        (None, f', h') \<Rightarrow> (None, f', h')
      | (Some e, f', h') \<Rightarrow> (case nft_stop env f' h' of (_, f'', h'') \<Rightarrow> (Some e, f'', h'')))"

definition check_version :: "nft_env \<Rightarrow> nft_step" where
  "check_version env f h =
     (nft_version_check (nv_version env h), f, h @ [ReadCall ''nft --version''])"

definition check_ip_forward :: "nft_env \<Rightarrow> start_options \<Rightarrow> nft_step" where
  "check_ip_forward env opts f h =
     (if st_ip opts = st_target_ip opts then (None, f, h)
      else
        ((case nv_ip_forward env h of
            Inl _ \<Rightarrow> None
          | Inr value \<Rightarrow>
              if trim_space value \<noteq> ''1''
              then Some (errorf ''IP forwarding is not allowed. Please do `sysctl net.ipv4.ip_forward=1`'')
              else None),
         f, h @ [ReadCall ''/proc/sys/net/ipv4/ip_forward'']))"

definition ensure_table :: "nft_env \<Rightarrow> nft_step" where
  "ensure_table env f h =
     (case run_nft env ListTable h of
        ((_, None), h1) \<Rightarrow> (None, f, h1)
      | ((_, Some _), h1) \<Rightarrow>
          (case run_nft env CreateTable h1 of ((_, e), h2) \<Rightarrow> (e, f, h2)))"

definition ensure_route_mark_chain :: "nft_env \<Rightarrow> nft_step" where
  "ensure_route_mark_chain env f h =
     (case run_nft env (ListChain ''qnatter_mark'') h of
        ((_, None), h1) \<Rightarrow> (None, f, h1)
      | ((_, Some _), h1) \<Rightarrow>
          (case run_nft env AddMarkChain h1 of ((_, e), h2) \<Rightarrow> (e, f, h2)))"

definition ensure_route_policy :: "nft_env \<Rightarrow> string \<Rightarrow> route_policy \<Rightarrow> nft_step" where
  "ensure_route_policy env iface policy f h =
     (let rule = (\<lambda>verb. [''rule'', verb, ''priority'', rp_priority policy, ''fwmark'', rp_mark policy,
                          ''lookup'', rp_table policy]) in
      case run_ip_checked env [''route'', ''replace'', ''default'', ''dev'', iface, ''table'', rp_table policy] h of
        (Some e, h1) \<Rightarrow> (Some e, f, h1)
      | (None, h1) \<Rightarrow>
          (case run_ip env (rule ''del'') h1 of (_, h2) \<Rightarrow>
             (case run_ip_checked env (rule ''add'') h2 of (e, h3) \<Rightarrow> (e, f, h3))))"

definition start_dnat :: "nft_env \<Rightarrow> start_options \<Rightarrow> nft_step" where
  "start_dnat env opts =
     insert_into env ''qnatter_dnat'' (dnat_spec opts) (\<lambda>n f. f\<lparr>nf_dnat_handle := n\<rparr>)"

definition start_snat :: "nft_env \<Rightarrow> start_options \<Rightarrow> nft_step" where
  "start_snat env opts f h =
     (if \<not> nf_snat f then (None, f, h)
      else
        let (opts', h') =
              (if st_snat_ip opts \<noteq> [] then (opts, h)
               else case route_source_ip env (st_target_ip opts) h of
                      (Inr source, h') \<Rightarrow> (if source \<noteq> [] then opts\<lparr>st_snat_ip := source\<rparr> else opts, h')
                    | (Inl _, h') \<Rightarrow> (opts, h'))
        in or_stop env (insert_into env ''qnatter_snat'' (snat_spec opts') (\<lambda>n f. f\<lparr>nf_snat_handle := n\<rparr>)) f h')"

definition start_marks :: "nft_env \<Rightarrow> start_options \<Rightarrow> nft_step" where
  "start_marks env opts =
     (if st_interface opts = [] then (\<lambda>f h. (None, f, h))
      else
        let policy = route_policy_from_options opts; mark = rp_mark policy in
        then_step (or_stop env (ensure_route_policy env (st_interface opts) policy))
        (then_step (or_stop env (ensure_route_mark_chain env))
        (then_step (or_stop env (insert_into env ''qnatter_mark'' (conn_mark_spec opts mark) (\<lambda>n f. f\<lparr>nf_conn_mark_handle := n\<rparr>)))
          (or_stop env (insert_into env ''qnatter_mark'' (route_mark_spec opts mark) (\<lambda>n f. f\<lparr>nf_route_mark_handle := n\<rparr>))))))"

definition nft_start :: "nft_env \<Rightarrow> start_options \<Rightarrow> nft_step" where
  "nft_start env opts f h =
     (if same_address opts then (Some (same_address_error opts), f, h)
      else then_step (check_version env)
           (then_step (check_ip_forward env opts)
           (then_step (ensure_table env)
           (then_step (start_dnat env opts)
           (then_step (start_snat env opts) (start_marks env opts))))) f h)"

section \<open>What the history owes\<close>

text \<open>
  The rules inserted with a known handle and not yet asked to be deleted.  nft numbers its
  handles from 1.
\<close>

fun owed_step :: "(string \<times> int) set \<Rightarrow> nft_event \<Rightarrow> (string \<times> int) set" where
  "owed_step S (NftCall (InsertRule chain spec) output None) =
     (case parse_nftables_handle output of
        Inr n \<Rightarrow> if 0 < n then insert (chain, n) S else S
      | Inl _ \<Rightarrow> S)"
| "owed_step S (NftCall (DeleteRule chain n) output e) = S - {(chain, n)}"
| "owed_step S _ = S"

definition owed_rules :: "nft_history \<Rightarrow> (string \<times> int) set" where
  "owed_rules h = foldl owed_step {} h"

definition slot :: "string \<Rightarrow> int \<Rightarrow> (string \<times> int) set" where
  "slot chain n = (if 0 < n then {(chain, n)} else {})"

definition held_rules :: "nft_forwarder \<Rightarrow> (string \<times> int) set" where
  "held_rules f =
     slot ''qnatter_dnat'' (nf_dnat_handle f) \<union> slot ''qnatter_snat'' (nf_snat_handle f) \<union>
     slot ''qnatter_mark'' (nf_conn_mark_handle f) \<union> slot ''qnatter_mark'' (nf_route_mark_handle f)"

lemma slot_empty [simp]: "slot chain n = {} \<longleftrightarrow> n \<le> 0"
  by (auto simp: slot_def)

lemma owed_append [simp]: "owed_rules (h @ xs) = foldl owed_step (owed_rules h) xs"
  by (simp add: owed_rules_def)

lemma owed_run_nft:
  "run_nft env cmd h = ((output, e), h') \<Longrightarrow> owed_rules h' = owed_step (owed_rules h) (NftCall cmd output e)"
  by (auto simp: run_nft_def split: prod.splits)

lemma owed_run_ip: "run_ip env args h = (r, h') \<Longrightarrow> owed_rules h' = owed_rules h"
  by (auto simp: run_ip_def split: prod.splits)

lemma owed_run_ip_checked: "run_ip_checked env args h = (r, h') \<Longrightarrow> owed_rules h' = owed_rules h"
  by (auto simp: run_ip_checked_def Let_def dest!: owed_run_ip split: prod.splits option.splits)

lemma owed_delete_rule_by_spec: "delete_rule_by_spec env chain spec h = (r, h') \<Longrightarrow> owed_rules h' \<subseteq> owed_rules h"
  by (auto simp: delete_rule_by_spec_def dest!: owed_run_nft split: prod.splits option.splits sum.splits)

lemma owed_insert_rule:
  "insert_rule env chain spec h = (r, h') \<Longrightarrow>
   owed_rules h' \<subseteq> owed_rules h \<union> (case r of Inr n \<Rightarrow> slot chain n | Inl _ \<Rightarrow> {})"
  by (fastforce simp: insert_rule_def slot_def dest!: owed_run_nft owed_delete_rule_by_spec
      split: prod.splits option.splits sum.splits if_splits)

lemma owed_delete_handle:
  assumes "delete_handle env chain n (e, h) = (e', h')"
  shows "owed_rules h' = owed_rules h - slot chain n"
proof (cases "0 < n")
  case True
  obtain out e1 h1 where r: "run_nft env (DeleteRule chain n) h = ((out, e1), h1)" by (metis prod.collapse)
  with assms True have "h' = h1" by (simp add: delete_handle_def)
  with owed_run_nft [OF r] True show ?thesis by (simp add: slot_def)
qed (use assms in \<open>simp add: delete_handle_def slot_def\<close>)

lemma held_rules_fresh [simp]: "held_rules (fresh_nft_forwarder snat) = {}"
  by (simp add: held_rules_def fresh_nft_forwarder_def)

lemma nft_stop_owed:
  assumes "nft_stop env f h = (r, f', h')"
  shows "owed_rules h' \<subseteq> owed_rules h - held_rules f"
proof -
  obtain e1 h1 where 1: "delete_handle env ''qnatter_dnat'' (nf_dnat_handle f) (None, h) = (e1, h1)" by fastforce
  obtain e2 h2 where 2: "delete_handle env ''qnatter_snat'' (nf_snat_handle f) (e1, h1) = (e2, h2)" by fastforce
  obtain e3 h3 where 3: "delete_handle env ''qnatter_mark'' (nf_conn_mark_handle f) (e2, h2) = (e3, h3)" by fastforce
  obtain e4 h4 where 4: "delete_handle env ''qnatter_mark'' (nf_route_mark_handle f) (e3, h3) = (e4, h4)" by fastforce
  from assms 1 2 3 4 have "h' = h4" by (simp add: nft_stop_def Let_def)
  with owed_delete_handle [OF 1] owed_delete_handle [OF 2] owed_delete_handle [OF 3] owed_delete_handle [OF 4]
  show ?thesis unfolding held_rules_def by blast
qed

lemma nft_stop_state:
  "fst (snd (nft_stop env f h)) =
    f\<lparr>nf_dnat_handle := min 0 (nf_dnat_handle f), nf_snat_handle := min 0 (nf_snat_handle f),
      nf_conn_mark_handle := min 0 (nf_conn_mark_handle f),
      nf_route_mark_handle := min 0 (nf_route_mark_handle f)\<rparr>"
proof -
  have "(if 0 < n then 0 else n) = min 0 n" for n :: int by (simp add: min_def)
  then show ?thesis by (simp only: nft_stop_def Let_def fst_conv snd_conv)
qed

lemma nft_stop_held:
  assumes "nft_stop env f h = (r, f', h')"
  shows "held_rules f' = {}"
proof -
  have "f' = fst (snd (nft_stop env f h))" using assms by simp
  then show ?thesis by (simp add: nft_stop_state held_rules_def)
qed

section \<open>Steps that keep the books\<close>

text \<open>A step keeps the books when nothing is owed beyond \<open>B\<close> and what the state remembers.\<close>

definition keeps_books :: "nft_step \<Rightarrow> nft_forwarder \<Rightarrow> bool" where
  "keeps_books a f \<longleftrightarrow> (\<forall>B h r f' h'. a f h = (r, f', h') \<longrightarrow>
     owed_rules h \<subseteq> B \<union> held_rules f \<longrightarrow> owed_rules h' \<subseteq> B \<union> held_rules f')"

definition clean_failure :: "nft_step \<Rightarrow> nft_forwarder \<Rightarrow> bool" where
  "clean_failure a f \<longleftrightarrow> (\<forall>h e f' h'. a f h = (Some e, f', h') \<longrightarrow> held_rules f' = {})"

definition results_in :: "nft_step \<Rightarrow> nft_forwarder \<Rightarrow> (nft_forwarder \<Rightarrow> bool) \<Rightarrow> bool" where
  "results_in a f Q \<longleftrightarrow> (\<forall>h f' h'. a f h = (None, f', h') \<longrightarrow> Q f')"

lemma then_step_cases:
  assumes "then_step a b f h = (r, f', h')"
  obtains e where "a f h = (Some e, f', h')" "r = Some e"
    | f1 h1 where "a f h = (None, f1, h1)" "b f1 h1 = (r, f', h')"
  using assms unfolding then_step_def by (auto split: prod.splits option.splits)

lemma or_stop_cases:
  assumes "or_stop env a f h = (r, f', h')"
  obtains "a f h = (None, f', h')" "r = None"
    | e f1 h1 r1 where "a f h = (Some e, f1, h1)" "nft_stop env f1 h1 = (r1, f', h')" "r = Some e"
  using assms unfolding or_stop_def by (auto split: prod.splits option.splits)

lemma keeps_booksD: "keeps_books a f \<Longrightarrow> a f h = (r, f', h') \<Longrightarrow> owed_rules h \<subseteq> B \<union> held_rules f \<Longrightarrow>
  owed_rules h' \<subseteq> B \<union> held_rules f'"
  unfolding keeps_books_def by blast

lemma keeps_books_then:
  assumes "keeps_books a f" "results_in a f (keeps_books b)"
  shows "keeps_books (then_step a b) f"
  unfolding keeps_books_def
proof (intro allI impI)
  fix B h r f' h'
  assume s: "then_step a b f h = (r, f', h')" and o: "owed_rules h \<subseteq> B \<union> held_rules f"
  from s show "owed_rules h' \<subseteq> B \<union> held_rules f'"
  proof (cases rule: then_step_cases)
    case (1 e)
    from keeps_booksD [OF assms(1) this(1) o] show ?thesis .
  next
    case (2 f1 h1)
    with assms(2) have "keeps_books b f1" by (auto simp: results_in_def)
    from keeps_booksD [OF this 2(2) keeps_booksD [OF assms(1) 2(1) o]] show ?thesis .
  qed
qed

lemma clean_failure_then:
  "clean_failure a f \<Longrightarrow> results_in a f (clean_failure b) \<Longrightarrow> clean_failure (then_step a b) f"
  unfolding clean_failure_def results_in_def then_step_def
  by (simp split: prod.splits option.splits) blast

lemma results_in_then:
  "results_in a f Q \<Longrightarrow> (\<And>f'. Q f' \<Longrightarrow> results_in b f' R) \<Longrightarrow> results_in (then_step a b) f R"
  unfolding results_in_def then_step_def by (simp split: prod.splits option.splits) blast

lemma keeps_books_or_stop:
  assumes "keeps_books a f"
  shows "keeps_books (or_stop env a) f"
  unfolding keeps_books_def
proof (intro allI impI)
  fix B h r f' h'
  assume s: "or_stop env a f h = (r, f', h')" and o: "owed_rules h \<subseteq> B \<union> held_rules f"
  from s show "owed_rules h' \<subseteq> B \<union> held_rules f'"
  proof (cases rule: or_stop_cases)
    case 1
    from keeps_booksD [OF assms this(1) o] show ?thesis .
  next
    case (2 e f1 h1 r1)
    from keeps_booksD [OF assms 2(1) o] nft_stop_owed [OF 2(2)] show ?thesis by blast
  qed
qed

lemma clean_failure_or_stop: "clean_failure (or_stop env a) f"
  unfolding clean_failure_def or_stop_def
  by (auto split: prod.splits option.splits dest: nft_stop_held)

lemma results_in_or_stop: "results_in a f Q \<Longrightarrow> results_in (or_stop env a) f Q"
  unfolding results_in_def or_stop_def by (auto split: prod.splits option.splits)

lemma results_in_mono: "results_in a f Q \<Longrightarrow> (\<And>f'. Q f' \<Longrightarrow> R f') \<Longrightarrow> results_in a f R"
  by (auto simp: results_in_def)

text \<open>Steps that neither change the state nor insert or delete a rule.\<close>

definition idle_step :: "nft_step \<Rightarrow> bool" where
  "idle_step a \<longleftrightarrow> (\<forall>f h r f' h'. a f h = (r, f', h') \<longrightarrow> f' = f \<and> owed_rules h' = owed_rules h)"

lemma idle_check_version: "idle_step (check_version env)"
  by (simp add: idle_step_def check_version_def)

lemma idle_check_ip_forward: "idle_step (check_ip_forward env opts)"
  by (auto simp: idle_step_def check_ip_forward_def)

lemma idle_ensure_table: "idle_step (ensure_table env)"
  by (auto simp: idle_step_def ensure_table_def dest!: owed_run_nft split: prod.splits option.splits)

lemma idle_ensure_route_mark_chain: "idle_step (ensure_route_mark_chain env)"
  by (auto simp: idle_step_def ensure_route_mark_chain_def dest!: owed_run_nft split: prod.splits option.splits)

lemma idle_ensure_route_policy: "idle_step (ensure_route_policy env iface policy)"
  by (auto simp: idle_step_def ensure_route_policy_def Let_def
      dest!: owed_run_ip owed_run_ip_checked split: prod.splits option.splits)

lemma idle_keeps_books: "idle_step a \<Longrightarrow> keeps_books a f"
  by (fastforce simp: idle_step_def keeps_books_def)

lemma idle_clean_failure: "idle_step a \<Longrightarrow> held_rules f = {} \<Longrightarrow> clean_failure a f"
  by (fastforce simp: idle_step_def clean_failure_def)

lemma idle_results_in: "idle_step a \<Longrightarrow> Q f \<Longrightarrow> results_in a f Q"
  by (fastforce simp: idle_step_def results_in_def)

text \<open>Remembering a handle in a slot that was empty.\<close>

definition remembers :: "string \<Rightarrow> (int \<Rightarrow> nft_forwarder \<Rightarrow> nft_forwarder) \<Rightarrow> nft_forwarder \<Rightarrow> bool" where
  "remembers chain remember f \<longleftrightarrow>
     (\<forall>n. held_rules (remember n f) = held_rules f \<union> slot chain n)"

lemma slot_nonpos: "n \<le> 0 \<Longrightarrow> slot chain n = {}"
  by simp

lemma remembers_slots:
  "nf_dnat_handle f \<le> 0 \<Longrightarrow> remembers ''qnatter_dnat'' (\<lambda>n f. f\<lparr>nf_dnat_handle := n\<rparr>) f"
  "nf_snat_handle f \<le> 0 \<Longrightarrow> remembers ''qnatter_snat'' (\<lambda>n f. f\<lparr>nf_snat_handle := n\<rparr>) f"
  "nf_conn_mark_handle f \<le> 0 \<Longrightarrow> remembers ''qnatter_mark'' (\<lambda>n f. f\<lparr>nf_conn_mark_handle := n\<rparr>) f"
  "nf_route_mark_handle f \<le> 0 \<Longrightarrow> remembers ''qnatter_mark'' (\<lambda>n f. f\<lparr>nf_route_mark_handle := n\<rparr>) f"
  by (simp_all add: remembers_def held_rules_def slot_nonpos Un_ac)

lemma insert_into_keeps_books:
  assumes "remembers chain remember f"
  shows "keeps_books (insert_into env chain spec remember) f"
  unfolding keeps_books_def
proof (intro allI impI)
  fix B h r f' h'
  assume s: "insert_into env chain spec remember f h = (r, f', h')" and o: "owed_rules h \<subseteq> B \<union> held_rules f"
  obtain res h1 where i: "insert_rule env chain spec h = (res, h1)" by fastforce
  show "owed_rules h' \<subseteq> B \<union> held_rules f'"
  proof (cases res)
    case (Inl e)
    with s i owed_insert_rule [OF i] o show ?thesis by (auto simp: insert_into_def)
  next
    case (Inr n)
    with s i have "f' = remember n f" "h' = h1" by (auto simp: insert_into_def)
    moreover have "held_rules (remember n f) = held_rules f \<union> slot chain n"
      using assms by (simp add: remembers_def)
    ultimately show ?thesis using owed_insert_rule [OF i] o Inr by auto
  qed
qed

lemma insert_into_clean_failure: "held_rules f = {} \<Longrightarrow> clean_failure (insert_into env chain spec remember) f"
  by (auto simp: clean_failure_def insert_into_def split: prod.splits sum.splits)

lemma insert_into_results_in: "(\<And>n. Q (remember n f)) \<Longrightarrow> results_in (insert_into env chain spec remember) f Q"
  by (auto simp: results_in_def insert_into_def split: prod.splits sum.splits)

section \<open>The contract\<close>

lemma start_snat_books: "nf_snat_handle f \<le> 0 \<Longrightarrow> keeps_books (start_snat env opts) f"
proof -
  assume slot: "nf_snat_handle f \<le> 0"
  have ins: "keeps_books (or_stop env (insert_into env ''qnatter_snat'' spec (\<lambda>n f. f\<lparr>nf_snat_handle := n\<rparr>))) f" for spec
    using slot by (intro keeps_books_or_stop insert_into_keeps_books remembers_slots)
  show ?thesis
    unfolding keeps_books_def
  proof (intro allI impI)
    fix B h r f' h'
    assume s: "start_snat env opts f h = (r, f', h')" and o: "owed_rules h \<subseteq> B \<union> held_rules f"
    show "owed_rules h' \<subseteq> B \<union> held_rules f'"
    proof (cases "nf_snat f")
      case False
      with s o show ?thesis by (simp add: start_snat_def)
    next
      case True
      with s obtain spec h1 where
        i: "or_stop env (insert_into env ''qnatter_snat'' spec (\<lambda>n f. f\<lparr>nf_snat_handle := n\<rparr>)) f h1 = (r, f', h')"
        and h1: "owed_rules h1 = owed_rules h"
        by (auto simp: start_snat_def route_source_ip_def split: if_splits sum.splits)
      from keeps_booksD [OF ins i] h1 o show ?thesis by simp
    qed
  qed
qed

lemma start_snat_clean_failure: "clean_failure (start_snat env opts) f"
  using clean_failure_or_stop
  by (auto simp: clean_failure_def start_snat_def Let_def split: if_splits prod.splits sum.splits)

lemma start_snat_results_in:
  assumes "Q f" "\<And>n. Q (f\<lparr>nf_snat_handle := n\<rparr>)"
  shows "results_in (start_snat env opts) f Q"
proof -
  have "results_in (or_stop env (insert_into env ''qnatter_snat'' spec (\<lambda>n f. f\<lparr>nf_snat_handle := n\<rparr>))) f Q" for spec
    using assms(2) by (intro results_in_or_stop insert_into_results_in)
  with assms(1) show ?thesis
    by (fastforce simp: results_in_def start_snat_def Let_def split: if_splits prod.splits sum.splits)
qed

lemma start_marks_books:
  assumes "nf_conn_mark_handle f \<le> 0" "nf_route_mark_handle f \<le> 0"
  shows "keeps_books (start_marks env opts) f"
proof (cases "st_interface opts = []")
  case True
  then show ?thesis by (simp add: start_marks_def keeps_books_def)
next
  case False
  then show ?thesis
    unfolding start_marks_def Let_def
    using assms
    by (simp, intro keeps_books_then keeps_books_or_stop idle_keeps_books [OF idle_ensure_route_policy]
        idle_keeps_books [OF idle_ensure_route_mark_chain] insert_into_keeps_books remembers_slots
        results_in_or_stop idle_results_in [OF idle_ensure_route_policy]
        idle_results_in [OF idle_ensure_route_mark_chain] insert_into_results_in) simp_all
qed

lemma start_marks_clean_failure:
  "clean_failure (start_marks env opts) f"
proof (cases "st_interface opts = []")
  case True
  then show ?thesis by (simp add: start_marks_def clean_failure_def)
next
  case False
  have all: "results_in a f (\<lambda>f. True)" for a f by (simp add: results_in_def)
  from False show ?thesis
    unfolding start_marks_def Let_def
    by (auto intro!: clean_failure_then clean_failure_or_stop results_in_mono [OF all])
qed

definition empty_slots :: "nft_forwarder \<Rightarrow> bool" where
  "empty_slots f \<longleftrightarrow> nf_dnat_handle f \<le> 0 \<and> nf_snat_handle f \<le> 0 \<and>
     nf_conn_mark_handle f \<le> 0 \<and> nf_route_mark_handle f \<le> 0"

lemma empty_slots_iff: "empty_slots f \<longleftrightarrow> held_rules f = {}"
  by (simp add: empty_slots_def held_rules_def conj_ac)

definition nft_body :: "nft_env \<Rightarrow> start_options \<Rightarrow> nft_step" where
  "nft_body env opts =
     then_step (check_version env)
       (then_step (check_ip_forward env opts)
       (then_step (ensure_table env)
       (then_step (start_dnat env opts)
       (then_step (start_snat env opts) (start_marks env opts)))))"

lemma nft_start_body:
  "nft_start env opts f h =
     (if same_address opts then (Some (same_address_error opts), f, h) else nft_body env opts f h)"
  by (simp add: nft_start_def nft_body_def)

lemma nft_body_books: "empty_slots f \<Longrightarrow> keeps_books (nft_body env opts) f"
  unfolding nft_body_def start_dnat_def
  by (intro keeps_books_then idle_keeps_books idle_check_version idle_check_ip_forward idle_ensure_table
      idle_results_in insert_into_keeps_books insert_into_results_in start_snat_books start_snat_results_in
      start_marks_books remembers_slots) (auto simp: empty_slots_def)

lemma nft_body_clean_failure: "held_rules f = {} \<Longrightarrow> clean_failure (nft_body env opts) f"
  unfolding nft_body_def start_dnat_def
  by (intro clean_failure_then idle_clean_failure idle_check_version idle_check_ip_forward idle_ensure_table
      idle_results_in insert_into_clean_failure insert_into_results_in start_snat_clean_failure
      start_snat_results_in start_marks_clean_failure)

interpretation nft: forwarder_contract held_rules owed_rules "nft_start env" "nft_stop env"
proof unfold_locales
  fix opts f h r f' h' e
  assume e: "held_rules f = {}"
  show "owed_rules h' \<subseteq> owed_rules h \<union> held_rules f'" if s: "nft_start env opts f h = (r, f', h')"
    using s e keeps_booksD [OF nft_body_books, of f env opts h r f' h' "owed_rules h"]
    by (auto simp: nft_start_body empty_slots_iff split: if_splits)
  show "held_rules f' = {}" if "nft_start env opts f h = (Some e, f', h')"
    using that e nft_body_clean_failure [OF e, of env opts]
    unfolding nft_start_body clean_failure_def by (simp split: if_splits) blast
qed (auto dest: nft_stop_owed nft_stop_held)

section \<open>Properties\<close>

text \<open>
  C3: an nftables forwarder leaves no rule behind.  If \<open>Start\<close> fails at any step, or succeeds and is
  followed by \<open>Stop\<close>, every rule whose handle nft reported has been asked to be deleted, by that
  handle and in its chain, and nothing is remembered.
\<close>

theorem nft_forwarder_cleans_up:
  assumes "held_rules f = {}" "nft_start env opts f h = (r, f1, h1)"
  shows "(r \<noteq> None \<longrightarrow> owed_rules h1 \<subseteq> owed_rules h \<and> held_rules f1 = {}) \<and>
    (\<forall>r' f2 h2. nft_stop env f1 h1 = (r', f2, h2) \<longrightarrow> owed_rules h2 \<subseteq> owed_rules h \<and> held_rules f2 = {})"
  using nft.failed_start_owes_nothing [OF assms(1)] nft.start_stop_owes_nothing [OF assms] assms(2)
  by blast

text \<open>The rules that the history inserted successfully, oldest first, with the handles it knows.\<close>

fun inserted :: "nft_history \<Rightarrow> (string \<times> string) list" where
  "inserted [] = []"
| "inserted (NftCall (InsertRule chain spec) output None # h) = (chain, spec) # inserted h"
| "inserted (_ # h) = inserted h"

lemma inserted_append [simp]: "inserted (h @ h') = inserted h @ inserted h'"
  by (induction h rule: inserted.induct) simp_all

lemma inserted_delete_rule_by_spec: "delete_rule_by_spec env chain spec h = (r, h') \<Longrightarrow> inserted h' = inserted h"
  by (auto simp: delete_rule_by_spec_def run_nft_def split: prod.splits option.splits sum.splits)

lemma inserted_insert_rule: "insert_rule env chain spec h = (Inr n, h') \<Longrightarrow> inserted h' = inserted h @ [(chain, spec)]"
  by (auto simp: insert_rule_def run_nft_def split: prod.splits option.splits sum.splits)

lemma insert_into_ok:
  "insert_into env chain spec remember f h = (None, f', h') \<Longrightarrow>
   inserted h' = inserted h @ [(chain, spec)] \<and> (\<exists>n. f' = remember n f)"
  by (auto simp: insert_into_def inserted_insert_rule split: prod.splits sum.splits)

lemma inserted_run_ip_checked: "run_ip_checked env args h = (r, h') \<Longrightarrow> inserted h' = inserted h"
  by (auto simp: run_ip_checked_def run_ip_def Let_def split: prod.splits option.splits)

lemma or_stop_ok: "or_stop env a f h = (None, f', h') \<longleftrightarrow> a f h = (None, f', h')"
  by (auto simp: or_stop_def split: prod.splits option.splits)

lemma then_step_ok:
  "then_step a b f h = (None, f', h') \<longleftrightarrow> (\<exists>f1 h1. a f h = (None, f1, h1) \<and> b f1 h1 = (None, f', h'))"
  by (auto simp: then_step_def split: prod.splits option.splits)

lemma ensure_route_policy_ok:
  "ensure_route_policy env iface policy f h = (None, f', h') \<Longrightarrow> f' = f \<and> inserted h' = inserted h"
  by (auto simp: ensure_route_policy_def Let_def run_ip_def dest!: inserted_run_ip_checked split: prod.splits option.splits)

lemma ensure_route_mark_chain_ok:
  "ensure_route_mark_chain env f h = (None, f', h') \<Longrightarrow> f' = f \<and> inserted h' = inserted h"
  by (auto simp: ensure_route_mark_chain_def run_nft_def split: prod.splits option.splits)

lemma ensure_table_ok: "ensure_table env f h = (None, f', h') \<Longrightarrow> f' = f \<and> inserted h' = inserted h"
  by (auto simp: ensure_table_def run_nft_def split: prod.splits option.splits)

lemma start_snat_ok:
  "start_snat env opts f h = (None, f', h') \<Longrightarrow>
   \<exists>source. inserted h' = inserted h @
     (if nf_snat f then [(''qnatter_snat'', snat_spec (if source = [] then opts else opts\<lparr>st_snat_ip := source\<rparr>))] else []) \<and>
     (st_snat_ip opts \<noteq> [] \<longrightarrow> source = [])"
  by (cases "st_snat_ip opts = []")
    (fastforce simp: start_snat_def route_source_ip_def or_stop_ok dest!: insert_into_ok
      split: if_splits sum.splits prod.splits)+

lemma start_marks_ok:
  assumes "start_marks env opts f h = (None, f', h')"
  shows "inserted h' = inserted h @
    (if st_interface opts = [] then []
     else [(''qnatter_mark'', conn_mark_spec opts (rp_mark (route_policy_from_options opts))),
           (''qnatter_mark'', route_mark_spec opts (rp_mark (route_policy_from_options opts)))])"
  using assms
  by (auto simp: start_marks_def Let_def then_step_ok or_stop_ok split: if_splits
      dest!: insert_into_ok ensure_route_policy_ok ensure_route_mark_chain_ok)


text \<open>
  \<open>Start\<close> touches nothing when it must refuse: with the same source and target, with an nft
  that is missing or older than 0.9.6, or with IP forwarding switched off, it returns an error
  and has not run a single \<open>nft\<close> or \<open>ip\<close> command that could change the system.
\<close>

theorem nft_start_refuses:
  assumes "same_address opts \<or> nft_version_check (nv_version env h) \<noteq> None \<or>
    (st_ip opts \<noteq> st_target_ip opts \<and>
     (\<exists>v. nv_ip_forward env (h @ [ReadCall ''nft --version'']) = Inr v \<and> trim_space v \<noteq> ''1''))"
  shows "\<exists>e xs. nft_start env opts f h = (Some e, f, h @ xs) \<and> (\<forall>x \<in> set xs. \<exists>p. x = ReadCall p)"
  using assms
  by (cases "nft_version_check (nv_version env h)")
    (auto simp: nft_start_def then_step_def check_version_def check_ip_forward_def)

section \<open>A rule without a handle\<close>

lemma takeWhile_digits:
  "(\<And>c. c \<in> set ds \<Longrightarrow> is_dec_digit c) \<Longrightarrow> takeWhile is_dec_digit ds = ds"
  by (simp add: takeWhile_eq_all_conv)

lemma find_handle_found:
  assumes "CHR ''#'' \<notin> set s" "ds \<noteq> []" "\<And>c. c \<in> set ds \<Longrightarrow> is_dec_digit c"
  shows "find_handle (s @ handle_mark @ ds) = Some ds"
  using assms(1)
proof (induction s)
  case Nil
  have "takeWhile is_dec_digit (drop (length handle_mark) (handle_mark @ ds)) = ds"
    using assms(3) by (simp add: takeWhile_digits)
  moreover obtain c cs where "handle_mark @ ds = c # cs" by (simp add: handle_mark_def)
  ultimately show ?case using assms(2) by (metis append_Nil find_handle.simps(2) prefixI)
next
  case (Cons c s)
  then have "\<not> prefix handle_mark ((c # s) @ handle_mark @ ds)" by (simp add: handle_mark_def)
  with Cons show ?case by simp
qed

lemma lookup_lines_found:
  assumes "\<And>l. l \<in> set pre \<Longrightarrow> \<not> contains_str l spec" "contains_str line spec"
    and "find_handle line = Some digits" "atoi digits = Some n"
  shows "lookup_lines spec (pre @ line # post) = Some n"
  using assms by (induction pre) auto

text \<open>
  C15: no rule is orphaned when nft inserts it but reports no handle.  The forwarder lists the
  chain, finds the first line that holds the rule, reads the handle there and deletes the rule
  by it; the caller still gets the error.
\<close>

theorem nft_lost_handle_rolls_back:
  assumes "nv_nft env h (command_text (InsertRule chain spec)) = (out, None)"
    and "parse_nftables_handle out = Inl e"
    and "nv_nft env (h @ [NftCall (InsertRule chain spec) out None]) (command_text (ListChain chain)) = (listing, None)"
    and "listing = join [CHR 0x0A] (pre @ (indent @ spec @ '' '' @ handle_mark @ itoa n) # post)"
    and "\<And>l. l \<in> set pre \<Longrightarrow> \<not> contains_str l spec"
    and "\<And>l. l \<in> set pre \<union> {indent, spec} \<union> set post \<Longrightarrow> CHR 0x0A \<notin> set l"
    and "CHR ''#'' \<notin> set (indent @ spec)" "spec \<noteq> []" "0 \<le> n" "n < 2 ^ 63"
  shows "\<exists>e' result. insert_rule env chain spec h =
    (Inl e', h @ [NftCall (InsertRule chain spec) out None, NftCall (ListChain chain) listing None,
                  NftCall (DeleteRule chain n) (fst result) (snd result)])"
proof -
  let ?line = "indent @ spec @ '' '' @ handle_mark @ itoa n"
  have digits: "is_dec_digit c" if "c \<in> set (itoa n)" for c
    using that assms(9) by (simp add: itoa_def) (rule format_uint_dec_chars)
  have nonempty: "itoa n \<noteq> []" using assms(9) by (simp add: itoa_def format_uint_def)
  have "find_handle ?line = Some (itoa n)"
    using find_handle_found [of "indent @ spec @ '' ''" "itoa n"] assms(7) digits nonempty by simp
  moreover have "atoi (itoa n) = Some n" using assms(9,10) by (intro atoi_itoa) simp_all
  moreover have "contains_str ?line spec" by (auto simp: contains_str_iff)
  ultimately have "lookup_lines spec (pre @ ?line # post) = Some n"
    using assms(5) by (intro lookup_lines_found)
  moreover have nl: "CHR 0x0A \<notin> set (itoa n)"
    using digits [of "CHR 0x0A"] by (auto simp: is_dec_digit_def)
  have "CHR 0x0A \<notin> set l" if "l \<in> set (pre @ ?line # post)" for l
    using that assms(6) nl by (auto simp: handle_mark_def)
  then have "split_on (CHR 0x0A) listing = pre @ ?line # post"
    unfolding assms(4) by (intro split_on_join) simp_all
  ultimately have "lookup_rule_handle listing spec = Inr n"
    using assms(8) by (simp add: lookup_rule_handle_def)
  with assms(1-3) show ?thesis
    by (auto simp: insert_rule_def delete_rule_by_spec_def run_nft_def split: prod.splits option.splits; metis fst_conv snd_conv)
qed

text \<open>A router on which everything works, and one whose nft accepts the first rule only.\<close>

definition sample_nft :: "bool \<Rightarrow> nft_env" where
  "sample_nft marks =
     \<lparr>nv_nft = \<lambda>h cmd. if marks \<or> length h < 4 then (''# handle 7'', None) else ([], Some (errorf ''no such chain'')),
      nv_ip = \<lambda>h args. ([], None),
      nv_version = \<lambda>h. Inr ''nftables v1.0.8 (Old Doc Yak)'',
      nv_ip_forward = \<lambda>h. Inr (''1'' @ [CHR 0x0A]),
      nv_route_get = \<lambda>h target. Inl (errorf ''no route'')\<rparr>"

definition sample_options :: "string \<Rightarrow> start_options" where
  "sample_options iface =
     \<lparr>st_ip = ''10.0.0.2'', st_snat_ip = [], st_port = 4000, st_target_ip = ''10.0.0.9'', st_target_port = 80,
      st_udp = False, st_interface = iface, st_route_mark = [], st_route_table = [], st_route_priority = []\<rparr>"

lemma dotted_3: "dotted 3 s = dotted (Suc (Suc (Suc 0))) s"
  by (simp only: numeral_3_eq_3)

lemma sample_version_ok: "nft_version_check (nv_version (sample_nft b) h) = None"
  by (simp add: sample_nft_def go_defs dotted_3)

lemma sample_handle: "parse_nftables_handle ''# handle 7'' = Inr 7"
  by (simp add: go_defs)

lemma sample_forwarding: "check_ip_forward (sample_nft True) opts f h = (None, f, h) \<or>
  check_ip_forward (sample_nft True) opts f h = (None, f, h @ [ReadCall ''/proc/sys/net/ipv4/ip_forward''])"
  by (simp add: check_ip_forward_def sample_nft_def trim_space_def is_space_def)

lemma sample_run: "run_nft (sample_nft True) cmd h = ((''# handle 7'', None), h @ [NftCall cmd ''# handle 7'' None])"
  by (simp add: run_nft_def sample_nft_def)

lemma sample_start:
  "\<exists>h'. nft_start (sample_nft True) (sample_options []) (fresh_nft_forwarder False) [] =
     (None, fresh_nft_forwarder False\<lparr>nf_dnat_handle := 7\<rparr>, h')"
  using sample_forwarding [of "sample_options []" "fresh_nft_forwarder False" "[ReadCall ''nft --version'']"]
  by (auto simp: nft_start_def then_step_def check_version_def ensure_table_def sample_run sample_version_ok
      start_dnat_def insert_into_def insert_rule_def sample_handle start_snat_def start_marks_def
      sample_options_def same_address_def fresh_nft_forwarder_def)

theorem nft_start_refuses_witness:
  "\<exists>e xs. nft_start (sample_nft True) (sample_options [] \<lparr>st_ip := ''10.0.0.9'', st_port := 80\<rparr>) (fresh_nft_forwarder False) [] =
     (Some e, fresh_nft_forwarder False, [] @ xs) \<and> (\<forall>x \<in> set xs. \<exists>p. x = ReadCall p)"
  by (rule nft_start_refuses) (simp add: same_address_def sample_options_def)


theorem nft_forwarder_cleans_up_witness:
  "\<exists>f1 h1 r f2 h2. nft_start (sample_nft True) (sample_options []) (fresh_nft_forwarder False) [] = (None, f1, h1) \<and>
     nf_dnat_handle f1 = 7 \<and> nft_stop (sample_nft True) f1 h1 = (r, f2, h2) \<and> owed_rules h2 = {}"
proof -
  from sample_start obtain h1 where
    run: "nft_start (sample_nft True) (sample_options []) (fresh_nft_forwarder False) [] =
      (None, fresh_nft_forwarder False\<lparr>nf_dnat_handle := 7\<rparr>, h1)" ..
  obtain r f2 h2 where stop: "nft_stop (sample_nft True) (fresh_nft_forwarder False\<lparr>nf_dnat_handle := 7\<rparr>) h1 = (r, f2, h2)"
    by (metis prod.collapse)
  from nft_forwarder_cleans_up [OF held_rules_fresh run] stop have "owed_rules h2 \<subseteq> owed_rules []" by blast
  then have "owed_rules h2 = {}" by (simp add: owed_rules_def)
  with run stop show ?thesis by fastforce
qed

theorem nft_lost_handle_rolls_back_witness:
  "\<exists>e' result h. insert_rule
     \<lparr>nv_nft = \<lambda>h cmd. if length h = 1 then (join [CHR 0x0A] [''table ip qnatter {'', ''  ip daddr 1.2.3.4 # handle 12'', ''}''], None) else ([], None),
      nv_ip = \<lambda>h args. ([], None), nv_version = \<lambda>h. Inr [], nv_ip_forward = \<lambda>h. Inr [], nv_route_get = \<lambda>h target. Inr []\<rparr>
     ''qnatter_dnat'' ''ip daddr 1.2.3.4'' [] =
    (Inl e', h @ [NftCall (DeleteRule ''qnatter_dnat'' 12) (fst result) (snd result)])"
proof -
  let ?env = "\<lparr>nv_nft = \<lambda>h cmd. if length h = 1 then (join [CHR 0x0A] [''table ip qnatter {'', ''  ip daddr 1.2.3.4 # handle 12'', ''}''], None) else ([], None),
      nv_ip = \<lambda>h args. ([], None), nv_version = \<lambda>h. Inr [], nv_ip_forward = \<lambda>h. Inr [], nv_route_get = \<lambda>h target. Inr []\<rparr>"
  have itoa: "itoa 12 = ''12''" by (simp add: itoa_def format_uint_def digits_in.simps digit_char_def char_of_eq_iff)
  have "\<exists>e' result. insert_rule ?env ''qnatter_dnat'' ''ip daddr 1.2.3.4'' [] =
    (Inl e', [] @ [NftCall (InsertRule ''qnatter_dnat'' ''ip daddr 1.2.3.4'') [] None,
       NftCall (ListChain ''qnatter_dnat'') (join [CHR 0x0A] ([''table ip qnatter {''] @ (''  '' @ ''ip daddr 1.2.3.4'' @ '' '' @ handle_mark @ itoa 12) # [''}''])) None,
       NftCall (DeleteRule ''qnatter_dnat'' 12) (fst result) (snd result)])"
    by (rule nft_lost_handle_rolls_back [where e = "errorf ''unknown nftables handle''", OF _ _ _ refl])
      (auto simp: itoa handle_mark_def parse_nftables_handle_def prefix_def)
  then obtain e' result where "insert_rule ?env ''qnatter_dnat'' ''ip daddr 1.2.3.4'' [] =
    (Inl e', [NftCall (InsertRule ''qnatter_dnat'' ''ip daddr 1.2.3.4'') [] None,
       NftCall (ListChain ''qnatter_dnat'') (join [CHR 0x0A] ([''table ip qnatter {''] @ (''  '' @ ''ip daddr 1.2.3.4'' @ '' '' @ handle_mark @ itoa 12) # [''}''])) None] @
       [NftCall (DeleteRule ''qnatter_dnat'' 12) (fst result) (snd result)])" by auto
  then show ?thesis by blast
qed

end
