(* ===== verification/Forward_External.thy ===== *)
theory Forward_External
  imports Forward_Rules
begin

text \<open>
  \<open>internal/forward/external.go\<close>: the forwarders that run \<open>socat\<close> and \<open>gost\<close> as child processes.
  The operating system is a history of calls and an environment that answers them; a process is
  named by the position of its start in the history.
\<close>

text \<open>How a child ended: well, by a signal, or with an error.\<close>

datatype wait_result = WaitOk | WaitSignaled | WaitError goerror

datatype proc_event =
    VersionCall string
  | SpawnCall string "string list" "goerror option"
  | SleepCall int
  | ExitedCall nat bool
  | TerminateCall nat "goerror option"
  | KillCall nat
  | GraceCall nat bool
  | WaitCall nat wait_result

type_synonym proc_history = "proc_event list"

record proc_env =
  pv_version :: "proc_history \<Rightarrow> string \<Rightarrow> goerror + string"
  pv_spawn :: "proc_history \<Rightarrow> string \<Rightarrow> string list \<Rightarrow> goerror option"
  pv_exited :: "proc_history \<Rightarrow> nat \<Rightarrow> bool"
  pv_terminate :: "proc_history \<Rightarrow> nat \<Rightarrow> goerror option"
  pv_in_grace :: "proc_history \<Rightarrow> nat \<Rightarrow> bool"
  pv_wait :: "proc_history \<Rightarrow> nat \<Rightarrow> wait_result"

definition check_external :: "proc_env \<Rightarrow> string \<Rightarrow> proc_history \<Rightarrow> goerror option \<times> proc_history" where
  "check_external env name h = (external_version_check name (pv_version env h name), h @ [VersionCall name])"

definition default_startup_delay :: "int \<Rightarrow> int" where
  "default_startup_delay delay = (if 0 < delay then delay else 1000000000)"

definition start_external ::
  "proc_env \<Rightarrow> int \<Rightarrow> string \<Rightarrow> string list \<Rightarrow> proc_history \<Rightarrow> (goerror + nat) \<times> proc_history" where
  "start_external env delay name args h =
     (let started = pv_spawn env h name args; i = length h; h1 = h @ [SpawnCall name args started] in
      case started of
        Some e \<Rightarrow> (Inl e, h1)
      | None \<Rightarrow>
          let h2 = h1 @ [SleepCall (default_startup_delay delay)];
              gone = pv_exited env h2 i;
              h3 = h2 @ [ExitedCall i gone]
          in if gone then
               (Inl (errorf (name @ '' exited too quickly'')),
                h3 @ [KillCall i, WaitCall i (pv_wait env (h3 @ [KillCall i]) i)])
             else (Inr i, h3))"

definition ignore_termination_signal :: "wait_result \<Rightarrow> goerror option" where
  "ignore_termination_signal w =
     (case w of WaitOk \<Rightarrow> None | WaitSignaled \<Rightarrow> None | WaitError e \<Rightarrow> Some e)"

text \<open>
  \<open>stopExternal\<close>.  The process is forgotten first.  \<open>pv_in_grace\<close> says whether the child ends
  within the three seconds of grace; otherwise it is killed and then waited for.
\<close>

definition stop_external :: "proc_env \<Rightarrow> nat option \<Rightarrow> proc_history \<Rightarrow> goerror option \<times> nat option \<times> proc_history" where
  "stop_external env process h =
     (case process of
        None \<Rightarrow> (None, None, h)
      | Some i \<Rightarrow>
          let gone = pv_exited env h i; h1 = h @ [ExitedCall i gone] in
          if gone then
            let w = pv_wait env h1 i in (ignore_termination_signal w, None, h1 @ [WaitCall i w])
          else
            let e = pv_terminate env h1 i; h2 = h1 @ [TerminateCall i e] in
            (case e of
               Some err \<Rightarrow> (Some err, None, h2)
             | None \<Rightarrow>
                 let ended = pv_in_grace env h2 i;
                     h3 = h2 @ [GraceCall i ended] @ (if ended then [] else [KillCall i]);
                     w = pv_wait env h3 i
                 in (ignore_termination_signal w, None, h3 @ [WaitCall i w])))"

section \<open>socat\<close>

record socat_forwarder =
  sf_process :: "nat option"
  sf_udp_timeout :: int
  sf_max_children :: int
  sf_startup_delay :: int

definition socat_args :: "int \<Rightarrow> int \<Rightarrow> start_options \<Rightarrow> string list" where
  "socat_args udp_timeout max_children opts =
     (let timeout = (if udp_timeout = 0 then 60 else udp_timeout);
          children = (if max_children = 0 then 128 else max_children);
          proto = (if st_udp opts then ''UDP'' else ''TCP'');
          listen = proto @ ''4-LISTEN:'' @ itoa (st_port opts) @
            (if st_ip opts \<noteq> [] then '',bind='' @ st_ip opts else [])
      in (if st_udp opts then [''-T'' @ itoa timeout] else []) @
         [listen @ '',reuseaddr,fork,max-children='' @ itoa children,
          proto @ ''4:'' @ st_target_ip opts @ '':'' @ itoa (st_target_port opts)])"

definition socat_launch ::
  "proc_env \<Rightarrow> string \<Rightarrow> string list \<Rightarrow> socat_forwarder \<Rightarrow> proc_history \<Rightarrow> goerror option \<times> socat_forwarder \<times> proc_history" where
  "socat_launch env name args f h =
     (case check_external env name h of
        (Some e, h1) \<Rightarrow> (Some e, f, h1)
      | (None, h1) \<Rightarrow>
          (case start_external env (sf_startup_delay f) name args h1 of
             (Inl e, h2) \<Rightarrow> (Some e, f, h2)
           | (Inr i, h2) \<Rightarrow> (None, f\<lparr>sf_process := Some i\<rparr>, h2)))"

definition socat_start ::
  "proc_env \<Rightarrow> start_options \<Rightarrow> socat_forwarder \<Rightarrow> proc_history \<Rightarrow> goerror option \<times> socat_forwarder \<times> proc_history" where
  "socat_start env opts f h =
     (if same_address opts then (Some (same_address_error opts), f, h)
      else socat_launch env ''socat'' (socat_args (sf_udp_timeout f) (sf_max_children f) opts) f h)"

definition socat_stop ::
  "proc_env \<Rightarrow> socat_forwarder \<Rightarrow> proc_history \<Rightarrow> goerror option \<times> socat_forwarder \<times> proc_history" where
  "socat_stop env f h =
     (case stop_external env (sf_process f) h of (e, p, h') \<Rightarrow> (e, f\<lparr>sf_process := p\<rparr>, h'))"

section \<open>gost\<close>

record gost_forwarder =
  gf_process :: "nat option"
  gf_udp_timeout :: int
  gf_startup_delay :: int

definition gost_arg :: "int \<Rightarrow> start_options \<Rightarrow> string" where
  "gost_arg udp_timeout opts =
     (let timeout = (if udp_timeout = 0 then 60 else udp_timeout);
          proto = (if st_udp opts then ''udp'' else ''tcp'')
      in ''-L='' @ proto @ ''://'' @ st_ip opts @ '':'' @ itoa (st_port opts) @ ''/'' @
         st_target_ip opts @ '':'' @ itoa (st_target_port opts) @
         (if st_udp opts then ''?ttl='' @ itoa timeout @ ''s'' else []))"

definition gost_launch ::
  "proc_env \<Rightarrow> string \<Rightarrow> string list \<Rightarrow> gost_forwarder \<Rightarrow> proc_history \<Rightarrow> goerror option \<times> gost_forwarder \<times> proc_history" where
  "gost_launch env name args f h =
     (case check_external env name h of
        (Some e, h1) \<Rightarrow> (Some e, f, h1)
      | (None, h1) \<Rightarrow>
          (case start_external env (gf_startup_delay f) name args h1 of
             (Inl e, h2) \<Rightarrow> (Some e, f, h2)
           | (Inr i, h2) \<Rightarrow> (None, f\<lparr>gf_process := Some i\<rparr>, h2)))"

definition gost_start ::
  "proc_env \<Rightarrow> start_options \<Rightarrow> gost_forwarder \<Rightarrow> proc_history \<Rightarrow> goerror option \<times> gost_forwarder \<times> proc_history" where
  "gost_start env opts f h =
     (if same_address opts then (Some (same_address_error opts), f, h)
      else gost_launch env ''gost'' [gost_arg (gf_udp_timeout f) opts] f h)"

definition gost_stop ::
  "proc_env \<Rightarrow> gost_forwarder \<Rightarrow> proc_history \<Rightarrow> goerror option \<times> gost_forwarder \<times> proc_history" where
  "gost_stop env f h =
     (case stop_external env (gf_process f) h of (e, p, h') \<Rightarrow> (e, f\<lparr>gf_process := p\<rparr>, h'))"

section \<open>The contract\<close>

text \<open>
  A process is owed from its start until the program has waited for it or its signal has been
  refused, which \<open>os.Process.Signal\<close> does for a process that has finished.
\<close>

definition spawned :: "proc_history \<Rightarrow> nat set" where
  "spawned h = {i. i < length h \<and> (\<exists>name args. h ! i = SpawnCall name args None)}"

definition ended :: "proc_history \<Rightarrow> nat set" where
  "ended h = {i. (\<exists>w. WaitCall i w \<in> set h) \<or> (\<exists>e. TerminateCall i (Some e) \<in> set h)}"

definition owed_processes :: "proc_history \<Rightarrow> nat set" where
  "owed_processes h = spawned h - ended h"

lemma owed_start_external:
  "start_external env delay name args h = (r, h') \<Longrightarrow>
   owed_processes h' \<subseteq> owed_processes h \<union> (case r of Inr i \<Rightarrow> {i} | Inl _ \<Rightarrow> {})"
  by (auto simp: start_external_def Let_def owed_processes_def spawned_def ended_def nth_append less_Suc_eq
      split: option.splits if_splits sum.splits)

lemma owed_stop_external:
  "stop_external env process h = (r, p, h') \<Longrightarrow>
   owed_processes h' \<subseteq> owed_processes h - set_option process \<and> p = None"
  by (auto simp: stop_external_def Let_def owed_processes_def spawned_def ended_def nth_append less_Suc_eq
      split: option.splits if_splits)

lemma owed_check_external: "check_external env name h = (e, h') \<Longrightarrow> owed_processes h' \<subseteq> owed_processes h"
  by (auto simp: check_external_def owed_processes_def spawned_def ended_def nth_append less_Suc_eq)

interpretation socat: forwarder_contract "\<lambda>f. set_option (sf_process f)" owed_processes "socat_start env" "socat_stop env"
proof unfold_locales
  fix f opts h r f' h' e
  show "owed_processes h' \<subseteq> owed_processes h \<union> set_option (sf_process f')"
    if "set_option (sf_process f) = {}" "socat_start env opts f h = (r, f', h')"
    using that by (fastforce simp: socat_start_def socat_launch_def dest!: owed_check_external owed_start_external
        split: if_splits prod.splits option.splits sum.splits)
  show "set_option (sf_process f') = {}"
    if "set_option (sf_process f) = {}" "socat_start env opts f h = (Some e, f', h')"
    using that by (auto simp: socat_start_def socat_launch_def split: if_splits prod.splits option.splits sum.splits)
qed (auto simp: socat_stop_def dest!: owed_stop_external split: prod.splits)

interpretation gost: forwarder_contract "\<lambda>f. set_option (gf_process f)" owed_processes "gost_start env" "gost_stop env"
proof unfold_locales
  fix f opts h r f' h' e
  show "owed_processes h' \<subseteq> owed_processes h \<union> set_option (gf_process f')"
    if "set_option (gf_process f) = {}" "gost_start env opts f h = (r, f', h')"
    using that by (fastforce simp: gost_start_def gost_launch_def dest!: owed_check_external owed_start_external
        split: if_splits prod.splits option.splits sum.splits)
  show "set_option (gf_process f') = {}"
    if "set_option (gf_process f) = {}" "gost_start env opts f h = (Some e, f', h')"
    using that by (auto simp: gost_start_def gost_launch_def split: if_splits prod.splits option.splits sum.splits)
qed (auto simp: gost_stop_def dest!: owed_stop_external split: prod.splits)

section \<open>Properties\<close>



definition sample_os :: "proc_env" where
  "sample_os = \<lparr>pv_version = \<lambda>h name. Inr (if name = ''socat'' then ''socat version 1.8.0.0 on Linux'' else ''gost 2.11.5''),
     pv_spawn = \<lambda>h name args. None, pv_exited = \<lambda>h i. 2 < length h \<and> length h < 4, pv_terminate = \<lambda>h i. None,
     pv_in_grace = \<lambda>h i. False, pv_wait = \<lambda>h i. WaitSignaled\<rparr>"



end
