(* ===== verification/Forward_Socket.thy ===== *)
theory Forward_Socket
  imports Forward_Rules "HOL-Library.AList" "HOL-Library.Multiset"
begin

text \<open>
  The forwarders that listen themselves: \<open>socket.go\<close> (\<open>SocketForwarder\<close> and its set of UDP
  clients), \<open>testserver.go\<close>, and \<open>portconflict.go\<close>, which reads \<open>/proc/net\<close> before a shared bind.
\<close>

section \<open>portconflict.go\<close>

definition parse_bind_address :: "string \<Rightarrow> addr option" where
  "parse_bind_address ip =
     (if ip = [] then Some ipv4_unspecified
      else case parse_addr ip of
             None \<Rightarrow> None
           | Some a \<Rightarrow> if is4 a then Some a else None)"

definition addr_conflicts :: "addr \<Rightarrow> addr \<Rightarrow> bool" where
  "addr_conflicts want entry \<longleftrightarrow> is_unspecified entry \<or> want = entry"

text \<open>The address field is read as a little-endian word, whatever the machine.\<close>

definition parse_proc_net_endpoint :: "string \<Rightarrow> (addr \<times> 16 word) option" where
  "parse_proc_net_endpoint field =
     (case cut (CHR '':'') field of
        None \<Rightarrow> None
      | Some (host, ptext) \<Rightarrow>
          if length host \<noteq> 8 then None
          else (case parse_uint 16 32 host of
                 None \<Rightarrow> None
               | Some raw \<Rightarrow>
                   (case parse_uint 16 16 ptext of
                      None \<Rightarrow> None
                    | Some port \<Rightarrow>
                        let w = (of_nat raw :: 64 word) in
                        Some (Addr4 (ucast w) (ucast (drop_bit 8 w)) (ucast (drop_bit 16 w)) (ucast (drop_bit 24 w)),
                              of_nat port))))"

definition parse_proc_net_port :: "string \<Rightarrow> 16 word option" where
  "parse_proc_net_port field = map_option snd (parse_proc_net_endpoint field)"

definition proc_net_entry :: "addr \<Rightarrow> 16 word \<Rightarrow> bool \<Rightarrow> string \<Rightarrow> bool" where
  "proc_net_entry want port udp line =
     (let fs = Go_Base.fields line in
      if length fs < 4 then False
      else case parse_proc_net_endpoint (fs ! 1) of
             None \<Rightarrow> False
           | Some (laddr, lport) \<Rightarrow>
               if lport \<noteq> port \<or> \<not> addr_conflicts want laddr then False
               else if udp then parse_proc_net_port (fs ! 2) = Some 0
               else equal_fold (fs ! 3) ''0A'')"

definition has_proc_net_listener :: "string \<Rightarrow> addr \<Rightarrow> 16 word \<Rightarrow> bool \<Rightarrow> bool" where
  "has_proc_net_listener content want port udp =
     list_ex (proc_net_entry want port udp) (drop 1 (split_on (CHR 0x0A) content))"

text \<open>\<open>proc\<close> is the content of \<open>/proc/net/tcp\<close> or \<open>/proc/net/udp\<close>, or \<open>None\<close> when it cannot be read.\<close>

definition shared_listen_port_error :: "(string \<Rightarrow> string option) \<Rightarrow> string \<Rightarrow> int \<Rightarrow> bool \<Rightarrow> goerror option" where
  "shared_listen_port_error proc ip port udp =
     (if port \<le> 0 then None
      else case parse_bind_address ip of
             None \<Rightarrow> None
           | Some want \<Rightarrow>
               (case proc (if udp then ''/proc/net/udp'' else ''/proc/net/tcp'') of
                  None \<Rightarrow> None
                | Some raw \<Rightarrow>
                    if \<not> has_proc_net_listener raw want (of_int port) udp then None
                    else Some (errorf (''cannot listen on '' @ ip @ '':'' @ itoa port @
                           '': another process is already bound to this '' @ (if udp then ''udp'' else ''tcp'') @
                           '' port; a second QNatter instance sharing the port would split inbound connections between '' @
                           ''different forward targets. Stop the other instance or move this one to another bind port (-b)''))))"

section \<open>Listening sockets\<close>

datatype listen_event =
    ListenCall string string sock_options "goerror option"
  | CloseCall nat "goerror option"

type_synonym listen_history = "listen_event list"

record listen_env =
  lv_proc :: "string \<Rightarrow> string option"
  lv_listen :: "listen_history \<Rightarrow> string \<Rightarrow> string \<Rightarrow> sock_options \<Rightarrow> goerror option"
  lv_close :: "listen_history \<Rightarrow> nat \<Rightarrow> goerror option"

definition listen_on ::
  "listen_env \<Rightarrow> string \<Rightarrow> string \<Rightarrow> int \<Rightarrow> string \<Rightarrow> listen_history \<Rightarrow> (goerror + nat) \<times> listen_history" where
  "listen_on env network ip port iface h =
     (let address = ip @ '':'' @ itoa port;
          opts = \<lparr>so_interface = iface, so_reuse = True, so_disable_reuse_port = False\<rparr>;
          answer = lv_listen env h network address opts
      in ((case answer of None \<Rightarrow> Inr (length h) | Some e \<Rightarrow> Inl e),
          h @ [ListenCall network address opts answer]))"

definition close_socket :: "listen_env \<Rightarrow> nat option \<Rightarrow> listen_history \<Rightarrow> goerror option \<times> listen_history" where
  "close_socket env s h =
     (case s of
        None \<Rightarrow> (None, h)
      | Some i \<Rightarrow> let e = lv_close env h i in (e, h @ [CloseCall i e]))"

text \<open>Both stops close the TCP listener, then the UDP socket, and report the first error.\<close>

definition close_both :: "listen_env \<Rightarrow> nat option \<Rightarrow> nat option \<Rightarrow> listen_history \<Rightarrow> goerror option \<times> listen_history" where
  "close_both env tcp udp h =
     (let (e1, h1) = close_socket env tcp h; (e2, h2) = close_socket env udp h1 in
      (if e1 = None then e2 else e1, h2))"

section \<open>socket.go: start and stop\<close>

record socket_forwarder =
  sk_listener :: "nat option"
  sk_udp :: "nat option"
  sk_target :: string

definition default_any :: "string \<Rightarrow> string" where
  "default_any ip = (if ip = [] then ''0.0.0.0'' else ip)"

definition target_text :: "start_options \<Rightarrow> string" where
  "target_text opts = st_target_ip opts @ '':'' @ itoa (st_target_port opts)"

definition socket_start_tcp ::
  "listen_env \<Rightarrow> start_options \<Rightarrow> socket_forwarder \<Rightarrow> listen_history \<Rightarrow> goerror option \<times> socket_forwarder \<times> listen_history" where
  "socket_start_tcp env opts f h =
     (case listen_on env ''tcp'' (st_ip opts) (st_port opts) (st_interface opts) h of
        (Inl e, h') \<Rightarrow> (Some e, f, h')
      | (Inr i, h') \<Rightarrow> (None, f\<lparr>sk_listener := Some i, sk_target := target_text opts\<rparr>, h'))"

definition socket_start_udp ::
  "listen_env \<Rightarrow> start_options \<Rightarrow> socket_forwarder \<Rightarrow> listen_history \<Rightarrow> goerror option \<times> socket_forwarder \<times> listen_history" where
  "socket_start_udp env opts f h =
     (case listen_on env ''udp'' (st_ip opts) (st_port opts) (st_interface opts) h of
        (Inl e, h') \<Rightarrow> (Some e, f, h')
      | (Inr i, h') \<Rightarrow> (None, f\<lparr>sk_udp := Some i, sk_target := target_text opts\<rparr>, h'))"

definition socket_start ::
  "listen_env \<Rightarrow> start_options \<Rightarrow> socket_forwarder \<Rightarrow> listen_history \<Rightarrow> goerror option \<times> socket_forwarder \<times> listen_history" where
  "socket_start env opts0 f h =
     (let opts = opts0\<lparr>st_ip := default_any (st_ip opts0), st_target_ip := default_any (st_target_ip opts0)\<rparr> in
      if same_address opts then (Some (same_address_error opts), f, h)
      else case shared_listen_port_error (lv_proc env) (st_ip opts) (st_port opts) (st_udp opts) of
             Some e \<Rightarrow> (Some e, f, h)
           | None \<Rightarrow>
               if st_udp opts then socket_start_udp env opts f h else socket_start_tcp env opts f h)"

definition socket_stop ::
  "listen_env \<Rightarrow> socket_forwarder \<Rightarrow> listen_history \<Rightarrow> goerror option \<times> socket_forwarder \<times> listen_history" where
  "socket_stop env f h =
     (case close_both env (sk_listener f) (sk_udp f) h of
        (e, h') \<Rightarrow> (e, f\<lparr>sk_listener := None, sk_udp := None\<rparr>, h'))"

section \<open>testserver.go: start and stop\<close>

record test_server =
  ts_tcp :: "nat option"
  ts_udp :: "nat option"

definition test_server_start_tcp ::
  "listen_env \<Rightarrow> start_options \<Rightarrow> test_server \<Rightarrow> listen_history \<Rightarrow> goerror option \<times> test_server \<times> listen_history" where
  "test_server_start_tcp env opts s h =
     (case listen_on env ''tcp'' (st_ip opts) (st_port opts) (st_interface opts) h of
        (Inl e, h') \<Rightarrow> (Some e, s, h')
      | (Inr i, h') \<Rightarrow> (None, s\<lparr>ts_tcp := Some i\<rparr>, h'))"

definition test_server_start_udp ::
  "listen_env \<Rightarrow> start_options \<Rightarrow> test_server \<Rightarrow> listen_history \<Rightarrow> goerror option \<times> test_server \<times> listen_history" where
  "test_server_start_udp env opts s h =
     (case listen_on env ''udp'' (st_ip opts) (st_port opts) (st_interface opts) h of
        (Inl e, h') \<Rightarrow> (Some e, s, h')
      | (Inr i, h') \<Rightarrow> (None, s\<lparr>ts_udp := Some i\<rparr>, h'))"

definition test_server_start ::
  "listen_env \<Rightarrow> start_options \<Rightarrow> test_server \<Rightarrow> listen_history \<Rightarrow> goerror option \<times> test_server \<times> listen_history" where
  "test_server_start env opts0 s h =
     (let opts = opts0\<lparr>st_ip := default_any (st_ip opts0)\<rparr> in
      case shared_listen_port_error (lv_proc env) (st_ip opts) (st_port opts) (st_udp opts) of
        Some e \<Rightarrow> (Some e, s, h)
      | None \<Rightarrow>
          if st_udp opts then test_server_start_udp env opts s h else test_server_start_tcp env opts s h)"

definition test_server_stop ::
  "listen_env \<Rightarrow> test_server \<Rightarrow> listen_history \<Rightarrow> goerror option \<times> test_server \<times> listen_history" where
  "test_server_stop env s h =
     (case close_both env (ts_tcp s) (ts_udp s) h of
        (e, h') \<Rightarrow> (e, s\<lparr>ts_tcp := None, ts_udp := None\<rparr>, h'))"

lemmas forward_socket_defs [go_defs] =
  parse_bind_address_def addr_conflicts_def parse_proc_net_endpoint_def parse_proc_net_port_def
  proc_net_entry_def has_proc_net_listener_def shared_listen_port_error_def listen_on_def
  close_socket_def close_both_def default_any_def target_text_def socket_start_tcp_def socket_start_udp_def
  socket_start_def socket_stop_def test_server_start_tcp_def test_server_start_udp_def test_server_start_def
  test_server_stop_def

lemmas socket_start_defs = socket_start_def socket_start_tcp_def socket_start_udp_def

lemmas test_server_start_defs = test_server_start_def test_server_start_tcp_def test_server_start_udp_def

section \<open>Reading /proc/net\<close>

text \<open>How the kernel prints a number: upper-case hexadecimal digits, padded to a width.\<close>

definition kernel_hex :: "nat \<Rightarrow> nat \<Rightarrow> string" where
  "kernel_hex width n = map to_upper (pad_zero width (format_uint 16 n))"

lemma digit_value_to_upper: "digit_value (to_upper c) = digit_value c"
proof -
  have "(of_char c :: nat) < 256" using nat_of_char_less_256 by simp
  then have "of_char (to_upper c) = (if 97 \<le> (of_char c :: nat) \<and> of_char c \<le> (122 :: nat) then of_char c - 32 else of_char c :: nat)"
    by (auto simp: to_upper_def Let_def intro!: mod_less)
  then show ?thesis by (auto simp: digit_value_def Let_def)
qed

lemma parse_digits_to_upper: "parse_digits b acc (map to_upper s) = parse_digits b acc s"
  by (induction s arbitrary: acc) (auto simp: digit_value_to_upper split: option.splits)

lemma parse_kernel_hex:
  assumes "n < 2 ^ bits"
  shows "parse_uint 16 bits (kernel_hex width n) = Some n"
proof -
  have "parse_digits 16 0 (kernel_hex width n) = Some n"
    unfolding kernel_hex_def parse_digits_to_upper pad_zero_def
    by (simp add: parse_digits_zeros parse_digits_digits_in format_uint_def)
  moreover have "kernel_hex width n \<noteq> []"
    by (simp add: kernel_hex_def pad_zero_def format_uint_def)
  ultimately show ?thesis using assms by (simp add: parse_uint_def)
qed

lemma length_kernel_hex: "n < 16 ^ k \<Longrightarrow> 0 < k \<Longrightarrow> length (kernel_hex k n) = k"
  using length_digits_in [of n 16 k] by (simp add: kernel_hex_def pad_zero_def format_uint_def)

lemma kernel_hex_chars:
  assumes "c \<in> set (kernel_hex width n)"
  shows "digit_value c \<noteq> None"
proof -
  have bound: "e < 16" if "e \<in> set (digits_in 16 n)" for e
    by (rule digits_in_bound [OF _ that]) simp
  from assms consider "c = to_upper (CHR ''0'')" | e where "e \<in> set (digits_in 16 n)" "c = to_upper (digit_char e)"
    by (auto simp: kernel_hex_def pad_zero_def format_uint_def)
  then show ?thesis
  proof cases
    case 1
    then show ?thesis by (simp add: digit_value_to_upper) (simp add: digit_value_def)
  next
    case (2 e)
    with bound [OF 2(1)] show ?thesis by (simp add: digit_value_to_upper digit_value_digit_char)
  qed
qed

lemma cut_append: "c \<notin> set s \<Longrightarrow> cut c (s @ c # t) = Some (s, t)"
  by (simp add: cut_def takeWhile_tail dropWhile_append3 dropWhile_append)

definition kernel_endpoint :: "nat \<Rightarrow> nat \<Rightarrow> string" where
  "kernel_endpoint word port = kernel_hex 8 word @ '':'' @ kernel_hex 4 port"

definition le_word :: "byte \<Rightarrow> byte \<Rightarrow> byte \<Rightarrow> byte \<Rightarrow> nat" where
  "le_word a b c d = unat (be32 d c b a)"

lemma parse_kernel_endpoint:
  "parse_proc_net_endpoint (kernel_endpoint (le_word a b c d) (unat port)) = Some (Addr4 a b c d, port)"
proof -
  have w: "le_word a b c d < 2 ^ 32" "unat port < 2 ^ 16"
    using unsigned_less [of "be32 d c b a", where 'a = nat] unsigned_less [of port, where 'a = nat]
    by (simp_all add: le_word_def)
  have "CHR '':'' \<notin> set (kernel_hex 8 (le_word a b c d))"
    using kernel_hex_chars [of "CHR '':''"] by (auto simp: digit_value_def)
  then have "cut (CHR '':'') (kernel_endpoint (le_word a b c d) (unat port)) =
      Some (kernel_hex 8 (le_word a b c d), kernel_hex 4 (unat port))"
    by (simp add: kernel_endpoint_def cut_append)
  moreover have "length (kernel_hex 8 (le_word a b c d)) = 8"
    using w(1) by (intro length_kernel_hex) simp_all
  moreover have n: "(of_nat (le_word a b c d) :: 64 word) = ucast (be32 d c b a)"
    by (simp add: le_word_def unsigned_of_nat unsigned_ucast_eq)
  have "(ucast (of_nat (le_word a b c d) :: 64 word) :: byte) = a"
    "(ucast (drop_bit 8 (of_nat (le_word a b c d) :: 64 word)) :: byte) = b"
    "(ucast (drop_bit 16 (of_nat (le_word a b c d) :: 64 word)) :: byte) = c"
    "(ucast (drop_bit 24 (of_nat (le_word a b c d) :: 64 word)) :: byte) = d"
    unfolding n be32_def by (rule bit_word_eqI, auto simp: bit_simps dest: bit_imp_le_length)+
  ultimately show ?thesis
    using parse_kernel_hex [OF w(1)] parse_kernel_hex [OF w(2)]
    by (simp add: parse_proc_net_endpoint_def)
qed

lemma entry_conflicts:
  assumes "Go_Base.fields line = sl # kernel_endpoint (le_word a b c d) (unat port) # remote # st # others"
    and "addr_conflicts want (Addr4 a b c d)"
    and "if udp then parse_proc_net_port remote = Some 0 else equal_fold st ''0A''"
  shows "proc_net_entry want port udp line"
  using assms by (simp add: proc_net_entry_def parse_kernel_endpoint)

lemma conflict_found:
  assumes "0 < port" "port \<le> 65535" "parse_addr ip = Some want" "is4 want" "ip \<noteq> []"
    and "lv_proc env (if udp then ''/proc/net/udp'' else ''/proc/net/tcp'') = Some (join [CHR 0x0A] (header # ls))"
    and "\<And>l. l \<in> set (header # ls) \<Longrightarrow> CHR 0x0A \<notin> set l"
    and "line \<in> set ls" "proc_net_entry want (of_int port) udp line"
  shows "shared_listen_port_error (lv_proc env) ip port udp \<noteq> None"
proof -
  have "has_proc_net_listener (join [CHR 0x0A] (header # ls)) want (of_int port) udp"
    using split_on_join [of "header # ls" "CHR 0x0A"] assms(7-9) by (auto simp: has_proc_net_listener_def list_ex_iff)
  with assms show ?thesis by (simp add: shared_listen_port_error_def parse_bind_address_def)
qed

text \<open>
  C23: a port that is already served is refused.  When \<open>/proc/net\<close>, as a little-endian kernel prints
  it, lists a listener on the bind address (or on all addresses) and the same port, neither the
  socket forwarder nor the test server opens a socket: both return an error and change nothing.
\<close>

theorem listeners_refuse_conflict:
  assumes "0 < st_port opts" "st_port opts \<le> 65535" "st_ip opts = ipv4_text w x y z"
    and "lv_proc env (if st_udp opts then ''/proc/net/udp'' else ''/proc/net/tcp'') = Some (join [CHR 0x0A] (header # ls))"
    and "\<forall>l \<in> set (header # ls). CHR 0x0A \<notin> set l"
    and "line \<in> set ls"
    and "Go_Base.fields line = sl # kernel_endpoint (le_word a b c d) (unat (of_int (st_port opts) :: 16 word)) # remote # st # others"
    and "(a, b, c, d) = (w, x, y, z) \<or> (a, b, c, d) = (0, 0, 0, 0)"
    and "if st_udp opts then parse_proc_net_port remote = Some 0 else equal_fold st ''0A''"
  shows "(\<exists>e. socket_start env opts f h = (Some e, f, h)) \<and> (\<exists>e. test_server_start env opts s h = (Some e, s, h))"
proof -
  have "addr_conflicts (Addr4 w x y z) (Addr4 a b c d)"
    using assms(8) by (auto simp: addr_conflicts_def is_unspecified_def ipv4_unspecified_def)
  with assms(7,9) have entry: "proc_net_entry (Addr4 w x y z) (of_int (st_port opts)) (st_udp opts) line"
    by (intro entry_conflicts) auto
  have ne: "st_ip opts \<noteq> []" using assms(3) by (simp add: ipv4_text_def)
  have "shared_listen_port_error (lv_proc env) (st_ip opts) (st_port opts) (st_udp opts) \<noteq> None"
    by (rule conflict_found [OF assms(1,2) _ _ ne assms(4) _ assms(6) entry])
      (use assms(3,5) in \<open>auto simp: parse_addr_ipv4_text\<close>)
  then obtain e where "shared_listen_port_error (lv_proc env) (st_ip opts) (st_port opts) (st_udp opts) = Some e"
    by blast
  with ne show ?thesis
    by (auto simp: socket_start_def test_server_start_def Let_def default_any_def)
qed

text \<open>
  On a big-endian kernel the same check is blind.  Such a kernel prints the word of the address
  bytes in network order; the parser reverses them, so a listener on an address that is not its
  own reverse is not recognised as a conflict.
\<close>

theorem big_endian_conflict_missed:
  assumes "Go_Base.fields line = sl # kernel_endpoint (unat (be32 a b c d)) (unat port) # remote # st # others"
    and "(a, b, c, d) \<noteq> (d, c, b, a)"
  shows "\<not> proc_net_entry (Addr4 a b c d) port udp line"
proof -
  have "le_word d c b a = unat (be32 a b c d)" by (simp add: le_word_def)
  with parse_kernel_endpoint [of d c b a port] have
    p: "parse_proc_net_endpoint (kernel_endpoint (unat (be32 a b c d)) (unat port)) = Some (Addr4 d c b a, port)" by simp
  have "\<not> addr_conflicts (Addr4 a b c d) (Addr4 d c b a)"
    using assms(2) by (auto simp: addr_conflicts_def is_unspecified_def ipv4_unspecified_def ipv6_unspecified_def)
  with assms(1) p show ?thesis by (simp add: proc_net_entry_def)
qed

section \<open>The contract\<close>

text \<open>The sockets that the history has opened and not closed.\<close>

definition owed_sockets :: "listen_history \<Rightarrow> nat set" where
  "owed_sockets h =
     {i. i < length h \<and> (\<exists>n a p. h ! i = ListenCall n a p None)} - {i. \<exists>e. CloseCall i e \<in> set h}"

lemma owed_listen_on:
  "listen_on env network ip port iface h = (r, h') \<Longrightarrow>
   owed_sockets h' \<subseteq> owed_sockets h \<union> (case r of Inr i \<Rightarrow> {i} | Inl _ \<Rightarrow> {})"
  by (auto simp: listen_on_def Let_def owed_sockets_def nth_append less_Suc_eq split: option.splits)

lemma owed_close_socket: "close_socket env s h = (e, h') \<Longrightarrow> owed_sockets h' \<subseteq> owed_sockets h - set_option s"
  by (auto simp: close_socket_def Let_def owed_sockets_def nth_append less_Suc_eq split: option.splits)

lemma owed_close_both:
  assumes "close_both env tcp udp h = (e, h')"
  shows "owed_sockets h' \<subseteq> owed_sockets h - set_option tcp - set_option udp"
proof -
  obtain e1 h1 where 1: "close_socket env tcp h = (e1, h1)" by fastforce
  obtain e2 h2 where 2: "close_socket env udp h1 = (e2, h2)" by fastforce
  from assms 1 2 have "h' = h2" by (simp add: close_both_def)
  with owed_close_socket [OF 1] owed_close_socket [OF 2] show ?thesis by blast
qed

definition socket_held :: "socket_forwarder \<Rightarrow> nat set" where
  "socket_held f = set_option (sk_listener f) \<union> set_option (sk_udp f)"

definition test_server_held :: "test_server \<Rightarrow> nat set" where
  "test_server_held s = set_option (ts_tcp s) \<union> set_option (ts_udp s)"

interpretation socket: forwarder_contract socket_held owed_sockets "socket_start env" "socket_stop env"
proof unfold_locales
  fix f opts h r f' h' e
  show "owed_sockets h' \<subseteq> owed_sockets h \<union> socket_held f'"
    if "socket_held f = {}" "socket_start env opts f h = (r, f', h')"
    using that by (fastforce simp: socket_start_defs socket_held_def Let_def dest!: owed_listen_on
        split: if_splits prod.splits option.splits sum.splits)
  show "socket_held f' = {}"
    if "socket_held f = {}" "socket_start env opts f h = (Some e, f', h')"
    using that by (auto simp: socket_start_defs socket_held_def Let_def split: if_splits prod.splits option.splits sum.splits)
qed (auto simp: socket_stop_def socket_held_def dest!: owed_close_both split: prod.splits)

interpretation test_server: forwarder_contract test_server_held owed_sockets "test_server_start env" "test_server_stop env"
proof unfold_locales
  fix f opts h r f' h' e
  show "owed_sockets h' \<subseteq> owed_sockets h \<union> test_server_held f'"
    if "test_server_held f = {}" "test_server_start env opts f h = (r, f', h')"
    using that by (fastforce simp: test_server_start_defs test_server_held_def Let_def dest!: owed_listen_on
        split: if_splits prod.splits option.splits sum.splits)
  show "test_server_held f' = {}"
    if "test_server_held f = {}" "test_server_start env opts f h = (Some e, f', h')"
    using that by (auto simp: test_server_start_defs test_server_held_def Let_def split: if_splits prod.splits option.splits sum.splits)
qed (auto simp: test_server_stop_def test_server_held_def dest!: owed_close_both split: prod.splits)

text \<open>
  C24: the listening forwarders leave no socket open: a failed start has opened none, and a stop after
  a start closes what was opened, for the socket forwarder and for the test server, TCP and UDP.
\<close>

theorem listeners_clean_up:
  assumes "socket_held f = {}" "socket_start env opts f h = (r, f1, h1)"
    and "test_server_held s = {}" "test_server_start env opts s k = (q, s1, k1)"
  shows "(r \<noteq> None \<longrightarrow> owed_sockets h1 \<subseteq> owed_sockets h) \<and>
    owed_sockets (snd (snd (socket_stop env f1 h1))) \<subseteq> owed_sockets h \<and>
    (q \<noteq> None \<longrightarrow> owed_sockets k1 \<subseteq> owed_sockets k) \<and>
    owed_sockets (snd (snd (test_server_stop env s1 k1))) \<subseteq> owed_sockets k"
proof (intro conjI impI)
  show "owed_sockets h1 \<subseteq> owed_sockets h" if "r \<noteq> None"
    using socket.failed_start_owes_nothing [OF assms(1)] assms(2) that by blast
  show "owed_sockets k1 \<subseteq> owed_sockets k" if "q \<noteq> None"
    using test_server.failed_start_owes_nothing [OF assms(3)] assms(4) that by blast
  show "owed_sockets (snd (snd (socket_stop env f1 h1))) \<subseteq> owed_sockets h"
    using socket.start_stop_owes_nothing [OF assms(1,2)] by (metis prod.collapse)
  show "owed_sockets (snd (snd (test_server_stop env s1 k1))) \<subseteq> owed_sockets k"
    using test_server.start_stop_owes_nothing [OF assms(3,4)] by (metis prod.collapse)
qed

section \<open>The UDP clients of the socket forwarder\<close>

text \<open>
  \<open>udpClientSet\<close>: for every source address one outbound socket and the time it was last used.  The
  operations are the critical sections of its methods; the sockets an operation removes are
  returned, and closed after the lock is released.
\<close>

type_synonym udp_clients = "(string \<times> nat \<times> int) list"

definition max_udp_clients :: nat where
  "max_udp_clients = 1024"

definition touch :: "int \<Rightarrow> string \<Rightarrow> udp_clients \<Rightarrow> nat option \<times> udp_clients" where
  "touch now key cs =
     (case map_of cs key of
        None \<Rightarrow> (None, cs)
      | Some (conn, seen) \<Rightarrow> (Some conn, AList.update key (conn, now) cs))"

definition add_client :: "nat \<Rightarrow> int \<Rightarrow> string \<Rightarrow> nat \<Rightarrow> udp_clients \<Rightarrow> udp_clients option" where
  "add_client limit now key conn cs =
     (if limit \<le> length cs then None else Some (AList.update key (conn, now) cs))"

definition forget :: "string \<Rightarrow> nat \<Rightarrow> udp_clients \<Rightarrow> nat list \<times> udp_clients" where
  "forget key conn cs =
     (case map_of cs key of
        None \<Rightarrow> ([], cs)
      | Some (c, seen) \<Rightarrow> if c \<noteq> conn then ([], cs) else ([conn], AList.delete key cs))"

definition sweep_idle :: "int \<Rightarrow> int \<Rightarrow> udp_clients \<Rightarrow> nat list \<times> udp_clients" where
  "sweep_idle idle now cs =
     (map (\<lambda>(_, conn, _). conn) (filter (\<lambda>(_, _, seen). idle \<le> now - seen) cs),
      filter (\<lambda>(_, _, seen). \<not> idle \<le> now - seen) cs)"

definition close_all :: "udp_clients \<Rightarrow> nat list \<times> udp_clients" where
  "close_all cs = (map (\<lambda>(_, conn, _). conn) cs, [])"

text \<open>
  The loop and its helpers run concurrently: the main loop reads a datagram, finds or creates the
  client and writes; every outbound socket has a reader that forgets it at the end; a sweeper
  forgets idle clients.  A step is one critical section, or one call outside the lock.  \<open>up_next\<close>
  counts the sockets created so far, \<open>up_closing\<close> are removed sockets whose \<open>Close\<close> is still to
  come, \<open>up_closed\<close> the closed ones.
\<close>

datatype udp_main =
    Reading
  | Missed string
  | Created string nat
  | Holding string nat
  | Finished

record udp_relay =
  up_main :: udp_main
  up_clients :: udp_clients
  up_next :: nat
  up_closing :: "nat list"
  up_closed :: "nat list"

definition udp_relay_start :: udp_relay where
  "udp_relay_start = \<lparr>up_main = Reading, up_clients = [], up_next = 0, up_closing = [], up_closed = []\<rparr>"

inductive udp_step :: "nat \<Rightarrow> int \<Rightarrow> udp_relay \<Rightarrow> udp_relay \<Rightarrow> bool" for limit :: nat and idle :: int where
  known: "up_main s = Reading \<Longrightarrow> touch now key (up_clients s) = (Some conn, cs) \<Longrightarrow>
    udp_step limit idle s (s\<lparr>up_main := Holding key conn, up_clients := cs\<rparr>)"
| unknown: "up_main s = Reading \<Longrightarrow> touch now key (up_clients s) = (None, cs) \<Longrightarrow>
    udp_step limit idle s (s\<lparr>up_main := Missed key\<rparr>)"
| create_failed: "up_main s = Missed key \<Longrightarrow> udp_step limit idle s (s\<lparr>up_main := Reading\<rparr>)"
| create: "up_main s = Missed key \<Longrightarrow>
    udp_step limit idle s (s\<lparr>up_main := Created key (up_next s), up_next := Suc (up_next s)\<rparr>)"
| added: "up_main s = Created key conn \<Longrightarrow> add_client limit now key conn (up_clients s) = Some cs \<Longrightarrow>
    udp_step limit idle s (s\<lparr>up_main := Holding key conn, up_clients := cs\<rparr>)"
| refused: "up_main s = Created key conn \<Longrightarrow> add_client limit now key conn (up_clients s) = None \<Longrightarrow>
    udp_step limit idle s (s\<lparr>up_main := Reading, up_closed := conn # up_closed s\<rparr>)"
| written: "up_main s = Holding key conn \<Longrightarrow> udp_step limit idle s (s\<lparr>up_main := Reading\<rparr>)"
| write_failed: "up_main s = Holding key conn \<Longrightarrow> forget key conn (up_clients s) = (gone, cs) \<Longrightarrow>
    udp_step limit idle s (s\<lparr>up_main := Reading, up_clients := cs, up_closing := gone @ up_closing s\<rparr>)"
| reader_done: "forget key conn (up_clients s) = (gone, cs) \<Longrightarrow>
    udp_step limit idle s (s\<lparr>up_clients := cs, up_closing := gone @ up_closing s\<rparr>)"
| swept: "sweep_idle idle now (up_clients s) = (gone, cs) \<Longrightarrow>
    udp_step limit idle s (s\<lparr>up_clients := cs, up_closing := gone @ up_closing s\<rparr>)"
| closes: "up_closing s = conn # rest \<Longrightarrow>
    udp_step limit idle s (s\<lparr>up_closing := rest, up_closed := conn # up_closed s\<rparr>)"
| finished: "up_main s = Reading \<Longrightarrow> close_all (up_clients s) = (gone, cs) \<Longrightarrow>
    udp_step limit idle s (s\<lparr>up_main := Finished, up_clients := cs, up_closing := gone @ up_closing s\<rparr>)"

inductive_simps udp_step_simps: "udp_step limit idle s s'"

definition client_conns :: "udp_clients \<Rightarrow> nat list" where
  "client_conns cs = map (\<lambda>(_, conn, _). conn) cs"

fun main_conns :: "udp_main \<Rightarrow> nat list" where
  "main_conns (Created _ conn) = [conn]"
| "main_conns _ = []"

fun main_key :: "udp_main \<Rightarrow> string option" where
  "main_key (Missed key) = Some key"
| "main_key (Created key _) = Some key"
| "main_key _ = None"

text \<open>
  The invariant: at most \<open>limit\<close> clients, one per key; every socket ever created is in exactly one
  place (with the main loop, in the set, waiting to be closed, closed), once; the key the main
  loop has missed is not in the set; after the end the set is empty.
\<close>

definition udp_inv :: "nat \<Rightarrow> udp_relay \<Rightarrow> bool" where
  "udp_inv limit s \<longleftrightarrow>
     distinct (map fst (up_clients s)) \<and> length (up_clients s) \<le> limit \<and>
     mset (main_conns (up_main s)) + mset (client_conns (up_clients s)) + mset (up_closing s) + mset (up_closed s) =
       mset [0..<up_next s] \<and>
     (\<forall>key. main_key (up_main s) = Some key \<longrightarrow> key \<notin> fst ` set (up_clients s)) \<and>
     (up_main s = Finished \<longrightarrow> up_clients s = [])"


lemma update_new: "key \<notin> fst ` set cs \<Longrightarrow> AList.update key v cs = cs @ [(key, v)]"
  by (induction cs) auto

lemma conns_update_seen:
  "map_of cs key = Some (conn, seen) \<Longrightarrow> client_conns (AList.update key (conn, now) cs) = client_conns cs"
  by (induction cs) (auto simp: client_conns_def split: if_splits)

lemma length_update_old: "key \<in> fst ` set cs \<Longrightarrow> length (AList.update key v cs) = length cs"
  by (induction cs) auto

lemma conns_delete:
  "distinct (map fst cs) \<Longrightarrow> map_of cs key = Some (conn, seen) \<Longrightarrow>
   mset (client_conns cs) = add_mset conn (mset (client_conns (AList.delete key cs)))"
proof (induction cs)
  case (Cons kv cs)
  obtain k c s where kv: "kv = (k, c, s)" by (cases kv) auto
  show ?case
  proof (cases "k = key")
    case True
    with Cons.prems kv have "key \<notin> fst ` set cs" by simp
    then have "AList.delete key cs = cs" by (simp add: delete_id)
    with True Cons.prems kv show ?thesis by (simp add: client_conns_def)
  next
    case False
    with Cons kv show ?thesis by (simp add: client_conns_def)
  qed
qed simp

lemma touch_facts:
  assumes "touch now key cs = (r, cs')" "distinct (map fst cs)"
  shows "client_conns cs' = client_conns cs \<and> distinct (map fst cs') \<and> length cs' = length cs \<and>
    (r = None \<longrightarrow> key \<notin> fst ` set cs \<and> cs' = cs)"
proof (cases "map_of cs key")
  case None
  with assms show ?thesis by (auto simp: touch_def map_of_eq_None_iff)
next
  case (Some v)
  then have "key \<in> fst ` set cs" by (metis domI dom_map_of_conv_image_fst)
  then have "length (AList.update key v' cs) = length cs" for v' by (rule length_update_old)
  with Some assms show ?thesis
    by (auto simp: touch_def conns_update_seen distinct_update split: prod.splits)
qed

lemma add_facts:
  assumes "add_client limit now key conn cs = Some cs'" "distinct (map fst cs)" "key \<notin> fst ` set cs"
  shows "client_conns cs' = client_conns cs @ [conn] \<and> distinct (map fst cs') \<and> length cs' \<le> limit"
  using assms
  by (auto simp: add_client_def update_new client_conns_def split: if_splits)

lemma forget_facts:
  assumes "forget key conn cs = (gone, cs')" "distinct (map fst cs)"
  shows "mset (client_conns cs) = mset gone + mset (client_conns cs') \<and> distinct (map fst cs') \<and>
    length cs' \<le> length cs \<and> fst ` set cs' \<subseteq> fst ` set cs"
proof -
  have "length (AList.delete key cs) \<le> length cs" "fst ` set (AList.delete key cs) \<subseteq> fst ` set cs"
    by (auto simp: AList.delete_eq)
  with assms conns_delete [of cs key] show ?thesis
    by (auto simp: forget_def distinct_delete split: option.splits if_splits; force)
qed

lemma sweep_facts:
  assumes "sweep_idle idle now cs = (gone, cs')" "distinct (map fst cs)"
  shows "mset (client_conns cs) = mset gone + mset (client_conns cs') \<and> distinct (map fst cs') \<and>
    length cs' \<le> length cs \<and> fst ` set cs' \<subseteq> fst ` set cs"
proof -
  have "mset (client_conns cs) =
      mset (map (\<lambda>(_, conn, _). conn) (filter P cs)) + mset (client_conns (filter (\<lambda>x. \<not> P x) cs))" for P
    by (induction cs) (auto simp: client_conns_def)
  with assms show ?thesis
    by (auto simp: sweep_idle_def client_conns_def case_prod_unfold distinct_map_filter)
qed

lemma udp_inv_start: "udp_inv limit udp_relay_start"
  by (simp add: udp_inv_def udp_relay_start_def client_conns_def)

lemma udp_inv_step:
  assumes "udp_step limit idle s s'" "udp_inv limit s"
  shows "udp_inv limit s'"
  using assms
proof (induction rule: udp_step.induct)
  case (known s now key conn cs)
  then show ?case using touch_facts [OF known(2)] by (auto simp: udp_inv_def)
next
  case (unknown s now key cs)
  then show ?case using touch_facts [OF unknown(2)] by (auto simp: udp_inv_def)
next
  case (added s key conn now cs)
  then show ?case using add_facts [OF added(2)] by (auto simp: udp_inv_def)
next
  case (write_failed s key conn gone cs)
  then show ?case using forget_facts [OF write_failed(2)] by (auto simp: udp_inv_def ac_simps)
next
  case (reader_done key conn s gone cs)
  then show ?case using forget_facts [OF reader_done(1)] by (auto simp: udp_inv_def ac_simps)
next
  case (swept now s gone cs)
  then show ?case using sweep_facts [OF swept(1)] by (auto simp: udp_inv_def ac_simps)
next
  case (finished s gone cs)
  then show ?case by (auto simp: udp_inv_def close_all_def client_conns_def)
qed (auto simp: udp_inv_def ac_simps)

lemma udp_inv_reachable: "(udp_step limit idle)\<^sup>*\<^sup>* udp_relay_start s \<Longrightarrow> udp_inv limit s"
  by (induction rule: rtranclp_induct) (auto intro: udp_inv_start udp_inv_step)

text \<open>
  C5: however the main loop, the readers and the sweeper interleave, the UDP relay keeps at most its
  limit of clients, never closes a socket twice, and knows every socket that is still open: it is
  a client's, is about to be closed, or has just been created by the main loop.  So the open
  sockets number at most the limit, one, and those whose close is under way; and when the loop
  has ended and the closes are done, every socket ever created is closed.
\<close>

theorem udp_relay_bounded:
  assumes "(udp_step limit idle)\<^sup>*\<^sup>* udp_relay_start s"
  shows "length (up_clients s) \<le> limit \<and> distinct (up_closed s) \<and>
    {..<up_next s} - set (up_closed s) =
      set (client_conns (up_clients s)) \<union> set (up_closing s) \<union> set (main_conns (up_main s)) \<and>
    up_next s \<le> length (up_closed s) + length (up_closing s) + limit + 1 \<and>
    (up_main s = Finished \<and> up_closing s = [] \<longrightarrow> set (up_closed s) = {..<up_next s})"
proof -
  let ?all = "main_conns (up_main s) @ client_conns (up_clients s) @ up_closing s @ up_closed s"
  note inv = udp_inv_reachable [OF assms, unfolded udp_inv_def]
  then have m: "mset ?all = mset [0..<up_next s]" by (simp add: ac_simps)
  then have "distinct ?all" by (metis distinct_upt mset_eq_imp_distinct_iff)
  moreover have set_all: "set ?all = {..<up_next s}" using mset_eq_setD [OF m] by (simp add: atLeast0LessThan)
  moreover have len: "length ?all = up_next s" using mset_eq_length [OF m] by simp
  moreover have "length (main_conns (up_main s)) \<le> 1" by (cases "up_main s") simp_all
  moreover have "length (client_conns (up_clients s)) = length (up_clients s)" by (simp add: client_conns_def)
  ultimately show ?thesis
    using inv by (intro conjI impI) (auto simp: client_conns_def simp flip: set_all)
qed

lemma udp_steps_witness:
  "(udp_step 1 5)\<^sup>*\<^sup>* udp_relay_start
     \<lparr>up_main = Finished, up_clients = [], up_next = 2, up_closing = [0], up_closed = [1]\<rparr>"
proof -
  let ?s1 = "udp_relay_start\<lparr>up_main := Missed ''a''\<rparr>"
  let ?s2 = "?s1\<lparr>up_main := Created ''a'' (up_next ?s1), up_next := Suc (up_next ?s1)\<rparr>"
  let ?s3 = "?s2\<lparr>up_main := Holding ''a'' 0, up_clients := [(''a'', 0, 7)]\<rparr>"
  let ?s4 = "?s3\<lparr>up_main := Reading\<rparr>"
  let ?s5 = "?s4\<lparr>up_main := Missed ''b''\<rparr>"
  let ?s6 = "?s5\<lparr>up_main := Created ''b'' (up_next ?s5), up_next := Suc (up_next ?s5)\<rparr>"
  let ?s7 = "?s6\<lparr>up_main := Reading, up_closed := 1 # up_closed ?s6\<rparr>"
  let ?s8 = "?s7\<lparr>up_main := Finished, up_clients := [], up_closing := [0] @ up_closing ?s7\<rparr>"
  have "udp_step 1 5 udp_relay_start ?s1"
    by (rule unknown [where now = 7]) (simp_all add: udp_relay_start_def touch_def)
  moreover have "udp_step 1 5 ?s1 ?s2" by (rule create) simp
  moreover have "udp_step 1 5 ?s2 ?s3"
    by (rule added [where now = 7]) (simp_all add: udp_relay_start_def add_client_def)
  moreover have "udp_step 1 5 ?s3 ?s4" by (rule written) simp
  moreover have "udp_step 1 5 ?s4 ?s5"
    by (rule unknown [where now = 8]) (simp_all add: touch_def)
  moreover have "udp_step 1 5 ?s5 ?s6" by (rule create) simp
  moreover have "udp_step 1 5 ?s6 ?s7"
    by (rule refused [where now = 8 and key = "''b''"]) (simp_all add: udp_relay_start_def add_client_def)
  moreover have "udp_step 1 5 ?s7 ?s8" by (rule finished) (simp_all add: close_all_def)
  ultimately have "(udp_step 1 5)\<^sup>*\<^sup>* udp_relay_start ?s8"
    by (meson converse_rtranclp_into_rtranclp rtranclp.rtrancl_refl)
  then show ?thesis by (simp add: udp_relay_start_def numeral_2_eq_2)
qed

theorem udp_relay_bounded_witness:
  "\<exists>s. (udp_step 1 5)\<^sup>*\<^sup>* udp_relay_start s \<and> up_main s = Finished \<and> up_closed s = [1] \<and>
     {..<up_next s} - set (up_closed s) = {0}"
proof -
  note udp_steps_witness
  moreover from udp_relay_bounded [OF udp_steps_witness] have
    "{..<2} - {1} = ({0} :: nat set)" by (simp add: client_conns_def)
  ultimately show ?thesis by (intro exI) (rule conjI, assumption, simp)
qed

section \<open>Witnesses of the listeners\<close>

definition sample_listen :: "string \<Rightarrow> listen_env" where
  "sample_listen table1 = \<lparr>lv_proc = \<lambda>path. Some table1, lv_listen = \<lambda>h n a p. None, lv_close = \<lambda>h i. None\<rparr>"

definition listen_options :: start_options where
  "listen_options =
     \<lparr>st_ip = ''10.0.0.2'', st_snat_ip = [], st_port = 8080, st_target_ip = ''10.0.0.9'', st_target_port = 80,
      st_udp = False, st_interface = [], st_route_mark = [], st_route_table = [], st_route_priority = []\<rparr>"

lemma sample_text: "ipv4_text 10 0 0 2 = ''10.0.0.2''"
  by (simp add: go_defs ipv4_text_def)

lemma sample_endpoint: "kernel_endpoint (le_word 10 0 0 2) (unat (of_int 8080 :: 16 word)) = ''0200000A:1F90''"
  by (simp add: kernel_endpoint_def kernel_hex_def le_word_def be32_def go_defs)

lemma sample_fields:
  "Go_Base.fields ''  0: 0200000A:1F90 00000000:0000 0A 0'' =
     [''0:'', ''0200000A:1F90'', ''00000000:0000'', ''0A'', ''0'']"
  by (simp add: go_defs)

theorem listeners_refuse_conflict_witness:
  "\<exists>e. socket_start (sample_listen (join [CHR 0x0A] [''sl local_address'', ''  0: 0200000A:1F90 00000000:0000 0A 0'']))
     listen_options \<lparr>sk_listener = None, sk_udp = None, sk_target = []\<rparr> [] =
     (Some e, \<lparr>sk_listener = None, sk_udp = None, sk_target = []\<rparr>, [])"
proof -
  let ?line = "''  0: 0200000A:1F90 00000000:0000 0A 0''"
  have "(\<exists>e. socket_start (sample_listen (join [CHR 0x0A] (''sl local_address'' # [?line]))) listen_options
      \<lparr>sk_listener = None, sk_udp = None, sk_target = []\<rparr> [] = (Some e, \<lparr>sk_listener = None, sk_udp = None, sk_target = []\<rparr>, [])) \<and>
    (\<exists>e. test_server_start (sample_listen (join [CHR 0x0A] (''sl local_address'' # [?line]))) listen_options
      \<lparr>ts_tcp = None, ts_udp = None\<rparr> [] = (Some e, \<lparr>ts_tcp = None, ts_udp = None\<rparr>, []))"
  proof (rule listeners_refuse_conflict)
    show "st_ip listen_options = ipv4_text 10 0 0 2" by (simp add: sample_text listen_options_def)
    show "Go_Base.fields ?line = ''0:'' # kernel_endpoint (le_word 10 0 0 2)
        (unat (of_int (st_port listen_options) :: 16 word)) # ''00000000:0000'' # ''0A'' # [''0'']"
      unfolding sample_fields using sample_endpoint by (simp add: listen_options_def)
    show "?line \<in> set [?line]" by simp
  qed (auto simp: listen_options_def sample_listen_def equal_fold_def)
  then show ?thesis by simp
qed

theorem listeners_clean_up_witness:
  "\<exists>r f1 h1. socket_start (sample_listen []) listen_options \<lparr>sk_listener = None, sk_udp = None, sk_target = []\<rparr> [] = (r, f1, h1) \<and>
     owed_sockets (snd (snd (socket_stop (sample_listen []) f1 h1))) = {}"
proof -
  let ?f = "\<lparr>sk_listener = None, sk_udp = None, sk_target = []\<rparr>"
  let ?s = "\<lparr>ts_tcp = None, ts_udp = None\<rparr>"
  obtain r f1 h1 where f: "socket_start (sample_listen []) listen_options ?f [] = (r, f1, h1)" by (metis prod.collapse)
  obtain q s1 k1 where s: "test_server_start (sample_listen []) listen_options ?s [] = (q, s1, k1)" by (metis prod.collapse)
  have "owed_sockets [] = {}" by (simp add: owed_sockets_def)
  with listeners_clean_up [OF _ f _ s] f show ?thesis by (auto simp: socket_held_def test_server_held_def)
qed

theorem big_endian_conflict_missed_witness:
  "\<not> proc_net_entry (Addr4 192 168 1 1) 8080 False ''  0: C0A80101:1F90 00000000:0000 0A 0''"
proof (rule big_endian_conflict_missed)
  have "kernel_endpoint (unat (be32 192 168 1 1)) (unat (8080 :: 16 word)) = ''C0A80101:1F90''"
    by (simp add: kernel_endpoint_def kernel_hex_def be32_def go_defs)
  then show "Go_Base.fields ''  0: C0A80101:1F90 00000000:0000 0A 0'' =
      ''0:'' # kernel_endpoint (unat (be32 192 168 1 1)) (unat (8080 :: 16 word)) # ''00000000:0000'' # ''0A'' # [''0'']"
    by (simp add: go_defs)
qed simp

end
