(* ===== verification/App_World.thy ===== *)
theory App_World
  imports Stun_Transport App_Log Engine_Wire Upnp_Client Forward_Nft Forward_External Forward_Socket
begin

text \<open>
  The world of the running program: the histories of everything it calls outside, the objects of the
  running session, and the dependencies that \<open>runEngineWithLog\<close> of \<open>internal/app/app.go\<close> wires for the
  engine.  The contract of the engine's dependencies is proved of them here, so what the engine
  theories prove of a session holds of the program.
\<close>
section \<open>The environment\<close>

text \<open>
  The calls that are not on a socket, a child process, nft or the router: the HTTP port checks, the
  status file, the user script and the sleep between two sessions.
\<close>

datatype sys_event =
    PortProbe int string "addr option" http_request "goerror + string"
  | StatusWrite string "goerror option"
  | ScriptRun int string "string list" "goerror option"
  | RetrySleep int "goerror option"

type_synonym sys_history = "sys_event list"

text \<open>
  \<open>se_status\<close> gives, for one write of the status file, the time, the answer of \<open>MkdirAll\<close> and those of
  the file calls; \<open>se_json\<close> and \<open>se_encode\<close> are \<open>encoding/json\<close>.
\<close>

record sys_env =
  se_http :: "sys_history \<Rightarrow> int \<Rightarrow> string \<Rightarrow> addr option \<Rightarrow> http_request \<Rightarrow> goerror + string"
  se_json :: "string \<Rightarrow> goerror + bool"
  se_encode :: "mapping_json \<Rightarrow> goerror + string"
  se_status :: "sys_history \<Rightarrow> string \<times> goerror option \<times> write_answers"
  se_stat :: "sys_history \<Rightarrow> string \<Rightarrow> (bool \<times> 32 word) option"
  se_execute :: "sys_history \<Rightarrow> int \<Rightarrow> string \<Rightarrow> string list \<Rightarrow> goerror option"
  se_sleep :: "sys_history \<Rightarrow> int \<Rightarrow> goerror option"
  se_context_ended :: "sys_history \<Rightarrow> bool"
  se_getenv :: "string \<Rightarrow> string"

text \<open>
  \<open>ae_random h n\<close> are the \<open>n\<close> random bytes drawn after the history \<open>h\<close>, or a failure; \<open>ae_reads\<close> bounds
  the reads of one keep-alive before its deadline, and may be any number.
\<close>

record app_env =
  ae_stun :: stun_env
  ae_random :: "net_history \<Rightarrow> nat \<Rightarrow> goerror + byte list"
  ae_reads :: nat
  ae_nft :: nft_env
  ae_proc :: proc_env
  ae_listen :: listen_env
  ae_upnp :: upnp_env
  ae_sys :: sys_env

section \<open>The world\<close>

datatype forwarder =
    NoneFwd | TestFwd test_server | SocketFwd socket_forwarder | NftFwd nft_forwarder
  | SocatFwd socat_forwarder | GostFwd gost_forwarder

text \<open>
  The engine makes a STUN client and a mapper for each run, and a keep-alive client and a forwarder
  for each session, and drops the old ones, so the world has one place for each of the four.
\<close>

record world =
  w_net :: net_history
  w_nft :: nft_history
  w_proc :: proc_history
  w_listen :: listen_history
  w_upnp :: upnp_history
  w_sys :: sys_history
  w_stun :: stun_client
  w_client :: "keep_alive_client option"
  w_forwarder :: forwarder
  w_mapper :: upnp_mapper
  w_files :: files
  w_log :: "log_line list"

definition write_log :: "log_line list \<Rightarrow> world \<Rightarrow> world" where
  "write_log ls w = w\<lparr>w_log := w_log w @ ls\<rparr>"

section \<open>Forwarders\<close>

text \<open>The values that \<open>forward.NewForwarder\<close> allocates.\<close>

fun make_forwarder :: "forwarder_kind \<Rightarrow> forwarder" where
  "make_forwarder NoForwarder = NoneFwd"
| "make_forwarder TestServer = TestFwd \<lparr>ts_tcp = None, ts_udp = None\<rparr>"
| "make_forwarder SocketForwarder = SocketFwd \<lparr>sk_listener = None, sk_udp = None, sk_target = []\<rparr>"
| "make_forwarder (NftablesForwarder snat) = NftFwd (fresh_nft_forwarder snat)"
| "make_forwarder SocatForwarder = SocatFwd \<lparr>sf_process = None, sf_udp_timeout = 0, sf_max_children = 0, sf_startup_delay = 0\<rparr>"
| "make_forwarder GostForwarder = GostFwd \<lparr>gf_process = None, gf_udp_timeout = 0, gf_startup_delay = 0\<rparr>"

definition forwarder_new :: "string \<Rightarrow> world \<Rightarrow> (goerror + unit) \<times> world" where
  "forwarder_new method w =
     (case new_forwarder method of
        Inl e \<Rightarrow> (Inl e, w)
      | Inr kind \<Rightarrow> (Inr (), w\<lparr>w_forwarder := make_forwarder kind\<rparr>))"

definition forwarder_start :: "app_env \<Rightarrow> start_options \<Rightarrow> world \<Rightarrow> goerror option \<times> world" where
  "forwarder_start env opts w =
     (case w_forwarder w of
        NoneFwd \<Rightarrow> (None, w)
      | TestFwd s \<Rightarrow> (case test_server_start (ae_listen env) opts s (w_listen w) of
          (e, s', h) \<Rightarrow> (e, w\<lparr>w_forwarder := TestFwd s', w_listen := h\<rparr>))
      | SocketFwd f \<Rightarrow> (case socket_start (ae_listen env) opts f (w_listen w) of
          (e, f', h) \<Rightarrow> (e, w\<lparr>w_forwarder := SocketFwd f', w_listen := h\<rparr>))
      | NftFwd f \<Rightarrow> (case nft_start (ae_nft env) opts f (w_nft w) of
          (e, f', h) \<Rightarrow> (e, w\<lparr>w_forwarder := NftFwd f', w_nft := h\<rparr>))
      | SocatFwd f \<Rightarrow> (case socat_start (ae_proc env) opts f (w_proc w) of
          (e, f', h) \<Rightarrow> (e, w\<lparr>w_forwarder := SocatFwd f', w_proc := h\<rparr>))
      | GostFwd f \<Rightarrow> (case gost_start (ae_proc env) opts f (w_proc w) of
          (e, f', h) \<Rightarrow> (e, w\<lparr>w_forwarder := GostFwd f', w_proc := h\<rparr>)))"

definition forwarder_stop :: "app_env \<Rightarrow> world \<Rightarrow> goerror option \<times> world" where
  "forwarder_stop env w =
     (case w_forwarder w of
        NoneFwd \<Rightarrow> (None, w)
      | TestFwd s \<Rightarrow> (case test_server_stop (ae_listen env) s (w_listen w) of
          (e, s', h) \<Rightarrow> (e, w\<lparr>w_forwarder := TestFwd s', w_listen := h\<rparr>))
      | SocketFwd f \<Rightarrow> (case socket_stop (ae_listen env) f (w_listen w) of
          (e, f', h) \<Rightarrow> (e, w\<lparr>w_forwarder := SocketFwd f', w_listen := h\<rparr>))
      | NftFwd f \<Rightarrow> (case nft_stop (ae_nft env) f (w_nft w) of
          (e, f', h) \<Rightarrow> (e, w\<lparr>w_forwarder := NftFwd f', w_nft := h\<rparr>))
      | SocatFwd f \<Rightarrow> (case socat_stop (ae_proc env) f (w_proc w) of
          (e, f', h) \<Rightarrow> (e, w\<lparr>w_forwarder := SocatFwd f', w_proc := h\<rparr>))
      | GostFwd f \<Rightarrow> (case gost_stop (ae_proc env) f (w_proc w) of
          (e, f', h) \<Rightarrow> (e, w\<lparr>w_forwarder := GostFwd f', w_proc := h\<rparr>)))"

section \<open>The STUN client and the keep-alive client\<close>

definition stun_txid :: "app_env \<Rightarrow> net_history txid_source" where
  "stun_txid env h = (new_transaction_id (ae_random env h 8), h)"

definition stun_query :: "app_env \<Rightarrow> config \<Rightarrow> world \<Rightarrow> (goerror + stun_mapping) \<times> world" where
  "stun_query env cfg w =
     (case get_mapping (stun_transaction_id None (stun_txid env))
             (stun_exchange None (network_exchange (ae_stun env)) (w_stun w)) (w_stun w) (w_net w) of
        (r, c, h) \<Rightarrow> (map_sum client_err id r, w\<lparr>w_stun := c, w_net := h\<rparr>))"

definition endpoint_err :: "endpoint_error \<Rightarrow> goerror" where
  "endpoint_err e = errorf (endpoint_error_text e)"

definition client_new :: "config \<Rightarrow> stun_mapping \<Rightarrow> world \<Rightarrow> (goerror + unit option) \<times> world" where
  "client_new cfg m w =
     (case new_keep_alive_from_config cfg m of
        Inl e \<Rightarrow> (Inl (endpoint_err e), w)
      | Inr c \<Rightarrow> (Inr (Some ()), w\<lparr>w_client := Some c\<rparr>))"

text \<open>A failed \<open>rand.Read\<close> leaves the two zero bytes of the DNS query.\<close>

definition dns_query_bytes :: "goerror + byte list \<Rightarrow> byte list" where
  "dns_query_bytes r = (case r of Inr [a, b] \<Rightarrow> dns_keep_alive_query a b | _ \<Rightarrow> dns_keep_alive_query 0 0)"

text \<open>
  The deadline makes the TCP client return (\<open>with_deadline_keep_alive\<close>), so the \<open>None\<close> of its fuel
  never arises; nor does a call without a client.
\<close>

definition client_call :: "app_env \<Rightarrow> world \<Rightarrow> goerror option \<times> world" where
  "client_call env w =
     (case w_client w of
        None \<Rightarrow> (None, w)
      | Some (TCPKeepAlive c) \<Rightarrow>
          (case tcp_keep_alive (with_deadline (ae_reads env) (sn_net (ae_stun env))) (Suc (ae_reads env)) c (w_net w) of
             None \<Rightarrow> (None, w)
           | Some (e, c', h) \<Rightarrow> (e, w\<lparr>w_client := Some (TCPKeepAlive c'), w_net := h\<rparr>))
      | Some (UDPKeepAlive c) \<Rightarrow>
          (case udp_keep_alive (sn_net (ae_stun env)) (dns_query_bytes (ae_random env (w_net w) 2)) c (w_net w) of
             (e, c', h) \<Rightarrow> (e, w\<lparr>w_client := Some (UDPKeepAlive c'), w_net := h\<rparr>)))"

definition client_close :: "app_env \<Rightarrow> world \<Rightarrow> goerror option \<times> world" where
  "client_close env w =
     (case w_client w of
        None \<Rightarrow> (None, w)
      | Some (TCPKeepAlive c) \<Rightarrow> (case tcp_close (sn_net (ae_stun env)) c (w_net w) of
          (e, c', h) \<Rightarrow> (e, w\<lparr>w_client := Some (TCPKeepAlive c'), w_net := h\<rparr>))
      | Some (UDPKeepAlive c) \<Rightarrow> (case udp_close (sn_net (ae_stun env)) c (w_net w) of
          (e, c', h) \<Rightarrow> (e, w\<lparr>w_client := Some (UDPKeepAlive c'), w_net := h\<rparr>)))"

section \<open>The mapper\<close>

text \<open>\<open>OnFoundRouter\<close> is called once per found router; its line is written with the call that found it.\<close>

definition found_router_log :: "upnp_history \<Rightarrow> log_line list" where
  "found_router_log cs = concat (map (\<lambda>c. case c of FoundRouter ip \<Rightarrow> log_upnp_found_router ip | _ \<Rightarrow> []) cs)"

definition mapper_forward :: "app_env \<Rightarrow> upnp_mapping \<Rightarrow> world \<Rightarrow> goerror option \<times> world" where
  "mapper_forward env m w =
     (case upnp_forward (ae_upnp env) m (w_mapper w) (w_upnp w) of
        (e, x, h) \<Rightarrow> (e, write_log (found_router_log (drop (length (w_upnp w)) h)) (w\<lparr>w_mapper := x, w_upnp := h\<rparr>)))"

definition mapper_renew :: "app_env \<Rightarrow> world \<Rightarrow> goerror option \<times> world" where
  "mapper_renew env w = (case upnp_renew (ae_upnp env) (w_mapper w) (w_upnp w) of (e, h) \<Rightarrow> (e, w\<lparr>w_upnp := h\<rparr>))"

definition mapper_revoke :: "app_env \<Rightarrow> world \<Rightarrow> goerror option \<times> world" where
  "mapper_revoke env w =
     (case upnp_revoke (ae_upnp env) (w_mapper w) (w_upnp w) of (e, x, h) \<Rightarrow> (e, w\<lparr>w_mapper := x, w_upnp := h\<rparr>))"

section \<open>Port checks\<close>

text \<open>\<open>portcheck.Checker\<close>: the dialer of the LAN check and the request of the WAN checks.\<close>

definition lan_dial :: "net_env \<Rightarrow> sock_options \<Rightarrow> addr option \<Rightarrow> string \<Rightarrow> net_history \<Rightarrow> goerror option \<times> net_history" where
  "lan_dial env opts source address h =
     (let local = (case source of None \<Rightarrow> NoAddr | Some a \<Rightarrow> TCPAddr a 0);
          answer = ne_dial env h ''tcp'' local opts address
      in (answer, h @ [DialCall ''tcp'' local opts address answer]))"

definition lan_close :: "net_env \<Rightarrow> net_history \<Rightarrow> net_history" where
  "lan_close env h = snd (close_conn env (length h - 1) h)"

definition app_lan_check :: "app_env \<Rightarrow> string \<Rightarrow> world lan_check" where
  "app_lan_check env iface target source w =
     (case test_lan (lan_dial (sn_net (ae_stun env))) (lan_close (sn_net (ae_stun env))) iface target source (w_net w) of
        (r, h) \<Rightarrow> (r, w\<lparr>w_net := h\<rparr>))"

definition probe_request :: "string \<Rightarrow> string \<Rightarrow> http_request" where
  "probe_request host path =
     \<lparr>rq_method = ''GET'', rq_url = ''http://'' @ host @ path,
      rq_headers = [(''Host'', host), (''User-Agent'', ''curl/8.0.0 (QNatter)''), (''Accept'', ''*/*''), (''Connection'', ''close'')],
      rq_body = []\<rparr>"

definition probe_get :: "app_env \<Rightarrow> int \<Rightarrow> string \<Rightarrow> sys_history http_get" where
  "probe_get env limit iface host path source h =
     (let local = (if addr_valid source then Some source else None);
          answer = se_http (ae_sys env) h limit iface local (probe_request host path)
      in (answer, h @ [PortProbe limit iface local (probe_request host path) answer]))"

definition checker_wan :: "app_env \<Rightarrow> sys_history port_checker \<Rightarrow> world wan_check" where
  "checker_wan env c port source w =
     (case checker_test_wan (probe_get env) (se_json (ae_sys env)) c port source (w_sys w) of
        (r, h) \<Rightarrow> (r, w\<lparr>w_sys := h\<rparr>))"

definition app_wan_check :: "app_env \<Rightarrow> string \<Rightarrow> world wan_check" where
  "app_wan_check env iface = checker_wan env (interface_checker iface)"

section \<open>Notification\<close>

definition write_status :: "app_env \<Rightarrow> string \<Rightarrow> status_mapping \<Rightarrow> world \<Rightarrow> goerror option \<times> world" where
  "write_status env path m w =
     (case se_status (ae_sys env) (w_sys w) of
        (now, mkdir, answers) \<Rightarrow>
          (case write_mapping (se_encode (ae_sys env)) (\<lambda>_. mkdir) answers now path m (w_files w) of
             (e, fss) \<Rightarrow> (e, w\<lparr>w_files := last fss, w_sys := w_sys w @ [StatusWrite path e]\<rparr>)))"

definition run_script :: "app_env \<Rightarrow> int \<Rightarrow> string \<Rightarrow> string list \<Rightarrow> world \<Rightarrow> goerror option \<times> world" where
  "run_script env limit path args w =
     (let e = se_execute (ae_sys env) (w_sys w) limit path args in (e, w\<lparr>w_sys := w_sys w @ [ScriptRun limit path args e]\<rparr>))"

definition app_notify :: "app_env \<Rightarrow> config \<Rightarrow> status_mapping \<Rightarrow> world \<Rightarrow> goerror option \<times> world" where
  "app_notify env cfg m w =
     (let opts = \<lparr>no_instance = se_getenv (ae_sys env) ''QNATTER_INSTANCE'',
                  no_status_file = se_getenv (ae_sys env) ''QNATTER_STATUS_FILE'',
                  no_run_dir = [], no_user_script = cfg_notify_path cfg, no_timeout = 0\<rparr>
      in case notify_run (write_status env) (\<lambda>path w. file_executable (se_stat (ae_sys env) (w_sys w) path)) (run_script env) opts m
                (write_log (log_notify_script (cfg_notify_path cfg)) w) of
           ((user_error, e), w') \<Rightarrow> (e, write_log (log_notify_result user_error) w'))"

section \<open>The dependencies of the engine\<close>

definition app_deps :: "app_env \<Rightarrow> config \<Rightarrow> (world, unit, unit) session_deps" where
  "app_deps env cfg =
     \<lparr>sd_get_mapping = Some (stun_query env cfg),
      sd_keep_alive = None,
      sd_new_keep_alive = Some (client_new cfg),
      sd_new_forwarder = forwarder_new,
      sd_port_check = app_lan_check env [],
      sd_initial_check = Some (app_lan_check env [], app_wan_check env (bd_interface (bind_from_config cfg))),
      sd_notify = Some (app_notify env cfg),
      sd_on_mapped = (\<lambda>r. write_log (log_mapping cfg r)),
      sd_on_transient = (\<lambda>operation e n limit. write_log (log_transient_failure operation e n limit)),
      sd_on_upnp_error = (\<lambda>operation e. write_log (log_upnp_error operation e)),
      sd_on_close_error = (\<lambda>e. write_log (log_close_error e)),
      sd_has_upnp = cfg_upnp cfg,
      sd_ka_call = (\<lambda>_. client_call env),
      sd_ka_close = (\<lambda>_. client_close env),
      sd_fwd_start = (\<lambda>_. forwarder_start env),
      sd_fwd_stop = (\<lambda>_. forwarder_stop env),
      sd_upnp_forward = mapper_forward env,
      sd_upnp_renew = mapper_renew env,
      sd_upnp_revoke = mapper_revoke env\<rparr>"

lemmas app_world_defs [go_defs] =
  write_log_def forwarder_new_def forwarder_start_def forwarder_stop_def stun_txid_def stun_query_def
  endpoint_err_def client_new_def dns_query_bytes_def client_call_def client_close_def found_router_log_def
  mapper_forward_def mapper_renew_def mapper_revoke_def lan_dial_def lan_close_def app_lan_check_def
  probe_request_def probe_get_def checker_wan_def app_wan_check_def write_status_def run_script_def app_notify_def app_deps_def

section \<open>What the program owes\<close>

datatype resource =
    RRule "string \<times> int" | RProcess nat | RSocket nat | RConnection nat | RMapping "string \<times> port_mapping"

definition owed_resources :: "app_env \<Rightarrow> world \<Rightarrow> resource set" where
  "owed_resources env w =
     RRule ` owed_rules (w_nft w) \<union> RProcess ` owed_processes (w_proc w) \<union> RSocket ` owed_sockets (w_listen w) \<union>
     RConnection ` live (w_net w) \<union> RMapping ` owed_mappings (ae_upnp env) (w_upnp w)"

fun forwarder_resources :: "forwarder \<Rightarrow> resource set" where
  "forwarder_resources NoneFwd = {}"
| "forwarder_resources (TestFwd s) = RSocket ` test_server_held s"
| "forwarder_resources (SocketFwd f) = RSocket ` socket_held f"
| "forwarder_resources (NftFwd f) = RRule ` held_rules f"
| "forwarder_resources (SocatFwd f) = RProcess ` set_option (sf_process f)"
| "forwarder_resources (GostFwd f) = RProcess ` set_option (gf_process f)"

fun ka_conn :: "keep_alive_client \<Rightarrow> nat option" where
  "ka_conn (TCPKeepAlive c) = tc_conn c"
| "ka_conn (UDPKeepAlive c) = uc_conn c"

definition client_conn :: "world \<Rightarrow> nat option" where
  "client_conn w = Option.bind (w_client w) ka_conn"

definition client_resources :: "world \<Rightarrow> resource set" where
  "client_resources w = RConnection ` set_option (client_conn w)"

definition mapper_resources :: "world \<Rightarrow> resource set" where
  "mapper_resources w = RMapping ` mapper_held (w_mapper w)"

text \<open>
  The invariant: every close has named an open connection, the client's connection is open, and the
  mapper can ask for what it holds to be deleted.
\<close>

definition sane :: "app_env \<Rightarrow> world \<Rightarrow> bool" where
  "sane env w \<longleftrightarrow>
     orderly (w_net w) \<and> set_option (client_conn w) \<subseteq> live (w_net w) \<and> mapper_ok (ae_upnp env) (w_mapper w)"

abbreviation calm :: "app_env \<Rightarrow> world \<Rightarrow> world \<Rightarrow> bool" where
  "calm env \<equiv> quiet (owed_resources env) mapper_resources (\<lambda>(_ :: unit) w. forwarder_resources (w_forwarder w))
     (\<lambda>(_ :: unit). client_resources) (sane env)"

lemmas resource_defs = owed_resources_def client_resources_def client_conn_def mapper_resources_def sane_def

lemma calm_trans: "calm env w w1 \<Longrightarrow> calm env w1 w2 \<Longrightarrow> calm env w w2"
  by (simp add: quiet_def frame_def)

lemma calm_log [simp]: "calm env w (write_log ls w)"
  by (simp add: quiet_def frame_def resource_defs write_log_def)

lemma calm_sys [simp]: "calm env w (w\<lparr>w_sys := h\<rparr>)"
  by (simp add: quiet_def frame_def resource_defs)

lemma calm_files [simp]: "calm env w (w\<lparr>w_files := fs, w_sys := h\<rparr>)"
  by (simp add: quiet_def frame_def resource_defs)

lemma calm_net: "same_live (w_net w) h \<Longrightarrow> calm env w (w\<lparr>w_stun := c, w_net := h\<rparr>)"
  by (auto simp: quiet_def frame_def resource_defs same_live_def)

lemma stun_query_calm: "calm env w (snd (stun_query env cfg w))"
proof -
  let ?exch = "stun_exchange None (network_exchange (ae_stun env)) (w_stun w)"
  obtain r c h where g: "get_mapping (stun_transaction_id None (stun_txid env)) ?exch (w_stun w) (w_net w) = (r, c, h)"
    by (metis prod.collapse)
  have "same_live (w_net w) (snd (snd (get_mapping (stun_transaction_id None (stun_txid env)) ?exch (w_stun w) (w_net w))))"
    by (rule get_mapping_relation [of same_live])
      (auto intro: same_live_trans simp: stun_transaction_id_def stun_exchange_def stun_txid_def network_exchange_same_live)
  with g calm_net show ?thesis by (simp add: stun_query_def)
qed

lemma lan_dial_same_live:
  "lan_dial env opts source address h = (e, h') \<Longrightarrow> e \<noteq> None \<Longrightarrow> same_live h h'"
  "lan_dial env opts source address h = (None, h') \<Longrightarrow> same_live h (lan_close env h')"
proof -
  show "same_live h h'" if "lan_dial env opts source address h = (e, h')" "e \<noteq> None"
    using that by (intro same_live_owns) (auto simp: lan_dial_def Let_def)
  show "same_live h (lan_close env h')" if "lan_dial env opts source address h = (None, h')"
    using that owns_dial owns_close
    by (intro same_live_owns) (fastforce simp: lan_dial_def lan_close_def close_conn_def Let_def)
qed

lemma lan_check_calm: "calm env w (snd (app_lan_check env iface target source w))"
proof -
  let ?net = "sn_net (ae_stun env)"
  obtain r h where t: "test_lan (lan_dial ?net) (lan_close ?net) iface target source (w_net w) = (r, h)" by fastforce
  then have "same_live (w_net w) h"
    by (auto simp: test_lan_def intro: lan_dial_same_live split: prod.splits option.splits)
  from calm_net [OF this, of env "w_stun w"] t show ?thesis by (simp add: app_lan_check_def)
qed

lemma wan_check_calm: "calm env w (snd (app_wan_check env iface port source w))"
  by (simp add: app_wan_check_def checker_wan_def split: prod.splits)

lemma write_status_calm: "calm env w (snd (write_status env path m w))"
  by (simp add: write_status_def split: prod.splits)

lemma run_script_calm: "calm env w (snd (run_script env limit path args w))"
  by (simp add: run_script_def Let_def)

lemma calm_notify_run:
  assumes "\<And>path m w. calm env w (snd (write path m w))" "\<And>limit path args w. calm env w (snd (execute limit path args w))"
  shows "calm env w (snd (notify_run write ex execute opts m w))"
proof -
  define m' where "m' = m\<lparr>stm_instance := default_string (stm_instance m) (default_string (no_instance opts) ''default''),
                 stm_message := default_string (stm_message m) ''mapped''\<rparr>"
  obtain e1 w1 where 1: "write (status_path opts m') m' w = (e1, w1)" by fastforce
  obtain e2 w2 where 2: "execute (script_timeout opts) (no_user_script opts) (notify_args m') w1 = (e2, w2)" by fastforce
  from 1 assms(1) have c1: "calm env w w1" by (metis snd_conv)
  from 2 assms(2) calm_trans [OF c1] have c2: "calm env w w2" by (metis snd_conv)
  from 1 2 c1 c2 show ?thesis
    unfolding notify_run_def m'_def [symmetric] Let_def by (auto split: option.splits)
qed

lemma app_notify_calm: "calm env w (snd (app_notify env cfg m w))"
proof -
  let ?w = "write_log (log_notify_script (cfg_notify_path cfg)) w"
  define opts where "opts = \<lparr>no_instance = se_getenv (ae_sys env) ''QNATTER_INSTANCE'',
    no_status_file = se_getenv (ae_sys env) ''QNATTER_STATUS_FILE'', no_run_dir = [], no_user_script = cfg_notify_path cfg, no_timeout = 0\<rparr>"
  obtain u e w1 where n: "notify_run (write_status env) (\<lambda>path w. file_executable (se_stat (ae_sys env) (w_sys w) path))
      (run_script env) opts m ?w = ((u, e), w1)" by (metis prod.collapse)
  have "calm env ?w (snd (notify_run (write_status env) (\<lambda>path w. file_executable (se_stat (ae_sys env) (w_sys w) path))
      (run_script env) opts m ?w))" by (intro calm_notify_run write_status_calm run_script_calm)
  with n have "calm env ?w w1" by simp
  from calm_trans [OF calm_trans [OF calm_log this] calm_log] n show ?thesis
    by (simp add: app_notify_def Let_def opts_def)
qed

section \<open>The contract of the engine's dependencies\<close>

text \<open>The keep-alive client: its calls change nothing but its own connection.\<close>

lemma client_call_cases:
  obtains (none) "w_client w = None" "client_call env w = (None, w)"
  | (tcp) c e c' h where "w_client w = Some (TCPKeepAlive c)"
      "tcp_keep_alive (with_deadline (ae_reads env) (sn_net (ae_stun env))) (Suc (ae_reads env)) c (w_net w) = Some (e, c', h)"
      "client_call env w = (e, w\<lparr>w_client := Some (TCPKeepAlive c'), w_net := h\<rparr>)"
  | (udp) c e c' h where "w_client w = Some (UDPKeepAlive c)"
      "udp_keep_alive (sn_net (ae_stun env)) (dns_query_bytes (ae_random env (w_net w) 2)) c (w_net w) = (e, c', h)"
      "client_call env w = (e, w\<lparr>w_client := Some (UDPKeepAlive c'), w_net := h\<rparr>)"
proof (cases "w_client w")
  case None
  with none show ?thesis by (simp add: client_call_def)
next
  case (Some k)
  show ?thesis
  proof (cases k)
    case (TCPKeepAlive c)
    from with_deadline_keep_alive obtain e c' h where
      "tcp_keep_alive (with_deadline (ae_reads env) (sn_net (ae_stun env))) (Suc (ae_reads env)) c (w_net w) = Some (e, c', h)"
      by fastforce
    with tcp Some TCPKeepAlive show ?thesis by (simp add: client_call_def)
  next
    case (UDPKeepAlive c)
    obtain e c' h where
      "udp_keep_alive (sn_net (ae_stun env)) (dns_query_bytes (ae_random env (w_net w) 2)) c (w_net w) = (e, c', h)"
      by (metis prod.collapse)
    with udp Some UDPKeepAlive show ?thesis by (simp add: client_call_def)
  qed
qed

lemma client_owns:
  assumes "sane env w"
  shows "owns (client_conn w) (w_net w) (live (w_net w) - set_option (client_conn w))"
  using assms by (auto simp: owns_def sane_def)

text \<open>The step of a client that holds \<open>held\<close> before and \<open>client_conn w'\<close> after, and touches nothing else.\<close>

lemma client_step:
  assumes "sane env w" "w' = w\<lparr>w_client := k, w_net := h\<rparr>"
    and "owns (client_conn w') h (live (w_net w) - set_option (client_conn w))"
  shows "sane env w' \<and> owed_resources env w' \<subseteq> (owed_resources env w - client_resources w) \<union> client_resources w' \<and>
    mapper_resources w' = mapper_resources w \<and> forwarder_resources (w_forwarder w') = forwarder_resources (w_forwarder w)"
proof -
  from assms(3) have l: "orderly h" "live h = (live (w_net w) - set_option (client_conn w)) \<union> set_option (client_conn w')"
    by (simp_all add: owns_def)
  have "RConnection ` live h \<subseteq> (RConnection ` live (w_net w) - client_resources w) \<union> client_resources w'"
    unfolding l(2) by (auto simp: client_resources_def)
  moreover have "RConnection r \<notin> RRule ` A \<union> RProcess ` B \<union> RSocket ` C \<union> RMapping ` D" for r A B C D by auto
  moreover have "sane env w'" using assms(1,2) l by (auto simp: sane_def)
  ultimately show ?thesis
    using assms(2) by (auto simp: owed_resources_def mapper_resources_def client_resources_def)
qed

lemma client_call_contract:
  assumes "sane env w" "client_call env w = (e, w')"
  shows "sane env w' \<and> owed_resources env w' \<subseteq> (owed_resources env w - client_resources w) \<union> client_resources w' \<and>
    mapper_resources w' = mapper_resources w \<and> forwarder_resources (w_forwarder w') = forwarder_resources (w_forwarder w)"
proof (cases rule: client_call_cases [of w env])
  case none
  with assms show ?thesis by (auto simp: client_resources_def client_conn_def)
next
  case (tcp c e c' h)
  from client_owns [OF assms(1)] tcp(1) have "owns (tc_conn c) (w_net w) (live (w_net w) - set_option (client_conn w))"
    by (simp add: client_conn_def)
  from tcp_keep_alive_owns [OF this tcp(2)] client_step [OF assms(1), of w'] tcp(3) assms(2) show ?thesis
    by (simp add: client_conn_def)
next
  case (udp c e c' h)
  from client_owns [OF assms(1)] udp(1) have "owns (uc_conn c) (w_net w) (live (w_net w) - set_option (client_conn w))"
    by (simp add: client_conn_def)
  from udp_keep_alive_owns [OF this udp(2)] client_step [OF assms(1), of w'] udp(3) assms(2) show ?thesis
    by (simp add: client_conn_def)
qed

lemma client_close_contract:
  assumes "sane env w" "client_close env w = (e, w')"
  shows "sane env w' \<and> owed_resources env w' \<subseteq> owed_resources env w - client_resources w \<and>
    mapper_resources w' = mapper_resources w \<and> forwarder_resources (w_forwarder w') = forwarder_resources (w_forwarder w)"
proof (cases "w_client w")
  case None
  with assms show ?thesis by (auto simp: client_close_def client_resources_def client_conn_def)
next
  case (Some k)
  have own: "owns (ka_conn k) (w_net w) (live (w_net w) - set_option (client_conn w))"
    using client_owns [OF assms(1)] Some by (simp add: client_conn_def)
  obtain k' h where c: "w' = w\<lparr>w_client := Some k', w_net := h\<rparr>" "ka_conn k' = None"
      "owns None h (live (w_net w) - set_option (client_conn w))"
  proof (cases k)
    case (TCPKeepAlive c)
    obtain e1 c1 h1 where t: "tcp_close (sn_net (ae_stun env)) c (w_net w) = (e1, c1, h1)" by (metis prod.collapse)
    from own TCPKeepAlive have "owns (tc_conn c) (w_net w) (live (w_net w) - set_option (client_conn w))" by simp
    from tcp_close_owns [OF this t] tcp_close_conn [OF t] t that [of h1 "TCPKeepAlive c1"] assms(2) Some TCPKeepAlive
    show ?thesis by (simp add: client_close_def)
  next
    case (UDPKeepAlive c)
    obtain e1 c1 h1 where t: "udp_close (sn_net (ae_stun env)) c (w_net w) = (e1, c1, h1)" by (metis prod.collapse)
    from own UDPKeepAlive have "owns (uc_conn c) (w_net w) (live (w_net w) - set_option (client_conn w))" by simp
    from udp_close_owns [OF this t] udp_close_conn [OF t] t that [of h1 "UDPKeepAlive c1"] assms(2) Some UDPKeepAlive
    show ?thesis by (simp add: client_close_def)
  qed
  then have n: "client_conn w' = None" by (simp add: client_conn_def)
  with client_step [OF assms(1) c(1)] c(3) show ?thesis by (simp add: client_resources_def)
qed

text \<open>A forwarder: whatever its kind, it books what it starts and gives back what it holds.\<close>

lemma forwarder_start_contract:
  assumes "forwarder_resources (w_forwarder w) = {}" "forwarder_start env opts w = (e, w')"
  shows "owed_resources env w' \<subseteq> owed_resources env w \<union> forwarder_resources (w_forwarder w') \<and>
    mapper_resources w' = mapper_resources w \<and> client_resources w' = client_resources w \<and> (sane env w \<longrightarrow> sane env w')"
proof (cases "w_forwarder w")
  case NoneFwd
  with assms show ?thesis by (simp add: forwarder_start_def)
next
  case (TestFwd s)
  obtain r s' h where t: "test_server_start (ae_listen env) opts s (w_listen w) = (r, s', h)" by (metis prod.collapse)
  from assms(1) TestFwd have "test_server_held s = {}" by simp
  from test_server.start_owed [OF this t] TestFwd t assms(2) show ?thesis
    by (auto simp: forwarder_start_def resource_defs)
next
  case (SocketFwd f)
  obtain r s' h where t: "socket_start (ae_listen env) opts f (w_listen w) = (r, s', h)" by (metis prod.collapse)
  from assms(1) SocketFwd have "socket_held f = {}" by simp
  from socket.start_owed [OF this t] SocketFwd t assms(2) show ?thesis
    by (auto simp: forwarder_start_def resource_defs)
next
  case (NftFwd f)
  obtain r s' h where t: "nft_start (ae_nft env) opts f (w_nft w) = (r, s', h)" by (metis prod.collapse)
  from assms(1) NftFwd have "held_rules f = {}" by simp
  from nft.start_owed [OF this t] NftFwd t assms(2) show ?thesis
    by (auto simp: forwarder_start_def resource_defs)
next
  case (SocatFwd f)
  obtain r s' h where t: "socat_start (ae_proc env) opts f (w_proc w) = (r, s', h)" by (metis prod.collapse)
  from assms(1) SocatFwd have "set_option (sf_process f) = {}" by simp
  from socat.start_owed [OF this t] SocatFwd t assms(2) show ?thesis
    by (auto simp: forwarder_start_def resource_defs)
next
  case (GostFwd f)
  obtain r s' h where t: "gost_start (ae_proc env) opts f (w_proc w) = (r, s', h)" by (metis prod.collapse)
  from assms(1) GostFwd have "set_option (gf_process f) = {}" by simp
  from gost.start_owed [OF this t] GostFwd t assms(2) show ?thesis
    by (auto simp: forwarder_start_def resource_defs)
qed

lemma forwarder_stop_contract:
  assumes "forwarder_stop env w = (e, w')"
  shows "owed_resources env w' \<subseteq> owed_resources env w - forwarder_resources (w_forwarder w) \<and>
    mapper_resources w' = mapper_resources w \<and> client_resources w' = client_resources w \<and> (sane env w \<longrightarrow> sane env w')"
proof (cases "w_forwarder w")
  case NoneFwd
  with assms show ?thesis by (simp add: forwarder_stop_def)
next
  case (TestFwd s)
  obtain r s' h where t: "test_server_stop (ae_listen env) s (w_listen w) = (r, s', h)" by (metis prod.collapse)
  from test_server.stop_owed [OF t] TestFwd t assms show ?thesis
    by (auto simp: forwarder_stop_def resource_defs)
next
  case (SocketFwd f)
  obtain r s' h where t: "socket_stop (ae_listen env) f (w_listen w) = (r, s', h)" by (metis prod.collapse)
  from socket.stop_owed [OF t] SocketFwd t assms show ?thesis
    by (auto simp: forwarder_stop_def resource_defs)
next
  case (NftFwd f)
  obtain r s' h where t: "nft_stop (ae_nft env) f (w_nft w) = (r, s', h)" by (metis prod.collapse)
  from nft.stop_owed [OF t] NftFwd t assms show ?thesis
    by (auto simp: forwarder_stop_def resource_defs)
next
  case (SocatFwd f)
  obtain r s' h where t: "socat_stop (ae_proc env) f (w_proc w) = (r, s', h)" by (metis prod.collapse)
  from socat.stop_owed [OF t] SocatFwd t assms show ?thesis
    by (auto simp: forwarder_stop_def resource_defs)
next
  case (GostFwd f)
  obtain r s' h where t: "gost_stop (ae_proc env) f (w_proc w) = (r, s', h)" by (metis prod.collapse)
  from gost.stop_owed [OF t] GostFwd t assms show ?thesis
    by (auto simp: forwarder_stop_def resource_defs)
qed

text \<open>The mapper.\<close>

lemma mapper_step:
  assumes "w' = w\<lparr>w_mapper := x, w_upnp := h\<rparr>" "mapper_ok (ae_upnp env) x"
  shows "mapper_resources w' = RMapping ` mapper_held x \<and> (sane env w \<longrightarrow> sane env w') \<and>
    w_forwarder w' = w_forwarder w \<and> client_resources w' = client_resources w"
  using assms by (simp add: resource_defs)

lemma mapper_forward_contract:
  assumes "mapper_resources w = {}" "mapper_forward env m w = (e, w')"
  shows "owed_resources env w' \<subseteq> owed_resources env w \<union> (if e = None then mapper_resources w' else {}) \<and>
    w_forwarder w' = w_forwarder w \<and> client_resources w' = client_resources w \<and> (sane env w \<longrightarrow> sane env w')"
proof -
  obtain e1 x h where u: "upnp_forward (ae_upnp env) m (w_mapper w) (w_upnp w) = (e1, x, h)" by (metis prod.collapse)
  from assms(1) have "mapper_held (w_mapper w) = {}" by (simp add: mapper_resources_def)
  from upnp_forward_owed [OF this u] u assms(2) show ?thesis
    by (auto simp: mapper_forward_def resource_defs write_log_def)
qed

lemma mapper_renew_contract:
  assumes "mapper_renew env w = (e, w')"
  shows "owed_resources env w' \<subseteq> owed_resources env w \<union> mapper_resources w \<and>
    mapper_resources w' = mapper_resources w \<and> w_forwarder w' = w_forwarder w \<and>
    client_resources w' = client_resources w \<and> (sane env w \<longrightarrow> sane env w')"
proof -
  obtain e1 h where u: "upnp_renew (ae_upnp env) (w_mapper w) (w_upnp w) = (e1, h)" by fastforce
  from upnp_renew_owed [OF u] u assms show ?thesis
    by (auto simp: mapper_renew_def resource_defs)
qed

lemma mapper_revoke_contract:
  assumes "sane env w" "mapper_revoke env w = (e, w')"
  shows "owed_resources env w' \<subseteq> owed_resources env w - mapper_resources w \<and>
    w_forwarder w' = w_forwarder w \<and> client_resources w' = client_resources w \<and> sane env w'"
proof -
  obtain e1 x h where u: "upnp_revoke (ae_upnp env) (w_mapper w) (w_upnp w) = (e1, x, h)" by (metis prod.collapse)
  from assms(1) have "mapper_ok (ae_upnp env) (w_mapper w)" by (simp add: sane_def)
  from upnp_revoke_owed [OF this u] u assms show ?thesis
    by (auto simp: mapper_revoke_def resource_defs)
qed

lemma forwarder_new_contract:
  "forwarder_new method w = (r, w') \<Longrightarrow>
   owed_resources env w' = owed_resources env w \<and> mapper_resources w' = mapper_resources w \<and>
   client_resources w' = client_resources w \<and> (sane env w \<longrightarrow> sane env w') \<and>
   (r = Inr u \<longrightarrow> forwarder_resources (w_forwarder w') = {})"
proof -
  have "forwarder_resources (make_forwarder kind) = {}" for kind
    by (cases kind) (simp_all add: test_server_held_def socket_held_def held_rules_def fresh_nft_forwarder_def)
  then show "forwarder_new method w = (r, w') \<Longrightarrow> ?thesis"
    by (auto simp: forwarder_new_def resource_defs split: sum.splits)
qed

lemma client_new_contract:
  assumes "sane env w" "client_new cfg m w = (r, w')"
  shows "sane env w' \<and> owed_resources env w' = owed_resources env w \<and> mapper_resources w' = mapper_resources w \<and>
    (r = Inr (Some u) \<longrightarrow> client_resources w' = {})"
proof -
  have "ka_conn k = None" if "new_keep_alive_from_config cfg m = Inr k" for k
    using that by (auto simp: new_keep_alive_from_config_def Let_def res_bind_def split: sum.splits if_splits)
  with assms show ?thesis by (auto simp: client_new_def resource_defs split: sum.splits)
qed

interpretation app: session_env "app_deps env cfg" "owed_resources env" mapper_resources
  "\<lambda>_ w. forwarder_resources (w_forwarder w)" "\<lambda>_. client_resources" "sane env"
proof unfold_locales
  fix w w' :: world and e r m query new_ka meth fr opts um notify lan wan
  show "calm env w (snd (query w))" if "sd_get_mapping (app_deps env cfg) = Some query"
    using that stun_query_calm by (auto simp: app_deps_def)
  show "sane env w' \<and> owed_resources env w' = owed_resources env w \<and> mapper_resources w' = mapper_resources w \<and>
      (\<forall>k. r = Inr (Some k) \<longrightarrow> client_resources w' = {})"
    if "sd_new_keep_alive (app_deps env cfg) = Some new_ka" "sane env w" "new_ka m w = (r, w')"
    using that client_new_contract [of env w cfg m r w'] by (simp add: app_deps_def)
  show "sane env w' \<and> owed_resources env w' = owed_resources env w \<and> mapper_resources w' = mapper_resources w \<and>
      (\<forall>k. client_resources w' = client_resources w) \<and> (\<forall>f. fr = Inr f \<longrightarrow> forwarder_resources (w_forwarder w') = {})"
    if "sane env w" "sd_new_forwarder (app_deps env cfg) meth w = (fr, w')"
    using that forwarder_new_contract [of meth w fr w' env] by (simp add: app_deps_def)
  show "sane env w' \<and> owed_resources env w' \<subseteq> owed_resources env w \<union> forwarder_resources (w_forwarder w') \<and>
      mapper_resources w' = mapper_resources w \<and> (\<forall>k. client_resources w' = client_resources w)"
    if "sane env w" "forwarder_resources (w_forwarder w) = {}" "sd_fwd_start (app_deps env cfg) f opts w = (e, w')" for f
    using that forwarder_start_contract [of w env opts e w'] by (simp add: app_deps_def)
  show "sane env w' \<and> owed_resources env w' \<subseteq> owed_resources env w - forwarder_resources (w_forwarder w) \<and>
      mapper_resources w' = mapper_resources w \<and> (\<forall>k. client_resources w' = client_resources w)"
    if "sane env w" "sd_fwd_stop (app_deps env cfg) f w = (e, w')" for f
    using that forwarder_stop_contract [of env w e w'] by (simp add: app_deps_def)
  show "sane env w' \<and> owed_resources env w' \<subseteq> owed_resources env w \<union> (if e = None then mapper_resources w' else {}) \<and>
      (\<forall>f. forwarder_resources (w_forwarder w') = forwarder_resources (w_forwarder w)) \<and>
      (\<forall>k. client_resources w' = client_resources w)"
    if "sane env w" "mapper_resources w = {}" "sd_upnp_forward (app_deps env cfg) um w = (e, w')"
    using that mapper_forward_contract [of w env um e w'] by (simp add: app_deps_def)
  show "owed_resources env w' \<subseteq> owed_resources env w \<union> mapper_resources w \<and>
      frame mapper_resources (\<lambda>_ w. forwarder_resources (w_forwarder w)) (\<lambda>_. client_resources) (sane env) w w'"
    if "sane env w" "sd_upnp_renew (app_deps env cfg) w = (e, w')"
    using that mapper_renew_contract [of env w e w'] by (simp add: app_deps_def frame_def)
  show "sane env w' \<and> owed_resources env w' \<subseteq> owed_resources env w - mapper_resources w \<and>
      (\<forall>f. forwarder_resources (w_forwarder w') = forwarder_resources (w_forwarder w)) \<and>
      (\<forall>k. client_resources w' = client_resources w)"
    if "sane env w" "sd_upnp_revoke (app_deps env cfg) w = (e, w')"
    using that mapper_revoke_contract [of env w e w'] by (simp add: app_deps_def)
  show "sane env w' \<and> owed_resources env w' \<subseteq> owed_resources env w - client_resources w \<union> client_resources w' \<and>
      mapper_resources w' = mapper_resources w \<and>
      (\<forall>f. forwarder_resources (w_forwarder w') = forwarder_resources (w_forwarder w))"
    if "sane env w" "sd_ka_call (app_deps env cfg) k w = (e, w')" for k
    using that client_call_contract [of env w e w'] by (simp add: app_deps_def)
  show "sane env w' \<and> owed_resources env w' \<subseteq> owed_resources env w - client_resources w \<and>
      mapper_resources w' = mapper_resources w \<and>
      (\<forall>f. forwarder_resources (w_forwarder w') = forwarder_resources (w_forwarder w))"
    if "sane env w" "sd_ka_close (app_deps env cfg) k w = (e, w')" for k
    using that client_close_contract [of env w e w'] by (simp add: app_deps_def)
  show "calm env w (snd (notify nm w))" if "sd_notify (app_deps env cfg) = Some notify" for nm
    using that app_notify_calm by (auto simp: app_deps_def)
  show "calm env w (snd (lan a src w))" if "sd_initial_check (app_deps env cfg) = Some (lan, wan)" for a src
    using that lan_check_calm by (auto simp: app_deps_def)
  show "calm env w (snd (wan p src w))" if "sd_initial_check (app_deps env cfg) = Some (lan, wan)" for p src
    using that wan_check_calm by (auto simp: app_deps_def)
qed (simp_all add: app_deps_def lan_check_calm)

end
