(* ===== verification/App.thy ===== *)
theory App
  imports App_World
begin

text \<open>
  The program: \<open>runEngineWithLog\<close> and \<open>runWithContext\<close> of \<open>internal/app/app.go\<close>, \<open>internal/procname\<close> and
  \<open>cmd/qnatter/main.go\<close>, over the world of \<open>App_World\<close>.
\<close>
section \<open>The engine of the program\<close>

definition app_loop_options :: loop_options where
  "app_loop_options = \<lparr>lo_recheck_every = 0, lo_keep_alive_limit = 0, lo_stun_limit = 0\<rparr>"

text \<open>
  One run: a new STUN client and, when the configuration asks for it, a new mapper (the world has one
  in any case, which only \<open>-U\<close> uses), then the loop.
\<close>

definition engine_run :: "app_env \<Rightarrow> config \<Rightarrow> loop_event list \<Rightarrow> world \<Rightarrow> (goerror option \<times> world) option" where
  "engine_run env cfg evs w =
     (let w1 = w\<lparr>w_stun := new_stun_client_from_config cfg, w_mapper := new_upnp_mapper_from_config cfg\<rparr>;
          w2 = (if cfg_upnp cfg then write_log log_upnp_scanning w1 else w1)
      in run_loop (app_deps env cfg) cfg app_loop_options evs w2)"

definition app_retry :: "app_env \<Rightarrow> world retry_options" where
  "app_retry env =
     \<lparr>ro_retryable = None,
      ro_on_retry = (\<lambda>e delay. write_log (log_retry e delay)),
      ro_sleep = None,
      ro_timer = (\<lambda>delay w. let e = se_sleep (ae_sys env) (w_sys w) delay in (e, w\<lparr>w_sys := w_sys w @ [RetrySleep delay e]\<rparr>)),
      ro_context_ended = (\<lambda>w. se_context_ended (ae_sys env) (w_sys w))\<rparr>"

text \<open>The \<open>runs\<close> are the events each run of the loop will see; \<open>None\<close> is a program that still runs.\<close>

definition run_engine :: "app_env \<Rightarrow> loop_event list list \<Rightarrow> config \<Rightarrow> world \<Rightarrow> (goerror option \<times> world) option" where
  "run_engine env runs cfg w = run_with_retry cfg (engine_run env cfg) (app_retry env) runs w"

section \<open>The command line\<close>

definition text_lines :: "string list \<Rightarrow> string" where
  "text_lines ls = concat (map (\<lambda>l. l @ [CHR 0x0A]) ls)"

definition help_text :: string where
  "help_text = text_lines
     [''usage: qnatter [options]'', [],
      ''Expose your port behind full-cone NAT to the Internet.'', [],
      ''options:'',
      ''  --version, -V       show the version of QNatter and exit'',
      ''  --help              show this help message and exit'',
      ''  --check             run qnatter-check and exit'',
      ''  -v                  verbose mode, printing debug messages'',
      ''  -q                  exit when mapped address is changed'',
      ''  -u                  UDP mode'',
      ''  -U                  enable UPnP/IGD discovery'',
      ''  -k <interval>       seconds between each keep-alive'',
      ''  -s <address>        hostname or address to STUN server'',
      ''  -h <address>        hostname or address to keep-alive server'',
      ''  -e <path>           script path for notifying mapped address'', [],
      ''bind options:'',
      ''  -i <interface>      network interface name or IP to bind'',
      ''  -b <port>           port number to bind'', [],
      ''forward options:'',
      ''  -m <method>         forward method, common values are 'nftables', 'socat', 'gost' and 'socket'' @ [CHR 0x27],
      ''  -t <address>        IP address of forward target'',
      ''  -p <port>           port number of forward target'',
      ''  -r                  keep retrying until the port of forward target is open'']"

text \<open>The scan of the arguments before they are parsed: the first of the options it knows decides.\<close>

fun early_output :: "string list \<Rightarrow> string option" where
  "early_output [] = None"
| "early_output (arg # args) =
     (if arg = ''--version'' \<or> arg = ''-V'' then Some (text_lines [''QNatter Go '' @ version])
      else if arg = ''--help'' then Some help_text
      else early_output args)"

text \<open>
  The result is the exit code, what was written to standard output, and the world.  \<open>check\<close> is the
  run of \<open>--check\<close> with its report, \<open>engine\<close> that of the mapping engine.
\<close>

definition run_with_context ::
  "(string \<Rightarrow> string) \<Rightarrow> (string \<Rightarrow> bool option) \<Rightarrow> (config \<Rightarrow> world \<Rightarrow> (goerror option \<times> world) option) \<Rightarrow>
   (config \<Rightarrow> world \<Rightarrow> (goerror option \<times> string) \<times> world) \<Rightarrow> string list \<Rightarrow> world \<Rightarrow> (nat \<times> string \<times> world) option" where
  "run_with_context getenv stat engine check args w =
     (case early_output args of
        Some out \<Rightarrow> Some (0, out, w)
      | None \<Rightarrow>
          (case parse_args getenv stat args of
             Inl e \<Rightarrow> Some (2, [], write_log [PlainLine (''qnatter: '' @ config_error_text e)] w)
           | Inr cfg \<Rightarrow>
               if cfg_check cfg then
                 (case check cfg w of
                    ((Some e, out), w1) \<Rightarrow> Some (1, out, write_log [PlainLine (''qnatter: '' @ err_text e)] w1)
                  | ((None, out), w1) \<Rightarrow> Some (0, out, w1))
               else
                 let w1 = write_log (print_startup (args = [])) w;
                     w2 = (if cfg_verbose cfg then write_log (log_config cfg) w1 else w1)
                 in (case engine cfg w2 of
                       None \<Rightarrow> None
                     | Some (None, w3) \<Rightarrow> Some (0, [], w3)
                     | Some (Some e, w3) \<Rightarrow>
                         if cfg_exit_when_changed cfg \<and> (errors_is e ErrMappingChanged \<or> errors_is e ErrLocalAddressChanged)
                         then Some (0, [], write_log (log_exit_reason e) w3)
                         else Some (1, [], write_log [Stamped ''E'' (''qnatter: '' @ err_text e)] w3))))"

section \<open>main\<close>

text \<open>
  \<open>procname.Set\<close>: the name that is written to \<open>/proc/self/comm\<close> and, padded with zeros to 16 bytes,
  passed to \<open>prctl\<close>.  The two calls are the arguments.
\<close>

definition comm_name :: "string \<Rightarrow> string" where
  "comm_name name =
     (let line = takeWhile (\<lambda>c. c \<noteq> CHR 0x0A) name in take 15 (if line = [] then ''QNatter'' else line))"

definition prctl_name :: "string \<Rightarrow> string" where
  "prctl_name encoded = take 16 (encoded @ replicate 16 (CHR 0x00))"

definition procname_set :: "(string \<Rightarrow> string \<Rightarrow> goerror option) \<Rightarrow> (string \<Rightarrow> goerror option) \<Rightarrow> string \<Rightarrow> goerror option" where
  "procname_set write_file prctl name =
     (case write_file ''/proc/self/comm'' (comm_name name) of
        Some e \<Rightarrow> Some e
      | None \<Rightarrow> prctl (prctl_name (comm_name name)))"

definition main_run ::
  "goerror option \<Rightarrow> (string list \<Rightarrow> world \<Rightarrow> (nat \<times> string \<times> world) option) \<Rightarrow> string list \<Rightarrow> world \<Rightarrow>
   (nat \<times> string \<times> world) option" where
  "main_run name_error run args w =
     run args
       (case name_error of
          None \<Rightarrow> w
        | Some e \<Rightarrow> write_log [PlainLine (''qnatter: failed to set process name: '' @ err_text e)] w)"

lemmas app_defs [go_defs] =
  app_loop_options_def engine_run_def app_retry_def run_engine_def text_lines_def help_text_def
  run_with_context_def comm_name_def prctl_name_def procname_set_def main_run_def

lemma prctl_name_terminated: "length (prctl_name (comm_name name)) = 16 \<and> prctl_name (comm_name name) ! 15 = CHR 0x00"
  by (simp add: prctl_name_def comm_name_def Let_def nth_append)

section \<open>What the program leaves behind\<close>

lemma engine_run_releases:
  assumes "sane env w" "engine_run env cfg evs w = Some (e, w')"
  shows "sane env w' \<and> owed_resources env w' \<subseteq> owed_resources env w"
proof -
  let ?w = "w\<lparr>w_stun := new_stun_client_from_config cfg, w_mapper := new_upnp_mapper_from_config cfg\<rparr>"
  let ?w2 = "if cfg_upnp cfg then write_log log_upnp_scanning ?w else ?w"
  have fresh: "ux_service (new_upnp_mapper_from_config cfg) = None" by (simp add: new_upnp_mapper_from_config_def Let_def)
  with assms(1) have s: "sane env ?w2" "mapper_resources ?w2 = {}" and o: "owed_resources env ?w2 = owed_resources env w"
    by (auto simp: resource_defs mapper_ok_def mapper_held_def write_log_def)
  from assms(2) have "run_loop (app_deps env cfg) cfg app_loop_options evs ?w2 = Some (e, w')"
    by (simp add: engine_run_def Let_def)
  from app.run_loop_releases [OF s this] o show ?thesis by simp
qed

lemma run_engine_keeps:
  assumes "sane env w" "owed_resources env w \<subseteq> B" "run_engine env runs cfg w = Some (e, w')"
  shows "sane env w' \<and> owed_resources env w' \<subseteq> B"
proof (rule run_with_retry_keeps [where P = "\<lambda>w. sane env w \<and> owed_resources env w \<subseteq> B"])
  show "run_with_retry cfg (engine_run env cfg) (app_retry env) runs w = Some (e, w')"
    using assms(3) by (simp add: run_engine_def)
  show "sane env v' \<and> owed_resources env v' \<subseteq> B"
    if "sane env v \<and> owed_resources env v \<subseteq> B" "engine_run env cfg r v = Some (x, v')" for r v x v'
    using that engine_run_releases by blast
  show "sane env (ro_on_retry (app_retry env) x d v) \<and> owed_resources env (ro_on_retry (app_retry env) x d v) \<subseteq> B"
    if "sane env v \<and> owed_resources env v \<subseteq> B" for x d v
    using that by (simp add: app_retry_def resource_defs write_log_def)
  show "sane env (snd (sleep_retry (app_retry env) d v)) \<and> owed_resources env (snd (sleep_retry (app_retry env) d v)) \<subseteq> B"
    if "sane env v \<and> owed_resources env v \<subseteq> B" for d v
    using that by (simp add: app_retry_def sleep_retry_def resource_defs Let_def)
qed (use assms in simp)

lemma run_engine_releases:
  assumes "sane env w" "run_engine env runs cfg w = Some (e, w')"
  shows "sane env w' \<and> owed_resources env w' \<subseteq> owed_resources env w"
  using run_engine_keeps [OF assms(1) subset_refl assms(2)] .


section \<open>A run\<close>

text \<open>
  A UDP session with the socket forwarder on a network on which everything works: the server answers
  both queries, the DNS server the keep-alive, and the context ends before the first tick.
\<close>

definition sample_answer :: "byte list" where
  "sample_answer = (let tid = bytes_of ''NATR'' @ replicate 8 7; body = address_response tid [] (AddrPort (Addr4 203 0 113 9) 9) [] in
     response_header tid (length body) @ body)"

definition sample_app_net :: net_env where
  "sample_app_net = \<lparr>ne_dial = \<lambda>_ _ _ _ _. None, ne_set_deadline = \<lambda>_ _. None, ne_write = \<lambda>_ _ _. None,
     ne_read = \<lambda>_ _. (35, None), ne_close = \<lambda>_ _. None\<rparr>"

definition sample_sys :: sys_env where
  "sample_sys = \<lparr>se_http = \<lambda>_ _ _ _ _. Inl (errorf ''no route''), se_json = \<lambda>_. Inr True, se_encode = \<lambda>_. Inr ''{}'',
     se_status = \<lambda>_. (''now'', None, \<lparr>wa_create = \<lambda>_ _. Inr ''tmp'', wa_write = None, wa_chmod = None, wa_close = None,
        wa_rename = None, wa_remove = None\<rparr>),
     se_stat = \<lambda>_ _. None, se_execute = \<lambda>_ _ _ _. None, se_sleep = \<lambda>_ _. None, se_context_ended = \<lambda>_. False,
     se_getenv = \<lambda>_. []\<rparr>"

definition sample_app :: app_env where
  "sample_app = \<lparr>ae_stun = \<lparr>sn_net = sample_app_net, sn_incoming = \<lambda>_ _ _. ([sample_answer], errorf ''EOF''),
       sn_local = \<lambda>_ _. UDPConnAddr ''192.168.1.2'' 8\<rparr>,
     ae_random = \<lambda>_ n. Inr (replicate n 7), ae_reads = 3, ae_nft = sample_nft True, ae_proc = sample_os,
     ae_listen = sample_listen [], ae_upnp = sample_upnp_env, ae_sys = sample_sys\<rparr>"

definition sample_config :: config where
  "sample_config = (initial_config (\<lambda>_. []))\<lparr>cfg_udp := True, cfg_stun_servers := [\<lparr>sv_host = ''stun.example'', sv_port = 5\<rparr>],
     cfg_keep_alive_server := ''192.0.2.53'', cfg_forward_method := ''socket'', cfg_target_ip := ''192.168.1.9'',
     cfg_target_port := 6\<rparr>"

definition sample_world :: world where
  "sample_world = \<lparr>w_net = [], w_nft = [], w_proc = [], w_listen = [], w_upnp = [], w_sys = [],
     w_stun = new_stun_client_from_config sample_config, w_client = None, w_forwarder = NoneFwd,
     w_mapper = new_upnp_mapper_from_config sample_config, w_files = Map.empty, w_log = []\<rparr>"




end
