(* ===== verification/App_Ends.thy ===== *)
theory App_Ends
  imports App
begin

text \<open>
  Why the engine ends: the history of the system only grows, so once the context is over the first wait
  between two sessions ends \<open>RunWithRetry\<close> of \<open>internal/engine/retry.go\<close>, and before that every run of
  the loop ends with its context.
\<close>

lemma run_loop_ends: "ContextDone \<in> set evs \<Longrightarrow> \<exists>e w'. run_loop deps cfg opts evs w = Some (e, w')"
proof (rule ccontr)
  assume stop: "ContextDone \<in> set evs" and "\<not> ?thesis"
  then have "run_loop deps cfg opts evs w = None" by (cases "run_loop deps cfg opts evs w") auto
  then obtain s w1 query k where "loop_from deps opts query s k evs loop_init w1 = None" by (rule run_loop_None)
  with loop_from_done [OF stop, of deps opts query s k loop_init w1] show False by simp
qed

section \<open>The waits between two sessions\<close>

fun is_wait :: "sys_event \<Rightarrow> bool" where
  "is_wait (RetrySleep delay e) = True"
| "is_wait _ = False"

definition waits_done :: "sys_history \<Rightarrow> nat" where
  "waits_done h = length (filter is_wait h)"

definition waited :: "nat \<Rightarrow> world \<Rightarrow> bool" where
  "waited n w \<longleftrightarrow> n \<le> waits_done (w_sys w)"

lemma waits_done_snoc [simp]: "waits_done (h @ [ev]) = waits_done h + (if is_wait ev then 1 else 0)"
  by (simp add: waits_done_def)

text \<open>What does not touch the history of the system, or only adds to it, takes back no wait.\<close>

lemma waited_same [intro]: "w_sys w' = w_sys w \<Longrightarrow> waited n w \<Longrightarrow> waited n w'"
  by (simp add: waited_def)

lemma waited_log [simp]: "waited n (write_log ls w) \<longleftrightarrow> waited n w"
  by (simp add: waited_def write_log_def)

lemma waited_snoc [simp]: "waited n w \<Longrightarrow> waited n (w\<lparr>w_sys := w_sys w @ [ev]\<rparr>)"
  "waited n w \<Longrightarrow> waited n (w\<lparr>w_files := fs, w_sys := w_sys w @ [ev]\<rparr>)"
  by (auto simp: waited_def)

lemma probe_get_waits: "probe_get env limit iface host path source h = (r, h') \<Longrightarrow> waits_done h' = waits_done h"
  by (auto simp: probe_get_def Let_def)

lemma test_wan_waits:
  "test_wan (test_ifconfig (probe_get env limit iface) json) (test_transmission (probe_get env limit iface)) port source h = (r, h') \<Longrightarrow>
   waits_done h' = waits_done h"
  by (auto simp: test_wan_def test_ifconfig_def test_transmission_def Let_def dest!: probe_get_waits
      split: prod.splits sum.splits if_splits)

lemma wan_check_waited: "waited n w \<Longrightarrow> waited n (snd (app_wan_check env iface port source w))"
  by (auto simp: app_wan_check_def checker_wan_def interface_checker_wan waited_def dest!: test_wan_waits split: prod.splits)

lemma lan_check_sys: "w_sys (snd (app_lan_check env iface target source w)) = w_sys w"
  by (simp add: app_lan_check_def split: prod.splits)

lemma notify_run_keeps:
  assumes "\<And>path m v. P v \<Longrightarrow> P (snd (write path m v))" "\<And>limit path args v. P v \<Longrightarrow> P (snd (execute limit path args v))" "P w"
  shows "P (snd (notify_run write ex execute opts m w))"
proof -
  define m' where "m' = m\<lparr>stm_instance := default_string (stm_instance m) (default_string (no_instance opts) ''default''),
                 stm_message := default_string (stm_message m) ''mapped''\<rparr>"
  obtain e1 w1 where 1: "write (status_path opts m') m' w = (e1, w1)" by fastforce
  obtain e2 w2 where 2: "execute (script_timeout opts) (no_user_script opts) (notify_args m') w1 = (e2, w2)" by fastforce
  from 1 assms(1) [OF assms(3)] have w1: "P w1" by (metis snd_conv)
  from 2 assms(2) [OF w1] have w2: "P w2" by (metis snd_conv)
  from 1 2 w1 w2 show ?thesis
    unfolding notify_run_def m'_def [symmetric] Let_def by (auto split: option.splits)
qed

lemma app_notify_waited: "waited n w \<Longrightarrow> waited n (snd (app_notify env cfg m w))"
proof -
  assume w: "waited n w"
  let ?w = "write_log (log_notify_script (cfg_notify_path cfg)) w"
  define opts where "opts = \<lparr>no_instance = se_getenv (ae_sys env) ''QNATTER_INSTANCE'',
    no_status_file = se_getenv (ae_sys env) ''QNATTER_STATUS_FILE'', no_run_dir = [], no_user_script = cfg_notify_path cfg, no_timeout = 0\<rparr>"
  obtain u e w1 where n: "notify_run (write_status env) (\<lambda>path w. file_executable (se_stat (ae_sys env) (w_sys w) path))
      (run_script env) opts m ?w = ((u, e), w1)" by (metis prod.collapse)
  have st: "waited n (snd (write_status env path m v))" if "waited n v" for path m v
    using that by (simp add: write_status_def split: prod.splits)
  have sc: "waited n (snd (run_script env limit path args v))" if "waited n v" for limit path args v
    using that by (simp add: run_script_def Let_def)
  have "waited n ?w" using w by simp
  from notify_run_keeps [of "waited n" "write_status env" "run_script env", OF st sc this,
      of "\<lambda>path w. file_executable (se_stat (ae_sys env) (w_sys w) path)" opts m] n
  have "waited n w1" by simp
  with n show ?thesis by (simp add: app_notify_def Let_def opts_def)
qed

lemma forwarder_sys:
  "w_sys (snd (forwarder_start env opts w)) = w_sys w" "w_sys (snd (forwarder_stop env w)) = w_sys w"
  "w_sys (snd (client_call env w)) = w_sys w" "w_sys (snd (client_close env w)) = w_sys w"
  "w_sys (snd (mapper_forward env um w)) = w_sys w" "w_sys (snd (mapper_renew env w)) = w_sys w"
  "w_sys (snd (mapper_revoke env w)) = w_sys w" "w_sys (snd (stun_query env cfg w)) = w_sys w"
  "w_sys (snd (client_new cfg m w)) = w_sys w" "w_sys (snd (forwarder_new meth w)) = w_sys w"
  by (simp_all add: forwarder_start_def forwarder_stop_def client_call_def client_close_def mapper_forward_def
      mapper_renew_def mapper_revoke_def stun_query_def client_new_def forwarder_new_def write_log_def
      split: forwarder.splits prod.splits option.splits keep_alive_client.splits sum.splits)


text \<open>
  The contract of the engine's dependencies holds with nothing owed and this invariant, so a run of
  the loop takes back no wait.
\<close>

interpretation timed: session_env "app_deps env cfg" "\<lambda>_. {}" "\<lambda>_. {}" "\<lambda>_ _. {}" "\<lambda>_ _. {}" "waited n"
  by unfold_locales
    (auto simp: app_deps_def quiet_def frame_def waited_def [of n] lan_check_sys
      wan_check_waited [unfolded waited_def] app_notify_waited [unfolded waited_def]
      forwarder_sys [THEN arg_cong [where f = waits_done]] dest: arg_cong [where f = "\<lambda>p. waits_done (w_sys (snd p))"])

lemma engine_run_waited:
  assumes "waited n w" "engine_run env cfg evs w = Some (e, w')"
  shows "waited n w'"
proof -
  let ?w = "w\<lparr>w_stun := new_stun_client_from_config cfg, w_mapper := new_upnp_mapper_from_config cfg\<rparr>"
  have "waited n (if cfg_upnp cfg then write_log log_upnp_scanning ?w else ?w)"
    using assms(1) by (simp add: waited_def write_log_def)
  with timed.run_loop_releases [OF this] assms(2) show ?thesis by (auto simp: engine_run_def Let_def split: if_splits)
qed

lemma engine_run_ends: "ContextDone \<in> set evs \<Longrightarrow> \<exists>e w'. engine_run env cfg evs w = Some (e, w')"
  unfolding engine_run_def Let_def by (rule run_loop_ends)

section \<open>The program ends\<close>

text \<open>
  The context is over after \<open>n\<close> waits when every later wait is cut short by its error.
\<close>

definition context_over_after :: "app_env \<Rightarrow> nat \<Rightarrow> bool" where
  "context_over_after env n \<longleftrightarrow> (\<forall>h delay. n \<le> waits_done h \<longrightarrow> se_sleep (ae_sys env) h delay \<noteq> None)"

lemma run_engine_ends:
  assumes "context_over_after env n"
  shows "\<forall>evs \<in> set runs. ContextDone \<in> set evs \<Longrightarrow> n < waits_done (w_sys w) + length runs \<Longrightarrow> runs \<noteq> [] \<Longrightarrow>
    \<exists>e w'. run_engine env runs cfg w = Some (e, w')"
proof (induction runs arbitrary: w)
  case (Cons evs runs)
  from Cons.prems(1) obtain r w1 where r: "engine_run env cfg evs w = Some (r, w1)" using engine_run_ends by fastforce
  show ?case
  proof (cases r)
    case None
    with r show ?thesis by (simp add: run_engine_def)
  next
    case (Some e)
    let ?delay = "retry_delay cfg"
    let ?w = "write_log (log_retry e ?delay) w1"
    define a where "a = se_sleep (ae_sys env) (w_sys ?w) ?delay"
    let ?w2 = "?w\<lparr>w_sys := w_sys ?w @ [RetrySleep ?delay a]\<rparr>"
    have later: "waits_done (w_sys w) \<le> waits_done (w_sys w1)"
      using engine_run_waited [OF _ r, of "waits_done (w_sys w)"] by (simp add: waited_def)
    have step: "run_engine env (evs # runs) cfg w =
        (if se_context_ended (ae_sys env) (w_sys w1) then Some (None, w1)
         else if ends_program cfg e then Some (Some e, w1)
         else if \<not> retryable e None then Some (Some e, w1)
         else if a \<noteq> None then Some (None, ?w2) else run_engine env runs cfg ?w2)"
      using r Some by (auto simp: run_engine_def app_retry_def sleep_retry_def Let_def a_def split: option.splits)
    show ?thesis
    proof (cases "a = None")
      case True
      with assms have "\<not> n \<le> waits_done (w_sys ?w)" by (metis context_over_after_def a_def)
      moreover have ws: "w_sys ?w = w_sys w1" by (simp add: write_log_def)
      ultimately have n: "waits_done (w_sys w1) < n" by simp
      with later Cons.prems(2) have "n < waits_done (w_sys ?w2) + length runs" "runs \<noteq> []"
        by (auto simp: ws)
      with Cons.IH [of ?w2] Cons.prems(1) step True show ?thesis by auto
    qed (use step in auto)
  qed
qed simp

end
