(* ===== verification/Check_Message.thy ===== *)
theory Check_Message
  imports Stun_Message
begin

text \<open>
  The STUN messages of \<open>internal/check/check.go\<close>: the binding request with its CHANGE-REQUEST, the
  checker's own parser of a response, and its agreement with the parser of the mapping engine.
\<close>
section \<open>The request\<close>

definition attr_change_request :: "16 word" where "attr_change_request = 0x0003"
definition change_port_flag :: "32 word" where "change_port_flag = 0x0002"
definition change_ip_flag :: "32 word" where "change_ip_flag = 0x0004"

definition change_flags :: "bool \<Rightarrow> bool \<Rightarrow> 32 word" where
  "change_flags change_ip change_port =
     (if change_ip then change_ip_flag else 0) OR (if change_port then change_port_flag else 0)"

text \<open>The transaction id of the checker has 16 bytes, the magic cookie included where it has one.\<close>

definition build_stun_binding_request :: "byte list \<Rightarrow> bool \<Rightarrow> bool \<Rightarrow> byte list" where
  "build_stun_binding_request txid change_ip change_port =
     (let flags = change_flags change_ip change_port; payload_len = (if flags \<noteq> 0 then 8 else 0) in
      put16 binding_request @ put16 payload_len @ txid @
      (if flags \<noteq> 0 then put16 attr_change_request @ put16 4 @ put32 flags else []))"

section \<open>The response\<close>

definition check_address_attribute :: "16 word \<Rightarrow> byte list \<Rightarrow> goerror + addr_port" where
  "check_address_attribute typ value =
     (if length value < 8 then Inl (errorf ''short STUN address attribute'')
      else if value ! 1 \<noteq> 0x01 then Inl (errorf (''unsupported STUN address family '' @ itoa (uint (value ! 1))))
      else
        let port = be16 (value ! 2) (value ! 3); ip = take 4 (drop 4 value); cookie = put32 magic_cookie in
        if typ = attr_xor_mapped_address
        then Inr (AddrPort (Addr4 (ip ! 0 XOR cookie ! 0) (ip ! 1 XOR cookie ! 1) (ip ! 2 XOR cookie ! 2) (ip ! 3 XOR cookie ! 3))
                    (port XOR ucast (drop_bit 16 magic_cookie)))
        else Inr (AddrPort (Addr4 (ip ! 0) (ip ! 1) (ip ! 2) (ip ! 3)) port))"

function check_attr_loop :: "byte list \<Rightarrow> goerror + addr_port" where
  "check_attr_loop payload =
     (if length payload < 4 then Inl (errorf ''mapped address attribute not found'')
      else
        let typ = be16 (payload ! 0) (payload ! 1); attr_len = unat (be16 (payload ! 2) (payload ! 3)) in
        if length payload < 4 + attr_len then Inl (errorf ''truncated STUN attribute'')
        else if typ = attr_mapped_address \<or> typ = attr_xor_mapped_address
        then check_address_attribute typ (take attr_len (drop 4 payload))
        else
          let padded = padded_len attr_len in
          if length payload < 4 + padded then Inl (errorf ''truncated STUN attribute padding'')
          else check_attr_loop (drop (4 + padded) payload))"
  by pat_completeness auto
termination
  by (relation "measure length") auto

declare check_attr_loop.simps [simp del]

definition parse_stun_mapped_address :: "byte list \<Rightarrow> byte list \<Rightarrow> goerror + addr_port" where
  "parse_stun_mapped_address data txid =
     (if length data < 20 then Inl (errorf ''short STUN response'')
      else if be16 (data ! 0) (data ! 1) \<noteq> binding_success then Inl (errorf ''not a STUN binding response'')
      else
        let msg_len = unat (be16 (data ! 2) (data ! 3)) in
        if length data < 20 + msg_len then Inl (errorf ''truncated STUN response'')
        else if take 16 (drop 4 data) \<noteq> txid then Inl (errorf ''STUN transaction id mismatch'')
        else check_attr_loop (take msg_len (drop 20 data)))"

lemmas check_message_defs [go_defs] =
  attr_change_request_def change_port_flag_def change_ip_flag_def change_flags_def build_stun_binding_request_def
  check_address_attribute_def check_attr_loop.simps parse_stun_mapped_address_def

section \<open>The two parsers agree\<close>

text \<open>What the checker makes of an address the engine's parser has found.\<close>

definition check_view :: "addr_port \<Rightarrow> goerror + addr_port" where
  "check_view ap = (if is4 (ap_addr ap) then Inr ap else Inl (errorf ''unsupported STUN address family 2''))"

lemma take_4: "4 \<le> length xs \<Longrightarrow> take 4 xs = [xs ! 0, xs ! 1, xs ! 2, xs ! 3]"
  by (rule nth_equalityI) (auto simp: less_Suc_eq numeral_eq_Suc)

lemma xor_bytes_4:
  "xor_bytes [a, b, c, d] (put32 w @ t) =
   [a XOR put32 w ! 0, b XOR put32 w ! 1, c XOR put32 w ! 2, d XOR put32 w ! 3]"
  by (simp add: xor_bytes_def put32_def numeral_2_eq_2 numeral_3_eq_3)

lemma itoa_2: "itoa 2 = ''2''"
  by code_simp

lemma address_attribute_agrees:
  assumes "parse_address_attribute typ value (put32 magic_cookie @ txid) = Inr ap" "length txid = 12"
  shows "check_address_attribute typ value = check_view ap"
proof -
  have l4: "4 \<le> length value" using assms by (auto simp: parse_address_attribute_def split: if_splits)
  consider (v4) "value ! 1 = 1" "8 \<le> length value" | (v6) "value ! 1 = 2" "20 \<le> length value"
    using assms(1) l4 by (auto simp: parse_address_attribute_def read16_ok split: if_splits)
  then show ?thesis
  proof cases
    case v4
    then have d: "4 \<le> length (drop 4 value)" by simp
    from v4 l4 assms(1) show ?thesis
      by (auto simp: parse_address_attribute_def check_address_attribute_def check_view_def read16_ok addr_from_bytes_def
          take_4 [OF d] xor_bytes_4 Let_def split: if_splits)
  next
    case v6
    have "\<not> is4 (addr_from_bytes xs)" if "length xs = 16" for xs using that by (simp add: addr_from_bytes_def)
    with v6 l4 assms show ?thesis
      by (auto simp: parse_address_attribute_def check_address_attribute_def check_view_def read16_ok
          Let_def itoa_2 split: if_splits)
  qed
qed

lemma attr_switch_found:
  "attr_switch msg m typ value off (Some a) = Inr f \<Longrightarrow> f = Some a"
  by (auto simp: attr_switch_def res_bind_eq_Inr split: if_splits)

lemma attr_loop_found: "attr_loop msg m payload off (Some a) = Inr f \<Longrightarrow> f = Some a"
proof (induction payload arbitrary: off rule: length_induct)
  case (1 payload)
  show ?case
  proof (cases "length payload < 4")
    case True
    with "1.prems" show ?thesis by (simp add: attr_loop_short)
  next
    case False
    let ?n = "unat (be16 (payload ! 2) (payload ! 3))"
    from False "1.prems" have "attr_loop msg m (drop (4 + padded_len ?n) payload) (off + 4 + padded_len ?n) (Some a) = Inr f"
      by (auto simp: attr_loop_step res_bind_eq_Inr split: if_splits dest!: attr_switch_found)
    moreover have "length (drop (4 + padded_len ?n) payload) < length payload" using False by simp
    ultimately show ?thesis using "1.IH" by blast
  qed
qed

lemma attr_loop_agrees:
  assumes "m = put32 magic_cookie @ txid" "length txid = 12"
  shows "attr_loop msg m payload off None = Inr (Some ap) \<Longrightarrow> check_attr_loop payload = check_view ap"
proof (induction payload arbitrary: off rule: length_induct)
  case (1 payload)
  show ?case
  proof (cases "length payload < 4")
    case True
    with "1.prems" show ?thesis by (simp add: attr_loop_short)
  next
    case False
    let ?kind = "be16 (payload ! 0) (payload ! 1)" and ?n = "unat (be16 (payload ! 2) (payload ! 3))"
    let ?body = "take ?n (drop 4 payload)" and ?rest = "drop (4 + padded_len ?n) payload"
    from False "1.prems" have n: "4 + ?n \<le> length payload" by (auto simp: attr_loop_step split: if_splits)
    show ?thesis
    proof (cases "?kind = attr_mapped_address \<or> ?kind = attr_xor_mapped_address")
      case True
      with False "1.prems" n obtain a where a: "parse_address_attribute ?kind ?body m = Inr a"
          "attr_loop msg m ?rest (off + 4 + padded_len ?n) (Some a) = Inr (Some ap)"
        by (auto simp: attr_loop_step attr_switch_def res_bind_eq_Inr split: if_splits)
      with attr_loop_found have "a = ap" by fastforce
      with a(1) address_attribute_agrees [of ?kind ?body txid ap] True False n assms show ?thesis
        by (subst check_attr_loop.simps) (simp add: Let_def)
    next
      case skip: False
      from skip False "1.prems" n have "4 + padded_len ?n \<le> length payload"
        and "attr_loop msg m ?rest (off + 4 + padded_len ?n) None = Inr (Some ap)"
        by (auto simp: attr_loop_step attr_switch_def res_bind_eq_Inr split: if_splits)
      moreover have "length ?rest < length payload" using False by simp
      ultimately have "check_attr_loop ?rest = check_view ap" using "1.IH" by blast
      with False skip n \<open>4 + padded_len ?n \<le> length payload\<close> show ?thesis
        by (subst check_attr_loop.simps) (simp add: Let_def)
    qed
  qed
qed

text \<open>
  C32: the two STUN parsers of the repository agree.  Whatever the bytes, a response that the mapping
  engine accepts for a transaction is read by the checker, whose transaction id is the cookie and the
  same twelve bytes, as the same address and port, unless it is an IPv6 address, which the checker
  refuses by its family.
\<close>

theorem stun_parsers_agree:
  assumes "parse_mapped_address msg txid = Inr ap" "length txid = 12"
  shows "parse_stun_mapped_address msg (put32 magic_cookie @ txid) =
    (if is4 (ap_addr ap) then Inr ap else Inl (errorf ''unsupported STUN address family 2''))"
proof -
  have l: "20 \<le> length msg" using assms(1) by (auto simp: parse_mapped_address_def split: if_splits)
  let ?n = "unat (be16 (msg ! 2) (msg ! 3))"
  from assms(1) have h: "be16 (msg ! 0) (msg ! 1) = binding_success" "20 + ?n \<le> length msg"
      "be32 (msg ! 4) (msg ! 5) (msg ! 6) (msg ! 7) = magic_cookie" "take 12 (drop 8 msg) = txid"
      "attr_loop msg (put32 magic_cookie @ txid) (take ?n (drop 20 msg)) 0 None = Inr (Some ap)"
    by (auto simp: parse_mapped_address_checks [OF l refl] res_bind_eq_Inr of_option_def split: if_splits option.splits)
  have "take 16 (drop 4 msg) = take 4 (drop 4 msg) @ take 12 (drop 8 msg)"
    using take_add [of 4 12 "drop 4 msg"] by simp
  also have "take 4 (drop 4 msg) = put32 magic_cookie"
    using l h(3) take_4 [of "drop 4 msg"] by (simp flip: h(3))
  finally show ?thesis
    using l h attr_loop_agrees [OF refl assms(2) h(5)]
    by (simp add: parse_stun_mapped_address_def check_view_def Let_def)
qed

theorem stun_parsers_agree_witness:
  "parse_stun_mapped_address
    (response_header (replicate 12 7)
       (length (address_response (replicate 12 7) [] (AddrPort (Addr4 203 0 113 9) 40000) [])) @
     address_response (replicate 12 7) [] (AddrPort (Addr4 203 0 113 9) 40000) [])
    (put32 magic_cookie @ replicate 12 7) = Inr (AddrPort (Addr4 203 0 113 9) 40000)"
proof -
  have "parse_mapped_address (response_header (replicate 12 7)
       (length (address_response (replicate 12 7) [] (AddrPort (Addr4 203 0 113 9) 40000) [])) @
     address_response (replicate 12 7) [] (AddrPort (Addr4 203 0 113 9) 40000) []) (replicate 12 7) =
    Inr (AddrPort (Addr4 203 0 113 9) 40000)"
    by (rule parse_address_response) (simp_all add: address_response_def encode_attr_def padded_len_def encode_xor_address_def)
  from stun_parsers_agree [OF this] show ?thesis by simp
qed

text \<open>
  A response that one read returns only in part is refused: the checker reads a TCP stream once, so a
  response that arrives in two segments is lost, where the engine's client reads on.
\<close>

lemma partial_response_refused:
  assumes "n < length msg" "length msg = 20 + unat (be16 (msg ! 2) (msg ! 3))"
  shows "\<exists>e. parse_stun_mapped_address (take n msg) txid = Inl e"
proof (cases "n < 20")
  case True
  moreover have "length (take n msg) = n" using assms(1) by simp
  ultimately show ?thesis by (simp add: parse_stun_mapped_address_def)
next
  case False
  with assms show ?thesis by (simp add: parse_stun_mapped_address_def Let_def)
qed

end
