(* ===== verification/Check_Nat.thy ===== *)
theory Check_Nat
  imports Port_Check
begin

text \<open>
  The decisions of \<open>internal/check/check.go\<close>: the NAT type from the UDP tests of RFC 3489, the TCP
  cone check, and how the type is reported.  The probes are arguments: a request and the world give
  an error or a result.
\<close>
section \<open>Results\<close>

datatype check_status = NotAvailable | StatusOK | Compat | Failed

record check_result =
  cr_status :: check_status
  cr_info :: string

datatype nat_type =
    NATUnknown | NATOpenInternet | NATFullCone | NATRestricted | NATPortRestricted | NATSymmetric
  | NATSymmetricUDPFirewall

fun nat_type_value :: "nat_type \<Rightarrow> int" where
  "nat_type_value NATUnknown = -1"
| "nat_type_value NATOpenInternet = 0"
| "nat_type_value NATFullCone = 1"
| "nat_type_value NATRestricted = 2"
| "nat_type_value NATPortRestricted = 3"
| "nat_type_value NATSymmetric = 4"
| "nat_type_value NATSymmetricUDPFirewall = 5"

text \<open>The two groups of constants of the TCP check.\<close>

datatype tcp_full_cone = FullConeBlocked | FullConeUnknown | FullConeReachable | FullConeOpenInternet

datatype tcp_cone = ConeSymmetric | ConeUnknown | ConeStable

record stun_test_result =
  tr_source :: addr_port
  tr_mapped :: addr_port
  tr_ip_changed :: bool
  tr_port_changed :: bool

record udp_probe_request =
  ur_server :: addr_port
  ur_source_port :: int
  ur_change_ip :: bool
  ur_change_port :: bool

record tcp_probe_request =
  tq_server :: addr_port
  tq_source_addr :: addr
  tq_source_port :: int
  tq_interface :: string
  tq_reuse :: bool

fun status_rep :: "check_status \<Rightarrow> string" where
  "status_rep NotAvailable = ''[   NA   ]''"
| "status_rep StatusOK = ''[   OK   ]''"
| "status_rep Compat = ''[ COMPAT ]''"
| "status_rep Failed = ''[  FAIL  ]''"

definition result_from_nat_type :: "nat_type \<Rightarrow> check_result" where
  "result_from_nat_type ty =
     \<lparr>cr_status = (if ty = NATOpenInternet \<or> ty = NATFullCone then StatusOK
                  else if ty = NATUnknown then NotAvailable else Failed),
      cr_info = ''NAT Type: '' @ itoa (nat_type_value ty)\<rparr>"

section \<open>Probes\<close>

type_synonym ('q, 'w) check_probe = "'q \<Rightarrow> 'w \<Rightarrow> (goerror + stun_test_result) \<times> 'w"

text \<open>A failed probe says nothing, unless the context has ended (\<open>ctx w\<close> is its error).\<close>

definition probe_maybe ::
  "('w \<Rightarrow> goerror option) \<Rightarrow> ('q, 'w) check_probe \<Rightarrow> 'q \<Rightarrow> 'w \<Rightarrow> (goerror + stun_test_result option) \<times> 'w" where
  "probe_maybe ctx probe q w =
     (case probe q w of
        (Inr r, w') \<Rightarrow> (Inr (Some r), w')
      | (Inl _, w') \<Rightarrow> (case ctx w' of Some e \<Rightarrow> (Inl e, w') | None \<Rightarrow> (Inr None, w')))"

text \<open>The source has the function twice, once for each type of request.\<close>

abbreviation tcp_probe_maybe ::
  "('w \<Rightarrow> goerror option) \<Rightarrow> (tcp_probe_request, 'w) check_probe \<Rightarrow> tcp_probe_request \<Rightarrow> 'w \<Rightarrow>
   (goerror + stun_test_result option) \<times> 'w" where
  "tcp_probe_maybe \<equiv> probe_maybe"

abbreviation udp_probe_maybe ::
  "('w \<Rightarrow> goerror option) \<Rightarrow> (udp_probe_request, 'w) check_probe \<Rightarrow> udp_probe_request \<Rightarrow> 'w \<Rightarrow>
   (goerror + stun_test_result option) \<times> 'w" where
  "udp_probe_maybe \<equiv> probe_maybe"

section \<open>CheckUDPNATType\<close>

text \<open>The four results that the loop collects.\<close>

record udp_tests =
  ut_first :: "stun_test_result option"
  ut_second :: "stun_test_result option"
  ut_changed :: "stun_test_result option"
  ut_changed_port :: "stun_test_result option"

definition no_tests :: udp_tests where
  "no_tests = \<lparr>ut_first = None, ut_second = None, ut_changed = None, ut_changed_port = None\<rparr>"

definition udp_request :: "addr_port \<Rightarrow> int \<Rightarrow> bool \<Rightarrow> bool \<Rightarrow> udp_probe_request" where
  "udp_request server port change_ip change_port =
     \<lparr>ur_server = server, ur_source_port = port, ur_change_ip = change_ip, ur_change_port = change_port\<rparr>"

fun udp_test_loop ::
  "('w \<Rightarrow> goerror option) \<Rightarrow> (udp_probe_request, 'w) check_probe \<Rightarrow> int \<Rightarrow> addr_port list \<Rightarrow> udp_tests \<Rightarrow> 'w \<Rightarrow>
   (goerror + udp_tests) \<times> 'w" where
  "udp_test_loop ctx probe port [] t w = (Inr t, w)"
| "udp_test_loop ctx probe port (server # servers) t w =
     (case udp_probe_maybe ctx probe (udp_request server port False False) w of
        (Inl e, w1) \<Rightarrow> (Inl e, w1)
      | (Inr None, w1) \<Rightarrow> udp_test_loop ctx probe port servers t w1
      | (Inr (Some normal), w1) \<Rightarrow>
          if ut_first t = None then udp_test_loop ctx probe port servers (t\<lparr>ut_first := Some normal\<rparr>) w1
          else
            let t1 = t\<lparr>ut_second := Some normal\<rparr> in
            (case udp_probe_maybe ctx probe (udp_request server port True True) w1 of
               (Inl e, w2) \<Rightarrow> (Inl e, w2)
             | (Inr changed, w2) \<Rightarrow>
                 if (\<exists>c \<in> set_option changed. \<not> tr_ip_changed c \<or> \<not> tr_port_changed c)
                 then udp_test_loop ctx probe port servers t1 w2
                 else
                   let t2 = (if changed = None then t1 else t1\<lparr>ut_changed := changed\<rparr>) in
                   (case udp_probe_maybe ctx probe (udp_request server port False True) w2 of
                      (Inl e, w3) \<Rightarrow> (Inl e, w3)
                    | (Inr None, w3) \<Rightarrow> (Inr t2, w3)
                    | (Inr (Some changed_port), w3) \<Rightarrow> (Inr (t2\<lparr>ut_changed_port := Some changed_port\<rparr>), w3))))"

definition udp_verdict :: "udp_tests \<Rightarrow> nat_type" where
  "udp_verdict t =
     (case (ut_first t, ut_second t) of
        (Some first, Some second) \<Rightarrow>
          if tr_mapped first \<noteq> tr_mapped second then NATSymmetric
          else if tr_source first = tr_mapped first then
            (if ut_changed t \<noteq> None then NATOpenInternet else NATSymmetricUDPFirewall)
          else if ut_changed t \<noteq> None then NATFullCone
          else if ut_changed_port t \<noteq> None then NATRestricted
          else NATPortRestricted
      | _ \<Rightarrow> NATUnknown)"

definition check_udp_nat_type ::
  "('w \<Rightarrow> goerror option) \<Rightarrow> (udp_probe_request, 'w) check_probe \<Rightarrow> int \<Rightarrow> addr_port list \<Rightarrow> 'w \<Rightarrow> (goerror + nat_type) \<times> 'w" where
  "check_udp_nat_type ctx probe port servers w =
     (case udp_test_loop ctx probe port servers no_tests w of
        (Inl e, w') \<Rightarrow> (Inl e, w')
      | (Inr t, w') \<Rightarrow> (Inr (udp_verdict t), w'))"

section \<open>CheckTCPCone and CheckTCPNATType\<close>

text \<open>\<open>first\<close> is the first mapped address, the invalid one before there is any; \<open>n\<close> counts the answers.\<close>

fun tcp_cone_loop ::
  "('w \<Rightarrow> goerror option) \<Rightarrow> (tcp_probe_request, 'w) check_probe \<Rightarrow> (addr_port \<Rightarrow> tcp_probe_request) \<Rightarrow>
   addr_port list \<Rightarrow> addr_port \<Rightarrow> nat \<Rightarrow> 'w \<Rightarrow> (goerror + tcp_cone) \<times> 'w" where
  "tcp_cone_loop ctx probe req [] first n w = (Inr (if 3 \<le> n then ConeStable else ConeUnknown), w)"
| "tcp_cone_loop ctx probe req (server # servers) first n w =
     (if 3 \<le> n then (Inr ConeStable, w)
      else (case tcp_probe_maybe ctx probe (req server) w of
              (Inl e, w1) \<Rightarrow> (Inl e, w1)
            | (Inr None, w1) \<Rightarrow> tcp_cone_loop ctx probe req servers first n w1
            | (Inr (Some r), w1) \<Rightarrow>
                if ap_valid first \<and> tr_mapped r \<noteq> first then (Inr ConeSymmetric, w1)
                else tcp_cone_loop ctx probe req servers (tr_mapped r) (Suc n) w1))"

definition tcp_cone_request :: "addr \<Rightarrow> int \<Rightarrow> string \<Rightarrow> bool \<Rightarrow> addr_port \<Rightarrow> tcp_probe_request" where
  "tcp_cone_request source port iface reuse server =
     \<lparr>tq_server = server, tq_source_addr = source, tq_source_port = port, tq_interface = iface, tq_reuse = reuse\<rparr>"

definition check_tcp_cone ::
  "('w \<Rightarrow> goerror option) \<Rightarrow> (tcp_probe_request, 'w) check_probe \<Rightarrow> addr_port list \<Rightarrow> addr \<Rightarrow> int \<Rightarrow> string \<Rightarrow> bool \<Rightarrow>
   'w \<Rightarrow> (goerror + tcp_cone) \<times> 'w" where
  "check_tcp_cone ctx probe servers source port iface reuse w =
     tcp_cone_loop ctx probe (tcp_cone_request source port iface reuse) servers zero_addr_port 0 w"

definition check_tcp_nat_type ::
  "(int \<Rightarrow> 'w \<Rightarrow> (goerror + tcp_full_cone) \<times> 'w) \<Rightarrow> ('w \<Rightarrow> (goerror + tcp_cone) \<times> 'w) \<Rightarrow> int \<Rightarrow> 'w \<Rightarrow>
   (goerror + nat_type) \<times> 'w" where
  "check_tcp_nat_type full_cone cone port w =
     (case full_cone port w of
        (Inl e, w1) \<Rightarrow> (Inl e, w1)
      | (Inr FullConeOpenInternet, w1) \<Rightarrow> (Inr NATOpenInternet, w1)
      | (Inr FullConeReachable, w1) \<Rightarrow> (Inr NATFullCone, w1)
      | (Inr FullConeUnknown, w1) \<Rightarrow> (Inr NATUnknown, w1)
      | (Inr FullConeBlocked, w1) \<Rightarrow>
          (case cone w1 of
             (Inl e, w2) \<Rightarrow> (Inl e, w2)
           | (Inr ConeStable, w2) \<Rightarrow> (Inr NATPortRestricted, w2)
           | (Inr ConeSymmetric, w2) \<Rightarrow> (Inr NATSymmetric, w2)
           | (Inr ConeUnknown, w2) \<Rightarrow> (Inr NATUnknown, w2)))"

lemmas check_nat_defs [go_defs] =
  result_from_nat_type_def probe_maybe_def no_tests_def udp_request_def udp_verdict_def check_udp_nat_type_def
  tcp_cone_request_def check_tcp_cone_def check_tcp_nat_type_def

section \<open>What the UDP check says of a NAT\<close>

text \<open>
  A NAT as RFC 3489 describes it, from the inside: the local address of the probe, what a server sees
  of it, and which of the three tests get an answer.  A test with a change is answered from the
  changed address; servers that are down answer none.
\<close>

record nat_behaviour =
  nb_local :: addr_port
  nb_mapping :: "addr_port \<Rightarrow> addr_port"
  nb_up :: "addr_port \<Rightarrow> bool"
  nb_passes :: "bool \<Rightarrow> bool \<Rightarrow> bool"

definition behaves :: "nat_behaviour \<Rightarrow> (udp_probe_request, 'w) check_probe \<Rightarrow> bool" where
  "behaves nb probe \<longleftrightarrow>
     (\<forall>q w. \<exists>e. fst (probe q w) =
        (if nb_up nb (ur_server q) \<and>
            (\<not> ur_change_ip q \<and> \<not> ur_change_port q \<or> nb_passes nb (ur_change_ip q) (ur_change_port q))
         then Inr \<lparr>tr_source = nb_local nb, tr_mapped = nb_mapping nb (ur_server q),
                   tr_ip_changed = ur_change_ip q, tr_port_changed = ur_change_port q\<rparr>
         else Inl e))"

text \<open>The types: what a host on the Internet, behind a firewall, or behind each kind of NAT observes.\<close>

definition is_open :: "nat_behaviour \<Rightarrow> bool" where
  "is_open nb \<longleftrightarrow> (\<forall>s. nb_mapping nb s = nb_local nb)"

definition is_cone :: "nat_behaviour \<Rightarrow> bool" where
  "is_cone nb \<longleftrightarrow> (\<exists>m. m \<noteq> nb_local nb \<and> (\<forall>s. nb_mapping nb s = m))"

fun has_type :: "nat_behaviour \<Rightarrow> nat_type \<Rightarrow> bool" where
  "has_type nb NATOpenInternet \<longleftrightarrow> is_open nb \<and> nb_passes nb True True"
| "has_type nb NATSymmetricUDPFirewall \<longleftrightarrow> is_open nb \<and> \<not> nb_passes nb True True"
| "has_type nb NATFullCone \<longleftrightarrow> is_cone nb \<and> nb_passes nb True True"
| "has_type nb NATRestricted \<longleftrightarrow> is_cone nb \<and> \<not> nb_passes nb True True \<and> nb_passes nb False True"
| "has_type nb NATPortRestricted \<longleftrightarrow> is_cone nb \<and> \<not> nb_passes nb True True \<and> \<not> nb_passes nb False True"
| "has_type nb NATSymmetric \<longleftrightarrow> inj (nb_mapping nb)"
| "has_type nb NATUnknown \<longleftrightarrow> False"

lemma behaves_maybe:
  assumes "behaves nb probe" "ctx = (\<lambda>_. None)"
  shows "fst (probe_maybe ctx probe (udp_request s port ci cp) w) =
    Inr (if nb_up nb s \<and> (\<not> ci \<and> \<not> cp \<or> nb_passes nb ci cp)
         then Some \<lparr>tr_source = nb_local nb, tr_mapped = nb_mapping nb s, tr_ip_changed = ci, tr_port_changed = cp\<rparr>
         else None)"
proof -
  obtain r w' where p: "probe (udp_request s port ci cp) w = (r, w')" by fastforce
  from assms(1) [unfolded behaves_def, rule_format, of "udp_request s port ci cp" w]
  obtain e where "fst (probe (udp_request s port ci cp) w) =
      (if nb_up nb s \<and> (\<not> ci \<and> \<not> cp \<or> nb_passes nb ci cp)
       then Inr \<lparr>tr_source = nb_local nb, tr_mapped = nb_mapping nb s, tr_ip_changed = ci, tr_port_changed = cp\<rparr>
       else Inl e)"
    unfolding udp_request_def udp_probe_request.simps by (rule exE)
  with p assms(2) show ?thesis by (auto simp: probe_maybe_def)
qed

definition answer_of :: "nat_behaviour \<Rightarrow> bool \<Rightarrow> bool \<Rightarrow> addr_port \<Rightarrow> stun_test_result" where
  "answer_of nb ci cp s = \<lparr>tr_source = nb_local nb, tr_mapped = nb_mapping nb s, tr_ip_changed = ci, tr_port_changed = cp\<rparr>"

lemma behaves_step:
  assumes "behaves nb probe" "ctx = (\<lambda>_. None)"
  obtains w' where "probe_maybe ctx probe (udp_request s port ci cp) w =
    (Inr (if nb_up nb s \<and> (\<not> ci \<and> \<not> cp \<or> nb_passes nb ci cp) then Some (answer_of nb ci cp s) else None), w')"
  using behaves_maybe [OF assms, where s = s and port = port and ci = ci and cp = cp and w = w] that
  by (cases "probe_maybe ctx probe (udp_request s port ci cp) w") (auto simp: answer_of_def)

lemma udp_loop_second:
  assumes "behaves nb probe" "ctx = (\<lambda>_. None)"
  shows "ut_first t = Some f \<Longrightarrow> ut_changed t = None \<Longrightarrow> ut_changed_port t = None \<Longrightarrow> filter (nb_up nb) servers = s # rest \<Longrightarrow>
    \<exists>w'. udp_test_loop ctx probe port servers t w =
      (Inr (t\<lparr>ut_second := Some (answer_of nb False False s),
             ut_changed := (if nb_passes nb True True then Some (answer_of nb True True s) else None),
             ut_changed_port := (if nb_passes nb False True then Some (answer_of nb False True s) else None)\<rparr>), w')"
proof (induction servers arbitrary: w)
  case (Cons s' servers)
  obtain w1 where 1: "probe_maybe ctx probe (udp_request s' port False False) w =
      (Inr (if nb_up nb s' then Some (answer_of nb False False s') else None), w1)"
    using behaves_step [OF assms, where s = s' and port = port and ci = False and cp = False and w = w] by auto
  show ?case
  proof (cases "nb_up nb s'")
    case False
    with Cons 1 show ?thesis by simp
  next
    case True
    with Cons.prems have s: "s' = s" by simp
    obtain w2 where 2: "probe_maybe ctx probe (udp_request s port True True) w1 =
        (Inr (if nb_passes nb True True then Some (answer_of nb True True s) else None), w2)"
      using behaves_step [OF assms, where s = s and port = port and ci = True and cp = True and w = w1] True s by auto
    obtain w3 where 3: "probe_maybe ctx probe (udp_request s port False True) w2 =
        (Inr (if nb_passes nb False True then Some (answer_of nb False True s) else None), w3)"
      using behaves_step [OF assms, where s = s and port = port and ci = False and cp = True and w = w2] True s by auto
    from Cons.prems(1-3) True 1 2 3 s show ?thesis
      by (auto simp: Let_def answer_of_def)
  qed
qed simp

lemma udp_loop_first:
  assumes "behaves nb probe" "ctx = (\<lambda>_. None)"
  shows "filter (nb_up nb) servers = s1 # s2 # rest \<Longrightarrow>
    \<exists>w'. udp_test_loop ctx probe port servers no_tests w =
      (Inr \<lparr>ut_first = Some (answer_of nb False False s1), ut_second = Some (answer_of nb False False s2),
             ut_changed = (if nb_passes nb True True then Some (answer_of nb True True s2) else None),
             ut_changed_port = (if nb_passes nb False True then Some (answer_of nb False True s2) else None)\<rparr>, w')"
proof (induction servers arbitrary: w)
  case (Cons s servers)
  obtain w1 where 1: "probe_maybe ctx probe (udp_request s port False False) w =
      (Inr (if nb_up nb s then Some (answer_of nb False False s) else None), w1)"
    using behaves_step [OF assms, where s = s and port = port and ci = False and cp = False and w = w] by auto
  show ?case
  proof (cases "nb_up nb s")
    case False
    with Cons 1 show ?thesis by simp
  next
    case True
    with Cons.prems have "s = s1" "filter (nb_up nb) servers = s2 # rest" by simp_all
    with udp_loop_second [OF assms, where t = "no_tests\<lparr>ut_first := Some (answer_of nb False False s1)\<rparr>"
        and f = "answer_of nb False False s1" and servers = servers and s = s2 and rest = rest and port = port and w = w1] 1 True
    show ?thesis by (auto simp: no_tests_def)
  qed
qed simp


text \<open>
  The result depends on both probes of the first test going out from the same port.  A full-cone NAT
  that keeps the port of the sender: with a fixed port it is recognised, with port 0, which is the
  default bind port and gives every probe a socket with a port of its own, it is reported as
  symmetric.
\<close>

definition full_cone_probe :: "(udp_probe_request, nat) check_probe" where
  "full_cone_probe q w =
     (let port = (if ur_source_port q = 0 then of_nat (32768 + w) else of_int (ur_source_port q)) in
      (Inr \<lparr>tr_source = AddrPort (Addr4 192 168 1 2) port, tr_mapped = AddrPort (Addr4 203 0 113 9) port,
            tr_ip_changed = ur_change_ip q, tr_port_changed = ur_change_port q\<rparr>, Suc w))"

lemma default_port_hides_full_cone:
  "fst (check_udp_nat_type (\<lambda>_. None) full_cone_probe 4000 [s1, s2] 0) = Inr NATFullCone"
  "fst (check_udp_nat_type (\<lambda>_. None) full_cone_probe 0 [s1, s2] 0) = Inr NATSymmetric"
  by (simp_all add: check_udp_nat_type_def probe_maybe_def full_cone_probe_def udp_request_def no_tests_def
      udp_verdict_def Let_def)

definition sample_nat :: nat_behaviour where
  "sample_nat = \<lparr>nb_local = AddrPort (Addr4 192 168 1 2) 4000, nb_mapping = \<lambda>_. AddrPort (Addr4 203 0 113 9) 4000,
     nb_up = \<lambda>s. ap_port s \<noteq> 1, nb_passes = \<lambda>ci cp. \<not> ci\<rparr>"

definition sample_probe :: "(udp_probe_request, unit) check_probe" where
  "sample_probe q w =
     (if nb_up sample_nat (ur_server q) \<and> \<not> ur_change_ip q
      then Inr (answer_of sample_nat (ur_change_ip q) (ur_change_port q) (ur_server q)) else Inl (errorf ''i/o timeout''), w)"


section \<open>What the cone check says\<close>

definition answers :: "('q, 'w) check_probe \<Rightarrow> ('q \<Rightarrow> stun_test_result option) \<Rightarrow> bool" where
  "answers probe ans \<longleftrightarrow> (\<forall>q w. case ans q of Some r \<Rightarrow> fst (probe q w) = Inr r | None \<Rightarrow> (\<exists>e. fst (probe q w) = Inl e))"

lemma answers_maybe:
  assumes "answers probe ans" "ctx = (\<lambda>_. None)"
  obtains w' where "probe_maybe ctx probe q w = (Inr (ans q), w')"
proof -
  obtain r w' where p: "probe q w = (r, w')" by fastforce
  from assms(1) [unfolded answers_def, rule_format, of q w] p assms(2) that show ?thesis
    by (cases "ans q") (auto simp: probe_maybe_def)
qed

abbreviation mapped_by :: "(addr_port \<Rightarrow> stun_test_result option) \<Rightarrow> addr_port list \<Rightarrow> addr_port list" where
  "mapped_by ans servers \<equiv> List.map_filter (\<lambda>s. map_option tr_mapped (ans s)) servers"

lemma tcp_cone_loop_reference:
  assumes "answers probe ans" "ctx = (\<lambda>_. None)"
  shows "ap_valid first \<Longrightarrow> \<forall>s r. ans (req s) = Some r \<longrightarrow> ap_valid (tr_mapped r) \<Longrightarrow> n \<le> 3 \<Longrightarrow>
    fst (tcp_cone_loop ctx probe req servers first n w) =
    (let seen = mapped_by (ans \<circ> req) servers in
     Inr (if \<exists>x \<in> set (take (3 - n) seen). x \<noteq> first then ConeSymmetric
          else if 3 \<le> n + length seen then ConeStable else ConeUnknown))"
proof (induction servers arbitrary: n first w)
  case Nil
  then show ?case by (simp add: map_filter_simps)
next
  case (Cons s servers)
  obtain w1 where p: "probe_maybe ctx probe (req s) w = (Inr (ans (req s)), w1)" using answers_maybe [OF assms] .
  show ?case
  proof (cases "3 \<le> n")
    case True
    with Cons.prems show ?thesis by (simp add: Let_def)
  next
    case False
    then obtain k where k: "3 - n = Suc k" "3 - Suc n = k" "Suc n \<le> 3" by (cases "3 - n") auto
    show ?thesis
    proof (cases "ans (req s)")
      case None
      with p False Cons.IH [OF Cons.prems] show ?thesis by (simp add: map_filter_simps)
    next
      case (Some r)
      show ?thesis
      proof (cases "tr_mapped r = first")
        case True
        with p False Some Cons.IH [OF Cons.prems(1,2) k(3), of w1] k show ?thesis
          by (simp add: map_filter_simps Let_def)
      next
        case neq: False
        with p False Some Cons.prems(1) k show ?thesis by (simp add: map_filter_simps Let_def)
      qed
    qed
  qed
qed

text \<open>
  C34: the TCP cone check is decided by the first three servers that answer: symmetric when they do not
  all see the same address, stable when three of them do, unknown when fewer than three answer and
  agree.  The servers that fail and those behind the third answer have no influence.
\<close>

theorem tcp_cone_reference:
  assumes "answers probe ans" "ctx = (\<lambda>_. None)"
    and "\<forall>q r. ans q = Some r \<longrightarrow> ap_valid (tr_mapped r)"
  shows "fst (check_tcp_cone ctx probe servers source port iface reuse w) =
    (let seen = mapped_by (ans \<circ> tcp_cone_request source port iface reuse) servers in
     Inr (if \<exists>x \<in> set (take 3 seen). x \<noteq> hd seen then ConeSymmetric
          else if 3 \<le> length seen then ConeStable else ConeUnknown))"
proof -
  let ?req = "tcp_cone_request source port iface reuse"
  have "fst (tcp_cone_loop ctx probe ?req servers zero_addr_port 0 w) =
    (let seen = mapped_by (ans \<circ> ?req) servers in
     Inr (if \<exists>x \<in> set (take 3 seen). x \<noteq> hd seen then ConeSymmetric
          else if 3 \<le> length seen then ConeStable else ConeUnknown))"
  proof (induction servers arbitrary: w)
    case Nil
    then show ?case by (simp add: map_filter_simps)
  next
    case (Cons s servers)
    obtain w1 where p: "probe_maybe ctx probe (?req s) w = (Inr (ans (?req s)), w1)" using answers_maybe [OF assms(1,2)] .
    show ?case
    proof (cases "ans (?req s)")
      case None
      with p Cons.IH show ?thesis by (simp add: map_filter_simps)
    next
      case (Some r)
      with assms(3) have v: "ap_valid (tr_mapped r)" by blast
      have "\<not> ap_valid zero_addr_port" by (simp add: zero_addr_port_def ap_valid_def)
      with p Some tcp_cone_loop_reference [OF assms(1,2) v, of ?req 1 servers w1] assms(3) show ?thesis
        by (simp add: map_filter_simps Let_def numeral_3_eq_3)
    qed
  qed
  then show ?thesis by (simp add: check_tcp_cone_def)
qed

definition sample_tcp_probe :: "(tcp_probe_request, unit) check_probe" where
  "sample_tcp_probe q w =
     (if ap_port (tq_server q) = 1 then Inl (errorf ''connection refused'')
      else Inr \<lparr>tr_source = zero_addr_port, tr_mapped = AddrPort (Addr4 203 0 113 9) (ap_port (tq_server q) div 4),
                tr_ip_changed = False, tr_port_changed = False\<rparr>, w)"

definition sample_servers :: "addr_port list" where
  "sample_servers = map (AddrPort (Addr4 198 51 100 1)) [8, 1, 9, 10, 40]"

theorem tcp_cone_reference_witness:
  "fst (check_tcp_cone (\<lambda>_. None) sample_tcp_probe sample_servers ipv4_unspecified 0 [] True ()) = Inr ConeStable"
proof -
  let ?ans = "\<lambda>q. case fst (sample_tcp_probe q ()) of Inl _ \<Rightarrow> None | Inr r \<Rightarrow> Some r"
  have "answers sample_tcp_probe ?ans" by (simp add: answers_def sample_tcp_probe_def)
  moreover have "\<forall>q r. ?ans q = Some r \<longrightarrow> ap_valid (tr_mapped r)"
    by (auto simp: sample_tcp_probe_def ap_valid_def split: if_splits)
  ultimately show ?thesis
    by (subst tcp_cone_reference [where ans = ?ans])
      (simp_all add: sample_tcp_probe_def sample_servers_def tcp_cone_request_def map_filter_simps)
qed

end
