(* ===== verification/Check_Net.thy ===== *)
theory Check_Net
  imports App_World Check_Message Check_Nat
begin

text \<open>
  The network side of \<open>qnatter --check\<close> in \<open>internal/check/check.go\<close>: the options of the tests, the
  STUN tests over sockets, the full-cone test, and that each of them leaves nothing open.  A function
  field of an option record that Go leaves \<open>nil\<close> is \<open>None\<close>.
\<close>
section \<open>The environment\<close>

text \<open>An address of a socket: the bytes of the IP address and the port, or a type the code does not know.\<close>

datatype sock_addr = InetAddr "byte list" int | OtherSockAddr string

text \<open>
  \<open>ke_tcp_read\<close> is the first read of a connection and \<open>ke_packets\<close> the datagrams that a socket receives
  after a request, with their senders, and the error of the read after them, each within the time
  limit of the test; \<open>ke_write_to\<close> answers the \<open>k\<close>-th sending of a request.  The last five fields are
  the system, the files and the names that the Docker check looks at.
\<close>

record check_env =
  ke_app :: app_env
  ke_context :: "world \<Rightarrow> goerror option"
  ke_resolve :: "world \<Rightarrow> string \<Rightarrow> goerror + addr list"
  ke_random :: "world \<Rightarrow> nat \<Rightarrow> goerror + byte list"
  ke_tcp_read :: "net_history \<Rightarrow> nat \<Rightarrow> int \<Rightarrow> goerror + byte list"
  ke_tcp_local :: "net_history \<Rightarrow> nat \<Rightarrow> sock_addr"
  ke_listen_local :: "listen_history \<Rightarrow> nat \<Rightarrow> sock_addr"
  ke_write_to :: "listen_history \<Rightarrow> nat \<Rightarrow> addr_port option \<Rightarrow> byte list \<Rightarrow> nat \<Rightarrow> goerror option"
  ke_packets :: "listen_history \<Rightarrow> nat \<Rightarrow> int \<Rightarrow> addr_port \<Rightarrow> byte list \<Rightarrow> (byte list \<times> sock_addr) list \<times> goerror"
  ke_goos :: string
  ke_stat :: "string \<Rightarrow> bool option"
  ke_read_file :: "string \<Rightarrow> goerror + string"
  ke_hostname :: "goerror + string"
  ke_lookup_ip :: "string \<Rightarrow> goerror + addr list"

definition check_net :: "check_env \<Rightarrow> net_env" where
  "check_net env = sn_net (ae_stun (ke_app env))"

definition check_options :: "string \<Rightarrow> bool \<Rightarrow> sock_options" where
  "check_options iface reuse = \<lparr>so_interface = iface, so_reuse = reuse, so_disable_reuse_port = False\<rparr>"

section \<open>Addresses\<close>

definition tcp_source_addr_port :: "addr \<Rightarrow> int \<Rightarrow> addr_port" where
  "tcp_source_addr_port a port = AddrPort (if addr_valid a then a else ipv4_unspecified) (of_int port)"

definition udp_source_addr_port :: "addr \<Rightarrow> int \<Rightarrow> addr_port" where
  "udp_source_addr_port a port = AddrPort (if addr_valid a then a else ipv4_unspecified) (of_int port)"

definition tcp_addr_port :: "addr_port \<Rightarrow> net_addr" where
  "tcp_addr_port a = (if ap_valid a then TCPAddr (ap_addr a) (ap_port a) else NoAddr)"

definition udp_addr_from_addr_port :: "addr_port \<Rightarrow> addr_port option" where
  "udp_addr_from_addr_port a = (if ap_valid a then Some a else None)"

definition listen_address :: "addr_port \<Rightarrow> string" where
  "listen_address source =
     (if ap_valid source then join_host_port (addr_text (ap_addr source)) (itoa (uint (ap_port source))) else [])"

definition addr_from_slice :: "byte list \<Rightarrow> addr option" where
  "addr_from_slice bs = (if length bs = 4 \<or> length bs = 16 then Some (addr_from_bytes bs) else None)"

text \<open>The text of a \<open>net.IP\<close> whose length is none of an address.\<close>

definition bad_ip_text :: "byte list \<Rightarrow> string" where
  "bad_ip_text bs = (if bs = [] then ''<nil>'' else CHR ''?'' # concat (map (\<lambda>b. pad_zero 2 (format_uint 16 (unat b))) bs))"

fun addr_port_from_net_addr :: "sock_addr \<Rightarrow> goerror + addr_port" where
  "addr_port_from_net_addr (OtherSockAddr t) = Inl (errorf (''unsupported network address '' @ t))"
| "addr_port_from_net_addr (InetAddr ip port) =
     (case addr_from_slice ip of
        None \<Rightarrow> Inl (errorf (''invalid IP address '' @ bad_ip_text ip))
      | Some a \<Rightarrow> Inr (AddrPort (unmap a) (of_int port)))"

section \<open>TCPSTUNTest\<close>

type_synonym txid_supply = "world \<Rightarrow> goerror + byte list"

record tcp_stun_options =
  tso_server :: addr_port
  tso_source :: addr_port
  tso_interface :: string
  tso_reuse :: bool
  tso_timeout :: int
  tso_txid :: "txid_supply option"

definition stun_test_timeout :: "int \<Rightarrow> int" where
  "stun_test_timeout timeout = (if timeout = 0 then 3 * 1000000000 else timeout)"

definition tcp_stun_txid :: "check_env \<Rightarrow> tcp_stun_options \<Rightarrow> txid_supply" where
  "tcp_stun_txid env opts w =
     (case tso_txid opts of
        Some txid \<Rightarrow> txid w
      | None \<Rightarrow> res_bind (ke_random env w 12) (\<lambda>r. Inr (put32 magic_cookie @ r)))"

definition tcp_stun_answer ::
  "check_env \<Rightarrow> int \<Rightarrow> byte list \<Rightarrow> nat \<Rightarrow> net_history \<Rightarrow> goerror + stun_test_result" where
  "tcp_stun_answer env timeout txid i h =
     res_bind (ke_tcp_read env h i timeout) (\<lambda>data.
     res_bind (addr_port_from_net_addr (ke_tcp_local env h i)) (\<lambda>source.
     res_bind (parse_stun_mapped_address (take 1500 data) txid) (\<lambda>mapped.
     Inr \<lparr>tr_source = source, tr_mapped = mapped, tr_ip_changed = False, tr_port_changed = False\<rparr>)))"

definition tcp_stun_dial :: "check_env \<Rightarrow> tcp_stun_options \<Rightarrow> net_history \<Rightarrow> (goerror + nat) \<times> net_history" where
  "tcp_stun_dial env opts h =
     dial_from (check_net env) ''tcp'' (tso_source opts) (check_options (tso_interface opts) (tso_reuse opts))
       (addr_text (ap_addr (tso_server opts))) (uint (ap_port (tso_server opts))) h"

definition tcp_stun_test :: "check_env \<Rightarrow> tcp_stun_options \<Rightarrow> world \<Rightarrow> (goerror + stun_test_result) \<times> world" where
  "tcp_stun_test env opts w =
     (case tcp_stun_txid env opts w of
        Inl e \<Rightarrow> (Inl e, w)
      | Inr txid \<Rightarrow>
          (case tcp_stun_dial env opts (w_net w) of
             (Inl e, h1) \<Rightarrow> (Inl e, w\<lparr>w_net := h1\<rparr>)
           | (Inr i, h1) \<Rightarrow>
               let request = text_of (build_stun_binding_request txid False False);
                   h2 = h1 @ [DeadlineCall i (ne_set_deadline (check_net env) h1 i)];
                   written = ne_write (check_net env) h2 i request;
                   h3 = h2 @ [WriteCall i request written];
                   answer = (case written of
                               Some e \<Rightarrow> Inl e
                             | None \<Rightarrow> tcp_stun_answer env (stun_test_timeout (tso_timeout opts)) txid i h3)
               in (answer, w\<lparr>w_net := snd (close_conn (check_net env) i h3)\<rparr>)))"

section \<open>UDPSTUNTest\<close>

record udp_stun_options =
  uso_server :: addr_port
  uso_source :: addr_port
  uso_interface :: string
  uso_reuse :: bool
  uso_timeout :: int
  uso_repeat :: int
  uso_change_ip :: bool
  uso_change_port :: bool
  uso_txid :: "txid_supply option"

definition udp_stun_txid :: "check_env \<Rightarrow> udp_stun_options \<Rightarrow> txid_supply" where
  "udp_stun_txid env opts w = (case uso_txid opts of Some txid \<Rightarrow> txid w | None \<Rightarrow> ke_random env w 16)"

text \<open>Datagrams that do not parse are skipped; the first that does ends the loop.\<close>

fun udp_receive :: "byte list \<Rightarrow> (byte list \<times> sock_addr) list \<Rightarrow> (addr_port \<times> sock_addr) option" where
  "udp_receive txid [] = None"
| "udp_receive txid ((data, sender) # packets) =
     (case parse_stun_mapped_address (take 1500 data) txid of
        Inl _ \<Rightarrow> udp_receive txid packets
      | Inr mapped \<Rightarrow> Some (mapped, sender))"

definition udp_repeat :: "udp_stun_options \<Rightarrow> nat" where
  "udp_repeat opts = nat (if uso_repeat opts \<le> 0 then 3 else uso_repeat opts)"

text \<open>The request goes out \<open>udp_repeat\<close> times; the first sending that fails ends the test.\<close>

definition udp_send_all :: "check_env \<Rightarrow> udp_stun_options \<Rightarrow> byte list \<Rightarrow> nat \<Rightarrow> listen_history \<Rightarrow> goerror option" where
  "udp_send_all env opts request i h =
     (let server = udp_addr_from_addr_port (uso_server opts) in
      case find (\<lambda>e. e \<noteq> None) (map (ke_write_to env h i server request) [0..<udp_repeat opts]) of
        Some e \<Rightarrow> e
      | None \<Rightarrow> None)"

definition udp_stun_answer ::
  "check_env \<Rightarrow> udp_stun_options \<Rightarrow> byte list \<Rightarrow> nat \<Rightarrow> listen_history \<Rightarrow> goerror + stun_test_result" where
  "udp_stun_answer env opts txid i h =
     (let server = uso_server opts; request = build_stun_binding_request txid (uso_change_ip opts) (uso_change_port opts) in
      case udp_send_all env opts request i h of
        Some e \<Rightarrow> Inl e
      | None \<Rightarrow>
          (case ke_packets env h i (stun_test_timeout (uso_timeout opts)) server request of
             (packets, e) \<Rightarrow>
               (case udp_receive txid packets of
                  None \<Rightarrow> Inl e
                | Some (mapped, sender) \<Rightarrow>
                    res_bind (addr_port_from_net_addr (ke_listen_local env h i)) (\<lambda>source.
                    res_bind (addr_port_from_net_addr sender) (\<lambda>received.
                    Inr \<lparr>tr_source = source, tr_mapped = mapped,
                         tr_ip_changed = (ap_addr received \<noteq> ap_addr server),
                         tr_port_changed = (ap_port received \<noteq> ap_port server)\<rparr>)))))"

definition check_listen ::
  "check_env \<Rightarrow> string \<Rightarrow> addr_port \<Rightarrow> sock_options \<Rightarrow> listen_history \<Rightarrow> (goerror + nat) \<times> listen_history" where
  "check_listen env proto source opts h =
     (let network = network_for_source proto source; address = listen_address source;
          answer = lv_listen (ae_listen (ke_app env)) h network address opts
      in ((case answer of None \<Rightarrow> Inr (length h) | Some e \<Rightarrow> Inl e), h @ [ListenCall network address opts answer]))"

definition check_close :: "check_env \<Rightarrow> nat \<Rightarrow> listen_history \<Rightarrow> listen_history" where
  "check_close env i h = snd (close_socket (ae_listen (ke_app env)) (Some i) h)"

definition udp_stun_test :: "check_env \<Rightarrow> udp_stun_options \<Rightarrow> world \<Rightarrow> (goerror + stun_test_result) \<times> world" where
  "udp_stun_test env opts w =
     (case udp_stun_txid env opts w of
        Inl e \<Rightarrow> (Inl e, w)
      | Inr txid \<Rightarrow>
          (case check_listen env ''udp'' (uso_source opts) (check_options (uso_interface opts) (uso_reuse opts)) (w_listen w) of
             (Inl e, h1) \<Rightarrow> (Inl e, w\<lparr>w_listen := h1\<rparr>)
           | (Inr i, h1) \<Rightarrow> (udp_stun_answer env opts txid i h1, w\<lparr>w_listen := check_close env i h1\<rparr>)))"

section \<open>CheckTCPFullCone\<close>

text \<open>
  What the three hooks of the test ask for and give: an \<open>io.Closer\<close> is what closing it does to the
  world and, for a listener, its address.
\<close>

record closer =
  cl_close :: "world \<Rightarrow> world"
  cl_addr :: "(world \<Rightarrow> sock_addr) option"

record full_cone_listen_request =
  flr_source :: addr_port
  flr_interface :: string
  flr_reuse :: bool

record full_cone_mapping_request =
  fmr_source :: addr_port
  fmr_interface :: string
  fmr_reuse :: bool
  fmr_keep_alive_server :: addr_port
  fmr_stun_servers :: "addr_port list"
  fmr_txid :: "txid_supply option"

record full_cone_port_request =
  fpr_port :: int
  fpr_source_addr :: addr
  fpr_interface :: string

type_synonym full_cone_listen = "full_cone_listen_request \<Rightarrow> world \<Rightarrow> (goerror + closer) \<times> world"
type_synonym full_cone_get_mapping =
  "full_cone_mapping_request \<Rightarrow> world \<Rightarrow> (goerror + stun_test_result \<times> closer option) \<times> world"
type_synonym full_cone_port_check = "full_cone_port_request \<Rightarrow> world \<Rightarrow> (goerror + port_result) \<times> world"

record tcp_full_cone_options =
  fco_source_addr :: addr
  fco_source_port :: int
  fco_interface :: string
  fco_reuse :: bool
  fco_keep_alive_server :: addr_port
  fco_stun_servers :: "addr_port list"
  fco_txid :: "txid_supply option"
  fco_port_checker :: "sys_history port_checker"
  fco_listen :: "full_cone_listen option"
  fco_get_mapping :: "full_cone_get_mapping option"
  fco_check_port :: "full_cone_port_check option"

definition default_full_cone_listen :: "check_env \<Rightarrow> full_cone_listen" where
  "default_full_cone_listen env q w =
     (case check_listen env ''tcp'' (flr_source q) (check_options (flr_interface q) (flr_reuse q)) (w_listen w) of
        (Inl e, h) \<Rightarrow> (Inl e, w\<lparr>w_listen := h\<rparr>)
      | (Inr l, h) \<Rightarrow>
          (Inr \<lparr>cl_close = \<lambda>v. v\<lparr>w_listen := check_close env l (w_listen v)\<rparr>,
                cl_addr = Some (\<lambda>v. ke_listen_local env (w_listen v) l)\<rparr>,
           w\<lparr>w_listen := h\<rparr>))"

definition keep_alive_get :: "addr_port \<Rightarrow> string" where
  "keep_alive_get server =
     ''GET /~ HTTP/1.1'' @ [CHR 0x0D, CHR 0x0A] @ ''Host: '' @ addr_port_text server @ [CHR 0x0D, CHR 0x0A] @
     ''Connection: keep-alive'' @ [CHR 0x0D, CHR 0x0A] @ [CHR 0x0D, CHR 0x0A]"

definition conn_closer :: "check_env \<Rightarrow> nat \<Rightarrow> closer" where
  "conn_closer env i =
     \<lparr>cl_close = \<lambda>v. v\<lparr>w_net := snd (close_conn (check_net env) i (w_net v))\<rparr>, cl_addr = None\<rparr>"

text \<open>
  \<open>defaultTCPFullConeMapping\<close>: the connection to the keep-alive server stays open with the mapping, and
  is closed when there is none.
\<close>

definition mapping_stun_options :: "full_cone_mapping_request \<Rightarrow> tcp_stun_options" where
  "mapping_stun_options q =
     \<lparr>tso_server = hd (fmr_stun_servers q), tso_source = fmr_source q, tso_interface = fmr_interface q,
      tso_reuse = fmr_reuse q, tso_timeout = 3 * 1000000000, tso_txid = fmr_txid q\<rparr>"

definition default_full_cone_mapping :: "check_env \<Rightarrow> full_cone_get_mapping" where
  "default_full_cone_mapping env q w =
     (if \<not> ap_valid (fmr_keep_alive_server q) \<or> fmr_stun_servers q = []
      then (Inl (errorf ''missing TCP full-cone mapping endpoints''), w)
      else
        (case dial_with (check_net env) (network_for_source ''tcp'' (fmr_source q)) (tcp_addr_port (fmr_source q))
                (check_options (fmr_interface q) (fmr_reuse q)) (addr_port_text (fmr_keep_alive_server q)) (w_net w) of
           (Inl e, h1) \<Rightarrow> (Inl e, w\<lparr>w_net := h1\<rparr>)
         | (Inr i, h1) \<Rightarrow>
             let request = keep_alive_get (fmr_keep_alive_server q);
                 h2 = h1 @ [DeadlineCall i (ne_set_deadline (check_net env) h1 i)];
                 written = ne_write (check_net env) h2 i request;
                 w3 = w\<lparr>w_net := h2 @ [WriteCall i request written]\<rparr>
             in (case written of
                   Some e \<Rightarrow> (Inl e, cl_close (conn_closer env i) w3)
                 | None \<Rightarrow>
                     (case tcp_stun_test env (mapping_stun_options q) w3 of
                        (Inl e, w4) \<Rightarrow> (Inl e, cl_close (conn_closer env i) w4)
                      | (Inr mapping, w4) \<Rightarrow> (Inr (mapping, Some (conn_closer env i)), w4)))))"

fun full_cone_of_port :: "port_result \<Rightarrow> tcp_full_cone" where
  "full_cone_of_port PortOpen = FullConeReachable"
| "full_cone_of_port PortClosed = FullConeBlocked"
| "full_cone_of_port PortUnknown = FullConeUnknown"

text \<open>The checker of the options looks through the interface of the options when it has none of its own.\<close>

definition default_full_cone_port_check :: "check_env \<Rightarrow> tcp_full_cone_options \<Rightarrow> full_cone_port_check" where
  "default_full_cone_port_check env opts q w =
     (let checker = fco_port_checker opts;
          checker' = (if pc_interface checker = [] then checker\<lparr>pc_interface := fco_interface opts\<rparr> else checker)
      in map_prod Inr id (checker_wan (ke_app env) checker' (fpr_port q) (fpr_source_addr q) w))"

definition full_cone_verdict ::
  "check_env \<Rightarrow> tcp_full_cone_options \<Rightarrow> stun_test_result \<Rightarrow> world \<Rightarrow> tcp_full_cone \<times> world" where
  "full_cone_verdict env opts mapping w =
     (if tr_source mapping = tr_mapped mapping then (FullConeOpenInternet, w)
      else
        let check_port = (case fco_check_port opts of Some f \<Rightarrow> f | None \<Rightarrow> default_full_cone_port_check env opts)
        in (case check_port \<lparr>fpr_port = uint (ap_port (tr_mapped mapping)), fpr_source_addr = fco_source_addr opts,
                             fpr_interface = fco_interface opts\<rparr> w of
              (Inl _, w') \<Rightarrow> (FullConeUnknown, w')
            | (Inr r, w') \<Rightarrow> (full_cone_of_port r, w')))"

definition listener_source :: "closer \<Rightarrow> addr_port \<Rightarrow> world \<Rightarrow> addr_port" where
  "listener_source listener source w =
     (case cl_addr listener of
        None \<Rightarrow> source
      | Some addr \<Rightarrow> (case addr_port_from_net_addr (addr w) of Inr a \<Rightarrow> a | Inl _ \<Rightarrow> source))"

definition check_tcp_full_cone :: "check_env \<Rightarrow> tcp_full_cone_options \<Rightarrow> world \<Rightarrow> tcp_full_cone \<times> world" where
  "check_tcp_full_cone env opts w =
     (let source = tcp_source_addr_port (fco_source_addr opts) (fco_source_port opts);
          listen = (case fco_listen opts of Some f \<Rightarrow> f | None \<Rightarrow> default_full_cone_listen env);
          get_mapping = (case fco_get_mapping opts of Some f \<Rightarrow> f | None \<Rightarrow> default_full_cone_mapping env)
      in case listen \<lparr>flr_source = source, flr_interface = fco_interface opts, flr_reuse = fco_reuse opts\<rparr> w of
           (Inl _, w1) \<Rightarrow> (FullConeUnknown, w1)
         | (Inr listener, w1) \<Rightarrow>
             (case get_mapping
                     \<lparr>fmr_source = listener_source listener source w1, fmr_interface = fco_interface opts,
                      fmr_reuse = fco_reuse opts, fmr_keep_alive_server = fco_keep_alive_server opts,
                      fmr_stun_servers = fco_stun_servers opts, fmr_txid = fco_txid opts\<rparr> w1 of
                (Inl _, w2) \<Rightarrow> (FullConeUnknown, cl_close listener w2)
              | (Inr (mapping, keep_alive), w2) \<Rightarrow>
                  (case full_cone_verdict env opts mapping w2 of
                     (r, w3) \<Rightarrow>
                       (r, cl_close listener (case keep_alive of None \<Rightarrow> w3 | Some c \<Rightarrow> cl_close c w3)))))"

lemmas check_net_defs [go_defs] =
  check_net_def check_options_def tcp_source_addr_port_def udp_source_addr_port_def tcp_addr_port_def
  udp_addr_from_addr_port_def listen_address_def addr_from_slice_def bad_ip_text_def stun_test_timeout_def
  tcp_stun_txid_def tcp_stun_answer_def tcp_stun_dial_def tcp_stun_test_def udp_stun_txid_def udp_repeat_def
  udp_send_all_def udp_stun_answer_def check_listen_def check_close_def udp_stun_test_def
  default_full_cone_listen_def keep_alive_get_def conn_closer_def mapping_stun_options_def
  default_full_cone_mapping_def default_full_cone_port_check_def full_cone_verdict_def listener_source_def
  check_tcp_full_cone_def

section \<open>The check leaves nothing open\<close>

text \<open>
  \<open>undisturbed w w'\<close>: from \<open>w\<close> to \<open>w'\<close> only sockets, listeners and web services were used, and the
  connections and listeners that are open are the same.
\<close>

definition undisturbed :: "world \<Rightarrow> world \<Rightarrow> bool" where
  "undisturbed w w' \<longleftrightarrow>
     (\<exists>h l s. w' = w\<lparr>w_net := h, w_listen := l, w_sys := s\<rparr> \<and> same_live (w_net w) h \<and>
        owed_sockets l = owed_sockets (w_listen w))"

lemma undisturbed_refl [simp, intro]: "undisturbed w w"
  unfolding undisturbed_def by (intro exI [of _ "w_net w"] exI [of _ "w_listen w"] exI [of _ "w_sys w"]) simp

lemma undisturbed_trans:
  assumes "undisturbed w w1" "undisturbed w1 w2"
  shows "undisturbed w w2"
proof -
  from assms(1) obtain h l s where 1: "w1 = w\<lparr>w_net := h, w_listen := l, w_sys := s\<rparr>" "same_live (w_net w) h"
      "owed_sockets l = owed_sockets (w_listen w)" unfolding undisturbed_def by blast
  from assms(2) obtain h' l' s' where 2: "w2 = w1\<lparr>w_net := h', w_listen := l', w_sys := s'\<rparr>" "same_live (w_net w1) h'"
      "owed_sockets l' = owed_sockets (w_listen w1)" unfolding undisturbed_def by blast
  from 1 2 same_live_trans show ?thesis
    unfolding undisturbed_def by (intro exI [of _ h'] exI [of _ l'] exI [of _ s']) auto
qed

lemma undisturbed_net [intro]: "same_live (w_net w) h \<Longrightarrow> undisturbed w (w\<lparr>w_net := h\<rparr>)"
  unfolding undisturbed_def by (intro exI [of _ h] exI [of _ "w_listen w"] exI [of _ "w_sys w"]) simp

lemma undisturbed_listen [intro]: "owed_sockets l = owed_sockets (w_listen w) \<Longrightarrow> undisturbed w (w\<lparr>w_listen := l\<rparr>)"
  unfolding undisturbed_def by (intro exI [of _ "w_net w"] exI [of _ l] exI [of _ "w_sys w"]) simp

lemma undisturbed_sys [intro]: "undisturbed w (w\<lparr>w_sys := s\<rparr>)"
  unfolding undisturbed_def by (intro exI [of _ "w_net w"] exI [of _ "w_listen w"] exI [of _ s]) simp

lemma undisturbed_calm: "undisturbed w w' \<Longrightarrow> calm env w w'"
  by (auto simp: undisturbed_def quiet_def frame_def resource_defs same_live_def)

lemma owed_sockets_append:
  "owed_sockets (h @ [ListenCall n a opts (Some e)]) = owed_sockets h"
  "owed_sockets (h @ [ListenCall n a opts None]) - {length h} = owed_sockets h"
  "owed_sockets (h @ [listen_event.CloseCall i e']) = owed_sockets h - {i}"
  by (auto simp: owed_sockets_def nth_append less_Suc_eq)

lemma check_listen_failed:
  "check_listen env proto source opts h = (Inl e, h') \<Longrightarrow> owed_sockets h' = owed_sockets h"
  by (auto simp: check_listen_def Let_def owed_sockets_append split: option.splits)

lemma check_listen_close:
  "check_listen env proto source opts h = (Inr i, h') \<Longrightarrow> owed_sockets (check_close env i h') = owed_sockets h"
  by (clarsimp simp: check_listen_def check_close_def close_socket_def Let_def owed_sockets_append(2)
      owed_sockets_append(3) [of "h @ [x]" for x, simplified] split: option.splits)

lemma tcp_stun_test_live: "\<exists>h. snd (tcp_stun_test env opts w) = w\<lparr>w_net := h\<rparr> \<and> same_live (w_net w) h"
proof (cases "tcp_stun_txid env opts w")
  case (Inl e)
  then show ?thesis by (intro exI [of _ "w_net w"]) (simp add: tcp_stun_test_def)
next
  case (Inr txid)
  obtain r h1 where d: "tcp_stun_dial env opts (w_net w) = (r, h1)" by fastforce
  show ?thesis
  proof (cases r)
    case (Inl e)
    from d have "same_live (w_net w) h1" unfolding Inl tcp_stun_dial_def by (rule dial_failed)
    with d Inl \<open>tcp_stun_txid env opts w = Inr txid\<close> show ?thesis
      by (intro exI [of _ h1]) (simp add: tcp_stun_test_def)
  next
    case (Inr i)
    have "same_live (w_net w) (h1 @ [DeadlineCall i x, WriteCall i y z, net_call.CloseCall i e])" for x y z e
      using dial_use_close [OF d [unfolded Inr tcp_stun_dial_def], of "[DeadlineCall i x, WriteCall i y z]"] by simp
    then have live: "\<exists>h. w\<lparr>w_net := h1 @ [DeadlineCall i x, WriteCall i y z, net_call.CloseCall i e]\<rparr> = w\<lparr>w_net := h\<rparr> \<and>
        same_live (w_net w) h" for x y z e by blast
    from d Inr \<open>tcp_stun_txid env opts w = Inr txid\<close> live show ?thesis
      by (simp add: tcp_stun_test_def Let_def close_conn_def)
  qed
qed

lemma tcp_stun_test_undisturbed: "undisturbed w (snd (tcp_stun_test env opts w))"
  using tcp_stun_test_live [of env opts w] by auto

lemma udp_stun_test_undisturbed: "undisturbed w (snd (udp_stun_test env opts w))"
  by (auto simp: udp_stun_test_def split: sum.splits prod.splits dest: check_listen_failed check_listen_close)

lemma same_live_keeps_owns: "same_live h h' \<Longrightarrow> owns x h B \<Longrightarrow> owns x h' B"
  by (simp add: same_live_def owns_def)

text \<open>The mapping keeps its connection open; the check closes it with the listener.\<close>

lemma default_full_cone_mapping_live:
  assumes "default_full_cone_mapping env q w = (r, w')"
  shows "\<exists>h. w' = w\<lparr>w_net := h\<rparr> \<and>
    (case r of
       Inl _ \<Rightarrow> same_live (w_net w) h
     | Inr (m, c) \<Rightarrow> (\<exists>i. c = Some (conn_closer env i) \<and> (\<forall>B. owns None (w_net w) B \<longrightarrow> owns (Some i) h B)))"
proof (cases "\<not> ap_valid (fmr_keep_alive_server q) \<or> fmr_stun_servers q = []")
  case True
  with assms show ?thesis by (intro exI [of _ "w_net w"]) (auto simp: default_full_cone_mapping_def)
next
  case False
  obtain d h1 where d: "dial_with (check_net env) (network_for_source ''tcp'' (fmr_source q)) (tcp_addr_port (fmr_source q))
      (check_options (fmr_interface q) (fmr_reuse q)) (addr_port_text (fmr_keep_alive_server q)) (w_net w) = (d, h1)"
    by fastforce
  show ?thesis
  proof (cases d)
    case (Inl e)
    with False d assms dial_with_failed [of "check_net env"] show ?thesis
      by (intro exI [of _ h1]) (auto simp: default_full_cone_mapping_def)
  next
    case (Inr i)
    define wr where "wr = ne_write (check_net env) (h1 @ [DeadlineCall i (ne_set_deadline (check_net env) h1 i)]) i
      (keep_alive_get (fmr_keep_alive_server q))"
    define h3 where "h3 = h1 @ [DeadlineCall i (ne_set_deadline (check_net env) h1 i),
      WriteCall i (keep_alive_get (fmr_keep_alive_server q)) wr]"
    have own: "owns (Some i) h3 B" if "owns None (w_net w) B" for B
      using dial_with_owns [OF that d] Inr by (simp add: h3_def)
    have closed: "same_live (w_net w) (h @ [net_call.CloseCall i e])" if "same_live h3 h" for h e
      by (rule same_live_owns) (rule owns_close [OF same_live_keeps_owns [OF that own]])
    obtain h4 where t: "snd (tcp_stun_test env (mapping_stun_options q) (w\<lparr>w_net := h3\<rparr>)) = w\<lparr>w_net := h4\<rparr>" "same_live h3 h4"
      using tcp_stun_test_live [of env "mapping_stun_options q" "w\<lparr>w_net := h3\<rparr>"] by auto
    obtain s where s: "tcp_stun_test env (mapping_stun_options q) (w\<lparr>w_net := h3\<rparr>) = (s, w\<lparr>w_net := h4\<rparr>)"
      using t(1) by (metis prod.collapse)
    have run: "default_full_cone_mapping env q w =
        (case wr of
           Some e \<Rightarrow> (Inl e, w\<lparr>w_net := snd (close_conn (check_net env) i h3)\<rparr>)
         | None \<Rightarrow>
             (case s of
                Inl e \<Rightarrow> (Inl e, w\<lparr>w_net := snd (close_conn (check_net env) i h4)\<rparr>)
              | Inr m \<Rightarrow> (Inr (m, Some (conn_closer env i)), w\<lparr>w_net := h4\<rparr>)))"
      using False d Inr s
      by (cases wr; cases s) (simp_all add: default_full_cone_mapping_def Let_def wr_def [symmetric] h3_def conn_closer_def)
    show ?thesis
    proof (cases wr)
      case (Some e)
      with run assms closed [OF same_live_refl] show ?thesis by (auto simp: close_conn_def Let_def)
    next
      case None
      with run assms closed [OF t(2)] same_live_keeps_owns [OF t(2) own] show ?thesis
        by (cases s) (auto simp: close_conn_def Let_def)
    qed
  qed
qed

lemma checker_wan_sys: "\<exists>s. snd (checker_wan env c port source w) = w\<lparr>w_sys := s\<rparr>"
  by (auto simp: checker_wan_def split: prod.splits)

text \<open>Without hooks of the caller the full-cone test closes its listener and its connection.\<close>

lemma full_cone_verdict_sys:
  assumes "fco_check_port opts = None"
  shows "\<exists>s. snd (full_cone_verdict env opts mapping w) = w\<lparr>w_sys := s\<rparr>"
proof (cases "tr_source mapping = tr_mapped mapping")
  case True
  then show ?thesis by (intro exI [of _ "w_sys w"]) (simp add: full_cone_verdict_def)
next
  case False
  with assms checker_wan_sys show ?thesis
    by (auto simp: full_cone_verdict_def default_full_cone_port_check_def Let_def map_prod_def split: prod.splits)
      (metis snd_conv)+
qed

lemma check_tcp_full_cone_undisturbed:
  assumes "fco_listen opts = None" "fco_get_mapping opts = None" "fco_check_port opts = None"
  shows "undisturbed w (snd (check_tcp_full_cone env opts w))"
proof -
  define lq where "lq = \<lparr>flr_source = tcp_source_addr_port (fco_source_addr opts) (fco_source_port opts),
    flr_interface = fco_interface opts, flr_reuse = fco_reuse opts\<rparr>"
  obtain l h1 where l: "check_listen env ''tcp'' (flr_source lq) (check_options (flr_interface lq) (flr_reuse lq)) (w_listen w) = (l, h1)"
    by fastforce
  show ?thesis
  proof (cases l)
    case (Inl e)
    with l assms(1) check_listen_failed [of env] show ?thesis
      by (auto simp: check_tcp_full_cone_def default_full_cone_listen_def lq_def Let_def)
  next
    case (Inr i)
    define w1 where "w1 = w\<lparr>w_listen := h1\<rparr>"
    define listener where "listener = \<lparr>cl_close = \<lambda>v. v\<lparr>w_listen := check_close env i (w_listen v)\<rparr>,
      cl_addr = Some (\<lambda>v. ke_listen_local env (w_listen v) i)\<rparr>"
    define mq where "mq = \<lparr>fmr_source = listener_source listener (flr_source lq) w1, fmr_interface = fco_interface opts,
      fmr_reuse = fco_reuse opts, fmr_keep_alive_server = fco_keep_alive_server opts,
      fmr_stun_servers = fco_stun_servers opts, fmr_txid = fco_txid opts\<rparr>"
    obtain r w2 where m: "default_full_cone_mapping env mq w1 = (r, w2)" by fastforce
    have n: "w_net w1 = w_net w" by (simp add: w1_def)
    from default_full_cone_mapping_live [OF m, unfolded n] obtain h where h: "w2 = w\<lparr>w_listen := h1, w_net := h\<rparr>"
      "case r of Inl _ \<Rightarrow> same_live (w_net w) h
       | Inr (m, c) \<Rightarrow> (\<exists>i. c = Some (conn_closer env i) \<and> (\<forall>B. owns None (w_net w) B \<longrightarrow> owns (Some i) h B))"
      unfolding w1_def by blast
    have listen: "default_full_cone_listen env lq w = (Inr listener, w1)"
      using l Inr by (simp add: default_full_cone_listen_def listener_def w1_def)
    have run: "check_tcp_full_cone env opts w =
      (case r of
         Inl _ \<Rightarrow> (FullConeUnknown, cl_close listener w2)
       | Inr (mapping, keep_alive) \<Rightarrow>
           (case full_cone_verdict env opts mapping w2 of
              (v, w3) \<Rightarrow> (v, cl_close listener (case keep_alive of None \<Rightarrow> w3 | Some c \<Rightarrow> cl_close c w3))))"
      using assms(1,2) listen m
      by (simp add: check_tcp_full_cone_def Let_def lq_def mq_def split: sum.splits)
    have closed: "owed_sockets (check_close env i h1) = owed_sockets (w_listen w)"
      using check_listen_close l Inr by blast
    show ?thesis
    proof (cases r)
      case (Inl e)
      with h have "undisturbed w (w\<lparr>w_net := h, w_listen := check_close env i h1\<rparr>)"
        using closed undisturbed_trans [OF undisturbed_net undisturbed_listen] by simp
      with run Inl h(1) show ?thesis by (simp add: listener_def)
    next
      case pair: (Inr p)
      with h(2) obtain mapping k where p: "p = (mapping, Some (conn_closer env k))"
        and own: "\<And>B. owns None (w_net w) B \<Longrightarrow> owns (Some k) h B" by (cases p) auto
      obtain s where s: "snd (full_cone_verdict env opts mapping w2) = w2\<lparr>w_sys := s\<rparr>"
        using full_cone_verdict_sys [OF assms(3)] by blast
      have "same_live (w_net w) (h @ [net_call.CloseCall k e])" for e
        by (rule same_live_owns) (use own owns_close in blast)
      then have "undisturbed w (w\<lparr>w_sys := s, w_net := h @ [net_call.CloseCall k e], w_listen := check_close env i h1\<rparr>)" for e
        using closed undisturbed_trans [OF undisturbed_trans [OF undisturbed_sys undisturbed_net] undisturbed_listen] by simp
      then show ?thesis using run pair p h(1) s
        by (simp add: listener_def conn_closer_def close_conn_def Let_def case_prod_beta)
    qed
  qed
qed

end
