(* ===== verification/Check_Run.thy ===== *)
theory Check_Run
  imports Check_Net
begin

text \<open>
  The run of \<open>qnatter --check\<close>, the rest of \<open>internal/check/check.go\<close>: the options of the checks and
  their default probes, the resolution of the servers, the check for Docker, the dependencies with
  their defaults and the report.
\<close>
section \<open>The checks with their default probes\<close>

record tcp_cone_options =
  tco_servers :: "addr_port list"
  tco_source_addr :: addr
  tco_source_port :: int
  tco_interface :: string
  tco_reuse :: bool
  tco_probe :: "(tcp_probe_request, world) check_probe option"

definition default_tcp_probe :: "check_env \<Rightarrow> (tcp_probe_request, world) check_probe" where
  "default_tcp_probe env q =
     tcp_stun_test env
       \<lparr>tso_server = tq_server q, tso_source = tcp_source_addr_port (tq_source_addr q) (tq_source_port q),
        tso_interface = tq_interface q, tso_reuse = tq_reuse q, tso_timeout = 0, tso_txid = None\<rparr>"

definition run_tcp_cone :: "check_env \<Rightarrow> tcp_cone_options \<Rightarrow> world \<Rightarrow> (goerror + tcp_cone) \<times> world" where
  "run_tcp_cone env opts =
     check_tcp_cone (ke_context env) (case tco_probe opts of Some p \<Rightarrow> p | None \<Rightarrow> default_tcp_probe env)
       (tco_servers opts) (tco_source_addr opts) (tco_source_port opts) (tco_interface opts) (tco_reuse opts)"

record udp_nat_options =
  uno_servers :: "addr_port list"
  uno_source_addr :: addr
  uno_source_port :: int
  uno_interface :: string
  uno_reuse :: bool
  uno_probe :: "(udp_probe_request, world) check_probe option"

definition default_udp_probe :: "check_env \<Rightarrow> udp_nat_options \<Rightarrow> (udp_probe_request, world) check_probe" where
  "default_udp_probe env opts q =
     udp_stun_test env
       \<lparr>uso_server = ur_server q, uso_source = udp_source_addr_port (uno_source_addr opts) (ur_source_port q),
        uso_interface = uno_interface opts, uso_reuse = uno_reuse opts, uso_timeout = 0, uso_repeat = 0,
        uso_change_ip = ur_change_ip q, uso_change_port = ur_change_port q, uso_txid = None\<rparr>"

definition run_udp_nat :: "check_env \<Rightarrow> udp_nat_options \<Rightarrow> world \<Rightarrow> (goerror + nat_type) \<times> world" where
  "run_udp_nat env opts =
     check_udp_nat_type (ke_context env) (case uno_probe opts of Some p \<Rightarrow> p | None \<Rightarrow> default_udp_probe env opts)
       (uno_source_port opts) (uno_servers opts)"

record tcp_nat_options =
  tno_source_port :: int
  tno_check_full_cone :: "(int \<Rightarrow> world \<Rightarrow> (goerror + tcp_full_cone) \<times> world) option"
  tno_check_cone :: "(world \<Rightarrow> (goerror + tcp_cone) \<times> world) option"

definition run_tcp_nat :: "tcp_nat_options \<Rightarrow> world \<Rightarrow> (goerror + nat_type) \<times> world" where
  "run_tcp_nat opts =
     check_tcp_nat_type
       (case tno_check_full_cone opts of Some f \<Rightarrow> f | None \<Rightarrow> (\<lambda>_ w. (Inr FullConeUnknown, w)))
       (case tno_check_cone opts of Some f \<Rightarrow> f | None \<Rightarrow> (\<lambda>w. (Inr ConeUnknown, w)))
       (tno_source_port opts)"

record tcp_check_options =
  tko_stun_servers :: "addr_port list"
  tko_keep_alive_server :: addr_port
  tko_source_addr :: addr
  tko_source_port :: int
  tko_interface :: string
  tko_reuse :: bool
  tko_port_checker :: "sys_history port_checker"

definition full_cone_options :: "tcp_check_options \<Rightarrow> int \<Rightarrow> tcp_full_cone_options" where
  "full_cone_options opts port =
     \<lparr>fco_source_addr = tko_source_addr opts, fco_source_port = port, fco_interface = tko_interface opts,
      fco_reuse = tko_reuse opts, fco_keep_alive_server = tko_keep_alive_server opts,
      fco_stun_servers = tko_stun_servers opts, fco_txid = None, fco_port_checker = tko_port_checker opts,
      fco_listen = None, fco_get_mapping = None, fco_check_port = None\<rparr>"

definition cone_options :: "tcp_check_options \<Rightarrow> tcp_cone_options" where
  "cone_options opts =
     \<lparr>tco_servers = tko_stun_servers opts, tco_source_addr = tko_source_addr opts, tco_source_port = 0,
      tco_interface = tko_interface opts, tco_reuse = tko_reuse opts, tco_probe = None\<rparr>"

definition check_tcp :: "check_env \<Rightarrow> tcp_check_options \<Rightarrow> world \<Rightarrow> (goerror + nat_type) \<times> world" where
  "check_tcp env opts =
     run_tcp_nat
       \<lparr>tno_source_port = tko_source_port opts,
        tno_check_full_cone =
          Some (\<lambda>port w. map_prod Inr id (check_tcp_full_cone env (full_cone_options opts port) w)),
        tno_check_cone = Some (run_tcp_cone env (cone_options opts))\<rparr>"

section \<open>Names\<close>

type_synonym resolver = "world \<Rightarrow> string \<Rightarrow> goerror + addr list"

definition default_resolve :: "check_env \<Rightarrow> resolver" where
  "default_resolve env w host = (case parse_addr host of Some a \<Rightarrow> Inr [a] | None \<Rightarrow> ke_resolve env w host)"

definition resolve_server :: "resolver \<Rightarrow> world \<Rightarrow> server \<Rightarrow> addr_port list" where
  "resolve_server resolve w s =
     (let addrs = (case parse_addr (sv_host s) of
                     Some a \<Rightarrow> [a]
                   | None \<Rightarrow> (case resolve w (sv_host s) of Inl _ \<Rightarrow> [] | Inr as \<Rightarrow> as))
      in map (\<lambda>a. AddrPort a (of_int (sv_port s))) (filter is4 addrs))"

definition resolve_stun_servers :: "resolver \<Rightarrow> world \<Rightarrow> server list \<Rightarrow> string \<Rightarrow> goerror + addr_port list" where
  "resolve_stun_servers resolve w servers label =
     (let resolved = concat (map (resolve_server resolve w) servers) in
      if resolved = [] then Inl (errorf (''no '' @ label @ '' STUN server address is available'')) else Inr resolved)"

definition resolve_host_port :: "resolver \<Rightarrow> world \<Rightarrow> string \<Rightarrow> int \<Rightarrow> goerror + addr_port" where
  "resolve_host_port resolve w value default_port =
     (case split_host_port_default value default_port of
        Inl e \<Rightarrow> Inl (endpoint_err e)
      | Inr (host, port) \<Rightarrow>
          let none = Inl (errorf (''no IPv4 address for '' @ host)) in
          (case parse_addr host of
             Some a \<Rightarrow> if is4 a then Inr (AddrPort a (of_int port)) else none
           | None \<Rightarrow>
               (case resolve w host of
                  Inl e \<Rightarrow> Inl e
                | Inr addrs \<Rightarrow>
                    (case find is4 addrs of Some a \<Rightarrow> Inr (AddrPort a (of_int port)) | None \<Rightarrow> none))))"

definition check_bind :: "config \<Rightarrow> addr \<times> string" where
  "check_bind cfg =
     (let value = (if cfg_bind_value cfg = [] then ''0.0.0.0'' else cfg_bind_value cfg) in
      case parse_addr value of Some a \<Rightarrow> (a, []) | None \<Rightarrow> (ipv4_unspecified, value))"

section \<open>The check for Docker\<close>

record docker_env =
  dke_goos :: string
  dke_docker_env_path :: string
  dke_eth0_mac_path :: string
  dke_hostname :: "(goerror + string) option"
  dke_lookup_ipv4 :: "(string \<Rightarrow> goerror + string) option"

definition file_exists :: "check_env \<Rightarrow> string \<Rightarrow> bool" where
  "file_exists env path \<longleftrightarrow> ke_stat env path = Some False"

definition mac_byte :: "byte \<Rightarrow> string" where
  "mac_byte b = pad_zero 2 (format_uint 16 (unat b))"

definition docker_mac_for_ipv4 :: "string \<Rightarrow> goerror + string" where
  "docker_mac_for_ipv4 ip =
     (case parse_addr ip of
        Some (Addr4 a b c d) \<Rightarrow> Inr (join '':'' ([''02'', ''42''] @ map mac_byte [a, b, c, d]))
      | _ \<Rightarrow> Inl (errorf (''invalid IPv4 address: '' @ ip)))"

definition lookup_ipv4 :: "check_env \<Rightarrow> string \<Rightarrow> goerror + string" where
  "lookup_ipv4 env host =
     res_bind (ke_lookup_ip env host) (\<lambda>ips.
     case find (\<lambda>a. is4 (unmap a)) ips of
       Some a \<Rightarrow> Inr (addr_text (unmap a))
     | None \<Rightarrow> Inl (errorf (''no IPv4 address for '' @ host)))"

text \<open>After the defaults no field is empty and no function is missing.\<close>

definition docker_with_defaults :: "check_env \<Rightarrow> docker_env \<Rightarrow> docker_env" where
  "docker_with_defaults env d =
     \<lparr>dke_goos = (if dke_goos d = [] then ke_goos env else dke_goos d),
      dke_docker_env_path = (if dke_docker_env_path d = [] then ''/.dockerenv'' else dke_docker_env_path d),
      dke_eth0_mac_path = (if dke_eth0_mac_path d = [] then ''/sys/class/net/eth0/address'' else dke_eth0_mac_path d),
      dke_hostname = Some (case dke_hostname d of Some r \<Rightarrow> r | None \<Rightarrow> ke_hostname env),
      dke_lookup_ipv4 = Some (case dke_lookup_ipv4 d of Some f \<Rightarrow> f | None \<Rightarrow> lookup_ipv4 env)\<rparr>"

text \<open>The address of the container's \<open>eth0\<close> is the one that Docker derives from its IP address.\<close>

definition docker_mac_matches :: "check_env \<Rightarrow> docker_env \<Rightarrow> goerror + bool" where
  "docker_mac_matches env d =
     res_bind (ke_read_file env (dke_eth0_mac_path d)) (\<lambda>raw_mac.
     res_bind (the (dke_hostname d)) (\<lambda>hostname.
     res_bind (the (dke_lookup_ipv4 d) hostname) (\<lambda>ip.
     res_bind (docker_mac_for_ipv4 ip) (\<lambda>docker_mac.
     Inr (equal_fold (trim_space raw_mac) docker_mac)))))"

definition check_docker_network :: "check_env \<Rightarrow> docker_env \<Rightarrow> goerror option" where
  "check_docker_network env docker =
     (let d = docker_with_defaults env docker in
      if dke_goos d \<noteq> ''linux'' then None
      else if \<not> file_exists env (dke_docker_env_path d) \<or> \<not> file_exists env (dke_eth0_mac_path d) then None
      else if docker_mac_matches env d = Inr True
      then Some (errorf (''Docker'' @ [CHR 0x27] @ ''s `--net=host` option is required''))
      else None)"

section \<open>Dependencies and probes\<close>

record check_dependencies =
  cd_docker :: docker_env
  cd_resolve :: "resolver option"
  cd_check_tcp :: "(tcp_check_options \<Rightarrow> world \<Rightarrow> (goerror + nat_type) \<times> world) option"
  cd_check_udp :: "(udp_nat_options \<Rightarrow> world \<Rightarrow> (goerror + nat_type) \<times> world) option"

definition deps_with_defaults :: "check_env \<Rightarrow> check_dependencies \<Rightarrow> check_dependencies" where
  "deps_with_defaults env deps =
     deps\<lparr>cd_resolve := Some (case cd_resolve deps of Some f \<Rightarrow> f | None \<Rightarrow> default_resolve env),
          cd_check_tcp := Some (case cd_check_tcp deps of Some f \<Rightarrow> f | None \<Rightarrow> check_tcp env),
          cd_check_udp := Some (case cd_check_udp deps of Some f \<Rightarrow> f | None \<Rightarrow> run_udp_nat env)\<rparr>"

definition no_dependencies :: check_dependencies where
  "no_dependencies =
     \<lparr>cd_docker = \<lparr>dke_goos = [], dke_docker_env_path = [], dke_eth0_mac_path = [], dke_hostname = None,
                    dke_lookup_ipv4 = None\<rparr>,
      cd_resolve = None, cd_check_tcp = None, cd_check_udp = None\<rparr>"

type_synonym result_probe = "config \<Rightarrow> world \<Rightarrow> (goerror + check_result) \<times> world"

definition nat_result :: "(goerror + nat_type) \<times> world \<Rightarrow> (goerror + check_result) \<times> world" where
  "nat_result r = map_prod (map_sum id result_from_nat_type) id r"

definition tcp_probe :: "check_dependencies \<Rightarrow> result_probe" where
  "tcp_probe deps cfg w =
     (case resolve_stun_servers (the (cd_resolve deps)) w (cfg_stun_servers cfg) ''TCP'' of
        Inl e \<Rightarrow> (Inl e, w)
      | Inr stuns \<Rightarrow>
          (case resolve_host_port (the (cd_resolve deps)) w (cfg_keep_alive_server cfg) 80 of
             Inl e \<Rightarrow> (Inl e, w)
           | Inr server \<Rightarrow>
               (case check_bind cfg of
                  (source, iface) \<Rightarrow>
                    nat_result (the (cd_check_tcp deps)
                      \<lparr>tko_stun_servers = stuns, tko_keep_alive_server = server, tko_source_addr = source,
                       tko_source_port = cfg_bind_port cfg, tko_interface = iface, tko_reuse = True,
                       tko_port_checker = interface_checker iface\<rparr> w))))"

definition udp_probe :: "check_dependencies \<Rightarrow> result_probe" where
  "udp_probe deps cfg w =
     (case resolve_stun_servers (the (cd_resolve deps)) w (cfg_stun_servers cfg) ''UDP'' of
        Inl e \<Rightarrow> (Inl e, w)
      | Inr servers \<Rightarrow>
          (case check_bind cfg of
             (source, iface) \<Rightarrow>
               nat_result (the (cd_check_udp deps)
                 \<lparr>uno_servers = servers, uno_source_addr = source, uno_source_port = cfg_bind_port cfg,
                  uno_interface = iface, uno_reuse = True, uno_probe = None\<rparr> w)))"

section \<open>The report\<close>

record runner =
  rn_docker :: docker_env
  rn_tcp :: result_probe
  rn_udp :: result_probe

definition info_line :: "string \<Rightarrow> (goerror + check_result) \<Rightarrow> string" where
  "info_line label r =
     (let result = (case r of Inl e \<Rightarrow> \<lparr>cr_status = Failed, cr_info = err_text e\<rparr> | Inr x \<Rightarrow> x) in
      label @ replicate (36 - length label) (CHR '' '') @ '' '' @ status_rep (cr_status result) @ '' ... '' @ cr_info result @ [CHR 0x0A])"

definition report_version :: string where
  "report_version = ''2.2.2-go''"

text \<open>The error, what is written to standard output, and the world.\<close>

definition runner_run :: "check_env \<Rightarrow> runner \<Rightarrow> config \<Rightarrow> world \<Rightarrow> (goerror option \<times> string) \<times> world" where
  "runner_run env r cfg w =
     (case check_docker_network env (rn_docker r) of
        Some e \<Rightarrow> ((Some e, []), w)
      | None \<Rightarrow>
          let (t, w1) = rn_tcp r cfg w; (u, w2) = rn_udp r cfg w1 in
          ((None, ''> QNatterCheck v'' @ report_version @ [CHR 0x0A, CHR 0x0A] @
             info_line ''Checking TCP NAT...'' t @ info_line ''Checking UDP NAT...'' u), w2))"

definition run_with_dependencies ::
  "check_env \<Rightarrow> check_dependencies \<Rightarrow> config \<Rightarrow> world \<Rightarrow> (goerror option \<times> string) \<times> world" where
  "run_with_dependencies env deps cfg w =
     (let d = deps_with_defaults env deps in
      runner_run env \<lparr>rn_docker = cd_docker d, rn_tcp = tcp_probe d, rn_udp = udp_probe d\<rparr> cfg w)"

definition check_run :: "check_env \<Rightarrow> config \<Rightarrow> world \<Rightarrow> (goerror option \<times> string) \<times> world" where
  "check_run env cfg w = run_with_dependencies env no_dependencies cfg w"

lemmas check_run_defs [go_defs] =
  default_tcp_probe_def run_tcp_cone_def default_udp_probe_def run_udp_nat_def run_tcp_nat_def
  full_cone_options_def cone_options_def check_tcp_def default_resolve_def resolve_server_def
  resolve_stun_servers_def resolve_host_port_def check_bind_def file_exists_def mac_byte_def
  docker_mac_for_ipv4_def lookup_ipv4_def docker_with_defaults_def docker_mac_matches_def
  check_docker_network_def deps_with_defaults_def no_dependencies_def nat_result_def tcp_probe_def udp_probe_def
  info_line_def report_version_def runner_run_def run_with_dependencies_def check_run_def

section \<open>Defaults\<close>

lemma docker_with_defaults_idem:
  assumes "ke_goos env \<noteq> []"
  shows "docker_with_defaults env (docker_with_defaults env d) = docker_with_defaults env d"
  using assms by (simp add: docker_with_defaults_def)

lemma deps_with_defaults_idem:
  "deps_with_defaults env (deps_with_defaults env d) = deps_with_defaults env d"
  by (simp add: deps_with_defaults_def)

text \<open>Only IPv4 addresses come out of the resolution, and never none at all.\<close>

lemma resolve_stun_servers_ipv4:
  "resolve_stun_servers resolve w servers label = Inr as \<Longrightarrow> as \<noteq> [] \<and> (\<forall>a \<in> set as. is4 (ap_addr a))"
  by (auto simp: resolve_stun_servers_def resolve_server_def Let_def split: if_splits)

lemma resolve_host_port_ipv4: "resolve_host_port resolve w value port = Inr a \<Longrightarrow> is4 (ap_addr a)"
  by (auto simp: resolve_host_port_def Let_def find_Some_iff split: sum.splits option.splits if_splits prod.splits)

section \<open>The check leaves nothing open\<close>

text \<open>A relation that the probes respect is respected by both loops.\<close>

lemma probe_maybe_relation:
  assumes "\<And>q w. R w (snd (probe q w))" "probe_maybe ctx probe q w = (r, w')"
  shows "R w w'"
proof -
  obtain a w1 where p: "probe q w = (a, w1)" by fastforce
  with assms(2) have "w' = w1" by (auto simp: probe_maybe_def split: sum.splits option.splits)
  with assms(1) [of w q] p show ?thesis by simp
qed

lemma udp_test_loop_relation:
  assumes "\<And>w. R w w" "\<And>a b c. R a b \<Longrightarrow> R b c \<Longrightarrow> R a c" "\<And>q w. R w (snd (probe q w))"
  shows "R w (snd (udp_test_loop ctx probe port servers t w))"
proof (induction servers arbitrary: t w)
  case (Cons s servers)
  note step = probe_maybe_relation [of R, OF assms(3)]
  obtain r1 w1 where 1: "probe_maybe ctx probe (udp_request s port False False) w = (r1, w1)" by fastforce
  obtain r2 w2 where 2: "probe_maybe ctx probe (udp_request s port True True) w1 = (r2, w2)" by fastforce
  obtain r3 w3 where 3: "probe_maybe ctx probe (udp_request s port False True) w2 = (r3, w3)" by fastforce
  have R: "R w w1" "R w w2" "R w w3" using step [OF 1] step [OF 2] step [OF 3] assms(2) by blast+
  have IH: "R w (snd (udp_test_loop ctx probe port servers t' v))" if "R w v" for t' v
    using assms(2) [OF that Cons.IH] .
  show ?case
    using R IH by (simp add: 1 2 3 Let_def split: sum.splits option.splits)
qed (simp add: assms(1))

lemma tcp_cone_loop_relation:
  assumes "\<And>w. R w w" "\<And>a b c. R a b \<Longrightarrow> R b c \<Longrightarrow> R a c" "\<And>q w. R w (snd (probe q w))"
  shows "R w (snd (tcp_cone_loop ctx probe req servers first n w))"
proof (induction servers arbitrary: first n w)
  case (Cons s servers)
  obtain r1 w1 where 1: "probe_maybe ctx probe (req s) w = (r1, w1)" by fastforce
  have R: "R w w1" using probe_maybe_relation [of R, OF assms(3) 1] .
  have IH: "R w (snd (tcp_cone_loop ctx probe req servers f k w1))" for f k
    using assms(2) [OF R Cons.IH] .
  show ?case using R IH assms(1) by (simp add: 1 split: sum.splits option.splits)
qed (simp add: assms(1))

lemma run_udp_nat_undisturbed: "uno_probe opts = None \<Longrightarrow> undisturbed w (snd (run_udp_nat env opts w))"
proof -
  assume "uno_probe opts = None"
  moreover have "undisturbed w (snd (udp_test_loop (ke_context env) (default_udp_probe env opts) port servers no_tests w))" for port servers
    by (rule udp_test_loop_relation [of undisturbed])
      (auto intro: undisturbed_trans simp: default_udp_probe_def udp_stun_test_undisturbed)
  ultimately show ?thesis
    by (auto simp: run_udp_nat_def check_udp_nat_type_def split: prod.splits sum.splits)
      (metis snd_conv)+
qed

lemma run_tcp_cone_undisturbed: "tco_probe opts = None \<Longrightarrow> undisturbed w (snd (run_tcp_cone env opts w))"
  unfolding run_tcp_cone_def check_tcp_cone_def
  by (rule tcp_cone_loop_relation [of undisturbed])
    (auto intro: undisturbed_trans simp: default_tcp_probe_def tcp_stun_test_undisturbed)

lemma check_tcp_undisturbed: "undisturbed w (snd (check_tcp env opts w))"
proof -
  obtain f w1 where f: "check_tcp_full_cone env (full_cone_options opts (tko_source_port opts)) w = (f, w1)" by fastforce
  obtain c w2 where c: "run_tcp_cone env (cone_options opts) w1 = (c, w2)" by fastforce
  have "undisturbed w (snd (check_tcp_full_cone env (full_cone_options opts (tko_source_port opts)) w))"
    by (rule check_tcp_full_cone_undisturbed) (simp_all add: full_cone_options_def)
  with f have 1: "undisturbed w w1" by simp
  have "undisturbed w1 (snd (run_tcp_cone env (cone_options opts) w1))"
    by (rule run_tcp_cone_undisturbed) (simp add: cone_options_def)
  with c undisturbed_trans [OF 1] have 2: "undisturbed w w2" by simp
  from f c 1 2 show ?thesis
    by (auto simp: check_tcp_def run_tcp_nat_def check_tcp_nat_type_def split: tcp_full_cone.splits sum.splits tcp_cone.splits)
qed

abbreviation default_deps :: "check_env \<Rightarrow> check_dependencies" where
  "default_deps env \<equiv> deps_with_defaults env no_dependencies"

lemma default_deps_simps [simp]:
  "cd_resolve (default_deps env) = Some (default_resolve env)"
  "cd_check_tcp (default_deps env) = Some (check_tcp env)"
  "cd_check_udp (default_deps env) = Some (run_udp_nat env)"
  by (simp_all add: deps_with_defaults_def no_dependencies_def)

lemma nat_result_undisturbed: "undisturbed w (snd r) \<Longrightarrow> undisturbed w (snd (nat_result r))"
  by (simp add: nat_result_def)

lemma tcp_probe_undisturbed: "undisturbed w (snd (tcp_probe (default_deps env) cfg w))"
  by (auto simp: tcp_probe_def intro: nat_result_undisturbed check_tcp_undisturbed split: sum.splits prod.splits)

lemma udp_probe_undisturbed: "undisturbed w (snd (udp_probe (default_deps env) cfg w))"
  by (auto simp: udp_probe_def intro!: nat_result_undisturbed run_udp_nat_undisturbed split: sum.splits prod.splits)

lemma check_run_undisturbed: "undisturbed w (snd (check_run env cfg w))"
proof -
  obtain t w1 where t: "tcp_probe (default_deps env) cfg w = (t, w1)" by fastforce
  obtain u w2 where u: "udp_probe (default_deps env) cfg w1 = (u, w2)" by fastforce
  from tcp_probe_undisturbed [of w env cfg] t have "undisturbed w w1" by simp
  moreover from udp_probe_undisturbed [of w1 env cfg] u have "undisturbed w1 w2" by simp
  ultimately have "undisturbed w w2" by (rule undisturbed_trans)
  with t u show ?thesis
    by (simp add: check_run_def run_with_dependencies_def runner_run_def Let_def split: option.splits)
qed

lemma check_run_calm: "calm app (w :: world) (snd (check_run env cfg w))"
  by (rule undisturbed_calm) (rule check_run_undisturbed)

end
