(* ===== verification/Qbittorrent.thy ===== *)
theory Qbittorrent
  imports Go_Base
begin

text \<open>
  \<open>internal/qbittorrent/qbittorrent.go\<close>: the port and the address of a qBittorrent web interface.  No
  other package calls it.  \<open>net/url\<close> is an argument.
\<close>
definition qb_valid_port :: "int \<Rightarrow> bool" where
  "qb_valid_port port \<longleftrightarrow> 1 \<le> port \<and> port \<le> 65535"

definition select_listen_port :: "int \<Rightarrow> int \<Rightarrow> int \<Rightarrow> int" where
  "select_listen_port inner outer configured =
     (if qb_valid_port configured then configured
      else if qb_valid_port outer then outer
      else if qb_valid_port inner then inner
      else 0)"

definition preferences_json :: "int \<Rightarrow> goerror + string" where
  "preferences_json port =
     (if \<not> qb_valid_port port
      then Inl (errorf (''qbittorrent: invalid listen port '' @ itoa port @ '' (want 1..65535)''))
      else Inr (''{'' @ [CHR 0x22] @ ''listen_port'' @ [CHR 0x22] @ '':'' @ itoa port @ ''}''))"

text \<open>
  What \<open>url.Parse\<close> and \<open>URL.String\<close> answer: the error, or the scheme, the host and the text.
\<close>

record parsed_url =
  pu_scheme :: string
  pu_host :: string
  pu_text :: string

definition trim_right_slash :: "string \<Rightarrow> string" where
  "trim_right_slash s = rev (dropWhile (\<lambda>c. c = CHR ''/'') (rev s))"

definition normalize_url :: "(string \<Rightarrow> goerror + parsed_url) \<Rightarrow> string \<Rightarrow> goerror + string" where
  "normalize_url parse raw =
     (case parse raw of
        Inl e \<Rightarrow> Inl (wrap_errors [] e (''qbittorrent: invalid URL '' @ go_quote raw @ '': ''))
      | Inr u \<Rightarrow>
          if pu_scheme u \<noteq> ''http'' \<and> pu_scheme u \<noteq> ''https''
          then Inl (errorf (''qbittorrent: unsupported URL scheme '' @ go_quote (pu_scheme u) @ '' (want http or https)''))
          else if pu_host u = [] then Inl (errorf (''qbittorrent: URL '' @ go_quote raw @ '' has no host''))
          else
            let normalized = trim_right_slash (pu_text u) in
            if normalized = [] \<or> normalized = pu_scheme u @ '':''
            then Inl (errorf (''qbittorrent: URL '' @ go_quote raw @ '' has no host''))
            else Inr normalized)"

lemmas qbittorrent_defs [go_defs] =
  qb_valid_port_def select_listen_port_def preferences_json_def trim_right_slash_def normalize_url_def

text \<open>
  A selected port is the first valid one in the order configured, outer, inner, and is accepted by
  \<open>PreferencesJSON\<close> exactly when one of the three is valid: 0, qBittorrent's random port, never is.
\<close>

lemma select_listen_port_written:
  "(\<exists>j. preferences_json (select_listen_port inner outer configured) = Inr j) \<longleftrightarrow>
   qb_valid_port configured \<or> qb_valid_port outer \<or> qb_valid_port inner"
  by (auto simp: preferences_json_def select_listen_port_def qb_valid_port_def)

lemma select_listen_port_order:
  "find qb_valid_port [configured, outer, inner] = Some p \<Longrightarrow> select_listen_port inner outer configured = p"
  by (auto simp: select_listen_port_def split: if_splits)

lemma normalize_url_no_slash: "normalize_url parse raw = Inr s \<Longrightarrow> s \<noteq> [] \<and> last s \<noteq> CHR ''/''"
proof -
  have "trim_right_slash t \<noteq> [] \<Longrightarrow> last (trim_right_slash t) \<noteq> CHR ''/''" for t
    using hd_dropWhile [of "\<lambda>c. c = CHR ''/''" "rev t"] by (auto simp: trim_right_slash_def last_rev)
  then show "normalize_url parse raw = Inr s \<Longrightarrow> ?thesis"
    by (auto simp: normalize_url_def Let_def split: sum.splits if_splits)
qed

end
