(* ===== verification/Child_Process.thy ===== *)
theory Child_Process
  imports Forward_External
begin

text \<open>
  The child processes of \<open>internal/forward/external.go\<close>: \<open>ExecStarter\<close> and \<open>osProcess\<close>, whose reaper
  goroutine waits for the child from the start.  The child, the reaper and the caller step in any
  order; what \<open>stopExternal\<close> asks of a process is answered from its state.
\<close>

section \<open>osProcess\<close>

text \<open>
  The goroutine that \<open>reap\<close> starts once: it waits in \<open>cmd.Wait\<close>, has its result (the child is
  collected), and has closed \<open>done\<close>.
\<close>

datatype reaper = NotReaping | Reaping | Collected wait_result | Done wait_result

record os_process =
  op_child :: "wait_result option"
  op_reaper :: reaper

definition reap :: "os_process \<Rightarrow> os_process" where
  "reap p = (if op_reaper p = NotReaping then p\<lparr>op_reaper := Reaping\<rparr> else p)"

definition exec_start :: "goerror option \<Rightarrow> goerror + os_process" where
  "exec_start started =
     (case started of Some e \<Rightarrow> Inl e | None \<Rightarrow> Inr (reap \<lparr>op_child = None, op_reaper = NotReaping\<rparr>))"

definition os_exited :: "os_process \<Rightarrow> bool" where
  "os_exited p = (case op_reaper p of Done r \<Rightarrow> True | _ \<Rightarrow> False)"

text \<open>\<open>Wait\<close> blocks until \<open>done\<close> is closed: no answer yet is \<open>None\<close>.\<close>

definition os_wait :: "os_process \<Rightarrow> wait_result option" where
  "os_wait p = (case op_reaper (reap p) of Done r \<Rightarrow> Some r | _ \<Rightarrow> None)"

text \<open>\<open>Process.Signal\<close> and \<open>Process.Kill\<close> refuse a process that has been collected.\<close>

definition process_done :: goerror where
  "process_done = errorf ''os: process already finished''"

definition os_terminate :: "os_process \<Rightarrow> goerror option" where
  "os_terminate p = (case op_reaper p of Collected r \<Rightarrow> Some process_done | Done r \<Rightarrow> Some process_done | _ \<Rightarrow> None)"

definition os_kill :: "os_process \<Rightarrow> goerror option \<times> os_process" where
  "os_kill p = (os_terminate p, if op_child p = None then p\<lparr>op_child := Some WaitSignaled\<rparr> else p)"

inductive process_step :: "os_process \<Rightarrow> os_process \<Rightarrow> bool" where
  child_ends: "op_child p = None \<Longrightarrow> process_step p (p\<lparr>op_child := Some r\<rparr>)"
| collects: "op_child p = Some r \<Longrightarrow> op_reaper p = Reaping \<Longrightarrow> process_step p (p\<lparr>op_reaper := Collected r\<rparr>)"
| closes_done: "op_reaper p = Collected r \<Longrightarrow> process_step p (p\<lparr>op_reaper := Done r\<rparr>)"

inductive_cases process_stepE: "process_step p p'"

definition process_ok :: "os_process \<Rightarrow> bool" where
  "process_ok p \<longleftrightarrow>
     (case op_reaper p of NotReaping \<Rightarrow> False | Reaping \<Rightarrow> True | Collected r \<Rightarrow> op_child p = Some r | Done r \<Rightarrow> op_child p = Some r)"

lemmas os_process_defs = reap_def os_exited_def os_wait_def os_terminate_def os_kill_def process_ok_def

lemma process_ok_start: "exec_start None = Inr p \<Longrightarrow> process_ok p"
  by (auto simp: exec_start_def os_process_defs)

lemma process_ok_step: "process_step p p' \<Longrightarrow> process_ok p \<Longrightarrow> process_ok p'"
  by (induction rule: process_step.induct) (auto simp: process_ok_def split: reaper.splits)

lemma process_ok_steps: "process_step\<^sup>*\<^sup>* p p' \<Longrightarrow> process_ok p \<Longrightarrow> process_ok p'"
  by (induction rule: rtranclp_induct) (auto dest: process_ok_step)

text \<open>Once \<open>Exited\<close> is true it stays true, and \<open>Wait\<close> gives the same answer to every caller: how the child ended.\<close>

lemma exited_stays:
  "process_step\<^sup>*\<^sup>* p p' \<Longrightarrow> os_exited p \<Longrightarrow> os_exited p' \<and> os_wait p' = os_wait p"
proof (induction rule: rtranclp_induct)
  case (step y z)
  from step(2) step(3) [OF step(4)] show ?case
    by (elim process_stepE) (auto simp: os_process_defs split: reaper.splits)
qed simp

lemma wait_tells_child: "process_ok p \<Longrightarrow> os_wait p = Some r \<Longrightarrow> op_child p = Some r \<and> os_exited p"
  by (auto simp: os_process_defs split: reaper.splits if_splits)

text \<open>
  No zombie: a child that has ended is collected without anyone calling \<open>Wait\<close>, within two steps of
  the reaper; a killed child has ended, so a \<open>Wait\<close> after a \<open>Kill\<close> returns.
\<close>

lemma ended_child_collected:
  assumes "process_ok p" "op_child p = Some r"
  shows "\<exists>p'. process_step\<^sup>*\<^sup>* p p' \<and> os_wait p' = Some r"
proof -
  have collected: "\<exists>p'. process_step\<^sup>*\<^sup>* q p' \<and> os_wait p' = Some r" if "op_reaper q = Collected r" for q
    using closes_done [OF that] by (intro exI [of _ "q\<lparr>op_reaper := Done r\<rparr>"]) (auto simp: os_process_defs)
  show ?thesis
  proof (cases "op_reaper p")
    case Reaping
    with assms(2) have "process_step p (p\<lparr>op_reaper := Collected r\<rparr>)" by (rule collects)
    with collected [of "p\<lparr>op_reaper := Collected r\<rparr>"] show ?thesis by (auto intro: converse_rtranclp_into_rtranclp)
  next
    case (Collected r')
    with assms collected [of p] show ?thesis by (auto simp: process_ok_def)
  next
    case (Done r')
    with assms show ?thesis by (intro exI [of _ p]) (auto simp: os_process_defs)
  qed (use assms in \<open>simp add: process_ok_def\<close>)
qed

lemma killed_child_collected:
  assumes "process_ok p"
  shows "\<exists>r p'. process_step\<^sup>*\<^sup>* (snd (os_kill p)) p' \<and> os_wait p' = Some r"
proof -
  have "process_ok (snd (os_kill p))" using assms by (auto simp: os_process_defs split: reaper.splits)
  moreover obtain r where "op_child (snd (os_kill p)) = Some r" by (cases "op_child p") (auto simp: os_kill_def)
  ultimately show ?thesis using ended_child_collected by blast
qed

text \<open>
  \<open>stopExternal\<close> asks \<open>Exited\<close> first and signals then.  A child that ends and is collected in between,
  or whose \<open>done\<close> is not closed yet, refuses the signal, and the stop reports this as its failure
  although the child has gone.
\<close>

lemma signal_races_exit:
  "\<exists>p. process_step\<^sup>*\<^sup>* (reap \<lparr>op_child = None, op_reaper = NotReaping\<rparr>) p \<and> \<not> os_exited p \<and>
     op_child p = Some WaitOk \<and> os_terminate p = Some process_done"
proof -
  let ?p0 = "\<lparr>op_child = None, op_reaper = Reaping\<rparr>"
  let ?p1 = "\<lparr>op_child = Some WaitOk, op_reaper = Reaping\<rparr>"
  let ?p2 = "\<lparr>op_child = Some WaitOk, op_reaper = Collected WaitOk\<rparr>"
  have "process_step ?p0 ?p1" using child_ends [of ?p0 WaitOk] by simp
  moreover have "process_step ?p1 ?p2" using collects [of ?p1 WaitOk] by simp
  ultimately have "process_step\<^sup>*\<^sup>* ?p0 ?p2" by (meson converse_rtranclp_into_rtranclp rtranclp.rtrancl_refl)
  then show ?thesis by (intro exI [of _ ?p2]) (simp add: os_process_defs)
qed

lemma stop_reports_finished_child:
  "\<not> pv_exited env h i \<Longrightarrow> pv_terminate env (h @ [ExitedCall i False]) i = Some process_done \<Longrightarrow>
   fst (stop_external env (Some i) h) = Some process_done"
  by (simp add: stop_external_def Let_def)

end
