(* ===== verification/Tcp_Relay.thy ===== *)
theory Tcp_Relay
  imports Forward_Socket
begin

text \<open>
  \<open>handleTCP\<close> of \<open>internal/forward/socket.go\<close>: the copying between the connection of a client and the
  one to the target, in both directions, with the half close at the end of each stream.  The three
  goroutines of a connection and its two peers are step relations that interleave in any order.
\<close>

section \<open>The two connections of a relay\<close>

text \<open>
  A \<open>net.Conn\<close> as the relay sees it: the bytes that have arrived so far, those not yet read, whether
  the peer has ended its stream or the connection is broken, the bytes written to it, whether it
  offers \<open>CloseWrite\<close>, and whether its write side is shut or the whole of it closed.
\<close>

record tcp_conn =
  cn_got :: "byte list"
  cn_unread :: "byte list"
  cn_ended :: bool
  cn_reset :: bool
  cn_sent :: "byte list"
  cn_half :: bool
  cn_shut :: bool
  cn_closed :: bool

definition read_fails :: "tcp_conn \<Rightarrow> bool" where
  "read_fails c \<longleftrightarrow> cn_reset c \<or> cn_closed c"

definition write_fails :: "tcp_conn \<Rightarrow> bool" where
  "write_fails c \<longleftrightarrow> cn_reset c \<or> cn_shut c \<or> cn_closed c"

definition close_write :: "tcp_conn \<Rightarrow> tcp_conn" where
  "close_write c = (if cn_half c then c\<lparr>cn_shut := True\<rparr> else c\<lparr>cn_closed := True\<rparr>)"

datatype side = Client | Target

fun opposite :: "side \<Rightarrow> side" where
  "opposite Client = Target"
| "opposite Target = Client"

text \<open>
  The goroutines of \<open>handleTCP\<close>: for each side one that copies what arrives there to the other side
  (reading, or holding a chunk it has read, or about to shut the other side, or done), and one
  that waits for both and closes the client and then the target.
\<close>

datatype copier = Copying | Writing "byte list" | Shutting | Copied

datatype waiter = Waiting | ClientClosed | Released

record tcp_relay =
  ry_conn :: "side \<Rightarrow> tcp_conn"
  ry_copier :: "side \<Rightarrow> copier"
  ry_waiter :: waiter

definition set_conn :: "side \<Rightarrow> tcp_conn \<Rightarrow> tcp_relay \<Rightarrow> tcp_relay" where
  "set_conn s c r = r\<lparr>ry_conn := (ry_conn r)(s := c)\<rparr>"

definition set_copier :: "side \<Rightarrow> copier \<Rightarrow> tcp_relay \<Rightarrow> tcp_relay" where
  "set_copier s k r = r\<lparr>ry_copier := (ry_copier r)(s := k)\<rparr>"

definition relay_start :: "tcp_conn \<Rightarrow> tcp_conn \<Rightarrow> tcp_relay" where
  "relay_start inbound outbound =
     \<lparr>ry_conn = (\<lambda>s. case s of Client \<Rightarrow> inbound | Target \<Rightarrow> outbound), ry_copier = (\<lambda>_. Copying), ry_waiter = Waiting\<rparr>"

definition handle_tcp :: "(string \<Rightarrow> goerror + tcp_conn) \<Rightarrow> socket_forwarder \<Rightarrow> tcp_conn \<Rightarrow> tcp_conn + tcp_relay" where
  "handle_tcp dial f inbound =
     (case dial (sk_target f) of
        Inl e \<Rightarrow> Inl (inbound\<lparr>cn_closed := True\<rparr>)
      | Inr outbound \<Rightarrow> Inr (relay_start inbound outbound))"

text \<open>\<open>acceptLoop\<close>: every accepted connection is handled; the first error ends the loop.\<close>

fun accept_loop :: "(goerror + tcp_conn) list \<Rightarrow> tcp_conn list" where
  "accept_loop [] = []"
| "accept_loop (Inl e # answers) = []"
| "accept_loop (Inr inbound # answers) = inbound # accept_loop answers"

section \<open>Steps\<close>

text \<open>What the peers of the two connections do.\<close>

inductive peer_step :: "tcp_relay \<Rightarrow> tcp_relay \<Rightarrow> bool" where
  arrives: "c = ry_conn r s \<Longrightarrow> \<not> cn_ended c \<Longrightarrow>
    peer_step r (set_conn s (c\<lparr>cn_got := cn_got c @ xs, cn_unread := cn_unread c @ xs\<rparr>) r)"
| ends: "peer_step r (set_conn s ((ry_conn r s)\<lparr>cn_ended := True\<rparr>) r)"
| breaks: "peer_step r (set_conn s ((ry_conn r s)\<lparr>cn_reset := True\<rparr>) r)"

text \<open>
  What the goroutines do.  \<open>io.Copy\<close> reads a chunk of any size, writes all of it, and ends at the end
  of the stream or at the first error; a write that fails may have written a part.
\<close>

inductive copy_step :: "tcp_relay \<Rightarrow> tcp_relay \<Rightarrow> bool" where
  reads: "ry_copier r s = Copying \<Longrightarrow> c = ry_conn r s \<Longrightarrow> \<not> read_fails c \<Longrightarrow> cn_unread c = xs @ ys \<Longrightarrow> xs \<noteq> [] \<Longrightarrow>
    copy_step r (set_copier s (Writing xs) (set_conn s (c\<lparr>cn_unread := ys\<rparr>) r))"
| read_ends: "ry_copier r s = Copying \<Longrightarrow> c = ry_conn r s \<Longrightarrow> read_fails c \<or> cn_unread c = [] \<and> cn_ended c \<Longrightarrow>
    copy_step r (set_copier s Shutting r)"
| writes: "ry_copier r s = Writing xs \<Longrightarrow> d = ry_conn r (opposite s) \<Longrightarrow> \<not> write_fails d \<Longrightarrow>
    copy_step r (set_copier s Copying (set_conn (opposite s) (d\<lparr>cn_sent := cn_sent d @ xs\<rparr>) r))"
| write_ends: "ry_copier r s = Writing xs \<Longrightarrow> d = ry_conn r (opposite s) \<Longrightarrow> write_fails d \<Longrightarrow>
    copy_step r (set_copier s Shutting (set_conn (opposite s) (d\<lparr>cn_sent := cn_sent d @ take n xs\<rparr>) r))"
| shuts: "ry_copier r s = Shutting \<Longrightarrow>
    copy_step r (set_copier s Copied (set_conn (opposite s) (close_write (ry_conn r (opposite s))) r))"
| closes_client: "ry_copier r Client = Copied \<Longrightarrow> ry_copier r Target = Copied \<Longrightarrow> ry_waiter r = Waiting \<Longrightarrow>
    copy_step r (set_conn Client ((ry_conn r Client)\<lparr>cn_closed := True\<rparr>) r\<lparr>ry_waiter := ClientClosed\<rparr>)"
| closes_target: "ry_waiter r = ClientClosed \<Longrightarrow>
    copy_step r (set_conn Target ((ry_conn r Target)\<lparr>cn_closed := True\<rparr>) r\<lparr>ry_waiter := Released\<rparr>)"

inductive_cases copy_stepE: "copy_step r r'"

definition relay_step :: "tcp_relay \<Rightarrow> tcp_relay \<Rightarrow> bool" where
  "relay_step r r' \<longleftrightarrow> peer_step r r' \<or> copy_step r r'"

lemmas relay_defs = set_conn_def set_copier_def read_fails_def write_fails_def close_write_def

lemma ry_set [simp]:
  "ry_conn (set_conn s c r) = (ry_conn r)(s := c)" "ry_copier (set_conn s c r) = ry_copier r" "ry_waiter (set_conn s c r) = ry_waiter r"
  "ry_conn (set_copier s k r) = ry_conn r" "ry_copier (set_copier s k r) = (ry_copier r)(s := k)" "ry_waiter (set_copier s k r) = ry_waiter r"
  by (simp_all add: set_conn_def set_copier_def)

lemma opposite_opposite [simp]: "opposite (opposite s) = s"
  by (cases s) simp_all

lemma opposite_neq [simp]: "opposite s \<noteq> s" "s \<noteq> opposite s"
  by (cases s; simp)+

lemma side_cases: "t = s \<or> t = opposite s"
  by (cases s; cases t) simp_all

section \<open>Well-formed relays\<close>

text \<open>
  One direction.  A copier that still copies has lost nothing: what it has written, what it holds and
  what is unread make up what has arrived.  One that has ended has written a prefix, and without
  a broken connection it has ended because the stream did, with everything written.
\<close>

definition held :: "copier \<Rightarrow> byte list" where
  "held k = (case k of Writing xs \<Rightarrow> xs | _ \<Rightarrow> [])"

definition copier_ended :: "copier \<Rightarrow> bool" where
  "copier_ended k \<longleftrightarrow> k = Shutting \<or> k = Copied"

definition unbroken :: "tcp_relay \<Rightarrow> bool" where
  "unbroken r \<longleftrightarrow> (\<forall>s. \<not> cn_reset (ry_conn r s) \<and> cn_half (ry_conn r s))"

definition direction_ok :: "bool \<Rightarrow> tcp_conn \<Rightarrow> tcp_conn \<Rightarrow> copier \<Rightarrow> bool" where
  "direction_ok whole c d k \<longleftrightarrow>
     prefix (cn_sent d) (cn_got c) \<and>
     (\<not> copier_ended k \<longrightarrow> cn_sent d @ held k @ cn_unread c = cn_got c) \<and>
     (copier_ended k \<and> whole \<longrightarrow> cn_ended c \<and> cn_sent d = cn_got c) \<and>
     (cn_shut d \<longrightarrow> k = Copied)"

definition waiter_ok :: "tcp_relay \<Rightarrow> bool" where
  "waiter_ok r \<longleftrightarrow>
     (ry_waiter r \<noteq> Waiting \<longrightarrow> (\<forall>s. ry_copier r s = Copied) \<and> cn_closed (ry_conn r Client)) \<and>
     (ry_waiter r = Released \<longrightarrow> cn_closed (ry_conn r Target)) \<and>
     (\<forall>s. cn_closed (ry_conn r s) \<and> cn_half (ry_conn r s) \<longrightarrow> ry_waiter r \<noteq> Waiting)"

definition relay_ok :: "tcp_relay \<Rightarrow> bool" where
  "relay_ok r \<longleftrightarrow>
     (\<forall>s. direction_ok (unbroken r) (ry_conn r s) (ry_conn r (opposite s)) (ry_copier r s)) \<and> waiter_ok r"

definition new_conn :: "tcp_conn \<Rightarrow> bool" where
  "new_conn c \<longleftrightarrow> cn_unread c = cn_got c \<and> cn_sent c = [] \<and> \<not> cn_shut c \<and> \<not> cn_closed c"

lemma relay_ok_start: "new_conn c \<Longrightarrow> new_conn d \<Longrightarrow> relay_ok (relay_start c d)"
  by (auto simp: relay_ok_def direction_ok_def waiter_ok_def relay_start_def new_conn_def copier_ended_def held_def
      split: side.splits)

lemma held_simps [simp]: "held Copying = []" "held (Writing xs) = xs"
  by (simp_all add: held_def)

lemma copier_ended_simps [simp]:
  "\<not> copier_ended Copying" "\<not> copier_ended (Writing xs)" "copier_ended Shutting" "copier_ended Copied"
  by (simp_all add: copier_ended_def)

lemma unbroken_set [simp]:
  "unbroken (set_copier s k r) = unbroken r"
  "unbroken (r\<lparr>ry_waiter := w\<rparr>) = unbroken r"
  "cn_half c = cn_half (ry_conn r s) \<Longrightarrow> cn_reset c = cn_reset (ry_conn r s) \<Longrightarrow> unbroken (set_conn s c r) = unbroken r"
  by (auto simp: unbroken_def set_copier_def)

lemma close_write_simps [simp]:
  "cn_half (close_write c) = cn_half c" "cn_reset (close_write c) = cn_reset c" "cn_sent (close_write c) = cn_sent c"
  "cn_got (close_write c) = cn_got c" "cn_unread (close_write c) = cn_unread c" "cn_ended (close_write c) = cn_ended c"
  by (simp_all add: close_write_def)

text \<open>A step that concerns the side \<open>s\<close> is checked in the direction from it and in the direction to it.\<close>

lemma relay_okI:
  assumes "direction_ok (unbroken r) (ry_conn r s) (ry_conn r (opposite s)) (ry_copier r s)"
    and "direction_ok (unbroken r) (ry_conn r (opposite s)) (ry_conn r s) (ry_copier r (opposite s))"
    and "waiter_ok r"
  shows "relay_ok r"
proof -
  have "direction_ok (unbroken r) (ry_conn r t) (ry_conn r (opposite t)) (ry_copier r t)" for t
    using assms(1,2) side_cases [of t s] by auto
  with assms(3) show ?thesis by (simp add: relay_ok_def)
qed

lemma relay_okD:
  assumes "relay_ok r"
  shows "direction_ok (unbroken r) (ry_conn r s) (ry_conn r (opposite s)) (ry_copier r s)"
    and "direction_ok (unbroken r) (ry_conn r (opposite s)) (ry_conn r s) (ry_copier r (opposite s))"
  using assms unfolding relay_ok_def by (blast, metis opposite_opposite)

lemma relay_ok_waiter: "relay_ok r \<Longrightarrow> waiter_ok r"
  by (simp add: relay_ok_def)

lemma waiter_copying:
  assumes "waiter_ok r" "ry_copier r s \<noteq> Copied"
  shows "ry_waiter r = Waiting" "cn_half (ry_conn r t) \<Longrightarrow> \<not> cn_closed (ry_conn r t)"
  using assms by (auto simp: waiter_ok_def)

lemma waiter_ok_frame:
  assumes "waiter_ok r" "\<And>t. ry_copier r t = Copied \<Longrightarrow> ry_copier r' t = Copied" "ry_waiter r' = ry_waiter r"
    and "\<And>t. cn_closed (ry_conn r' t) = cn_closed (ry_conn r t) \<and> cn_half (ry_conn r' t) = cn_half (ry_conn r t)"
  shows "waiter_ok r'"
  using assms by (simp add: waiter_ok_def)

lemma relay_ok_peer: "peer_step r r' \<Longrightarrow> relay_ok r \<Longrightarrow> relay_ok r'"
proof (induction rule: peer_step.induct)
  case (arrives c r s xs)
  note ok = relay_okD [OF arrives(3), of s]
  show ?case
  proof (rule relay_okI [of _ s], goal_cases)
    case 1 from ok(1) arrives(1,2) show ?case by (auto simp: direction_ok_def prefix_def)
  next
    case 2 from ok(2) arrives(1,2) show ?case by (auto simp: direction_ok_def)
  next
    case 3 show ?case by (rule waiter_ok_frame [OF relay_ok_waiter [OF arrives(3)]]) (simp_all add: arrives(1))
  qed
next
  case (ends r s)
  note ok = relay_okD [OF ends, of s]
  show ?case
  proof (rule relay_okI [of _ s], goal_cases)
    case 1 from ok(1) show ?case by (auto simp: direction_ok_def)
  next
    case 2 from ok(2) show ?case by (auto simp: direction_ok_def)
  next
    case 3 show ?case by (rule waiter_ok_frame [OF relay_ok_waiter [OF ends]]) simp_all
  qed
next
  case (breaks r s)
  note ok = relay_okD [OF breaks, of s]
  have u: "unbroken (set_conn s ((ry_conn r s)\<lparr>cn_reset := True\<rparr>) r) = False"
    by (auto simp: unbroken_def)
  show ?case
  proof (rule relay_okI [of _ s], goal_cases)
    case 1 from ok(1) show ?case unfolding u by (auto simp: direction_ok_def)
  next
    case 2 from ok(2) show ?case unfolding u by (auto simp: direction_ok_def)
  next
    case 3 show ?case by (rule waiter_ok_frame [OF relay_ok_waiter [OF breaks]]) simp_all
  qed
qed


lemma relay_ok_copy: "copy_step r r' \<Longrightarrow> relay_ok r \<Longrightarrow> relay_ok r'"
proof (induction rule: copy_step.induct)
  case (reads r s c xs ys)
  note ok = relay_okD [OF reads(6), of s]
  show ?case
  proof (rule relay_okI [of _ s], goal_cases)
    case 1 from ok(1) reads(1-4) show ?case by (auto simp: direction_ok_def)
  next
    case 2 from ok(2) reads(1-4) show ?case by (auto simp: direction_ok_def)
  next
    case 3 from reads(1,2) show ?case by (intro waiter_ok_frame [OF relay_ok_waiter [OF reads(6)]]) auto
  qed
next
  case (read_ends r s c)
  note ok = relay_okD [OF read_ends(4), of s] and w = relay_ok_waiter [OF read_ends(4)]
  show ?case
  proof (rule relay_okI [of _ s], goal_cases)
    case 1
    have "unbroken r \<Longrightarrow> \<not> read_fails c"
      using waiter_copying(2) [OF w, of s s] read_ends(1,2) by (auto simp: read_fails_def unbroken_def)
    with ok(1) read_ends(1-3) show ?case by (auto simp: direction_ok_def)
  next
    case 2 from ok(2) show ?case by (simp add: direction_ok_def)
  next
    case 3 from read_ends(1) show ?case by (intro waiter_ok_frame [OF w]) auto
  qed
next
  case (writes r s xs d)
  note ok = relay_okD [OF writes(4), of s]
  show ?case
  proof (rule relay_okI [of _ s], goal_cases)
    case 1 from ok(1) writes(1,2) show ?case by (auto simp: direction_ok_def prefix_def)
  next
    case 2 from ok(2) writes(1,2) show ?case by (auto simp: direction_ok_def)
  next
    case 3 from writes(1,2) show ?case by (intro waiter_ok_frame [OF relay_ok_waiter [OF writes(4)]]) auto
  qed
next
  case (write_ends r s xs d n)
  note ok = relay_okD [OF write_ends(4), of s] and w = relay_ok_waiter [OF write_ends(4)]
  from ok(1) write_ends(1,2) have "cn_sent d @ (take n xs @ drop n xs) @ cn_unread (ry_conn r s) = cn_got (ry_conn r s)"
    by (simp add: direction_ok_def)
  then have p: "prefix (cn_sent d @ take n xs) (cn_got (ry_conn r s))" by (metis append.assoc prefixI)
  have u: "unbroken r = False"
    using ok(1) write_ends(1-3) waiter_copying(2) [OF w, of s "opposite s"]
    by (auto simp: direction_ok_def write_fails_def unbroken_def)
  show ?case
  proof (rule relay_okI [of _ s], goal_cases)
    case 1 from ok(1) p u write_ends(1,2) show ?case by (auto simp: direction_ok_def)
  next
    case 2 from ok(2) write_ends(1,2) show ?case by (auto simp: direction_ok_def)
  next
    case 3 from write_ends(1,2) show ?case by (intro waiter_ok_frame [OF w]) auto
  qed
next
  case (shuts r s)
  note ok = relay_okD [OF shuts(2), of s] and w = relay_ok_waiter [OF shuts(2)]
  show ?case
  proof (rule relay_okI [of _ s], goal_cases)
    case 1 from ok(1) shuts show ?case by (auto simp: direction_ok_def)
  next
    case 2 from ok(2) show ?case by (auto simp: direction_ok_def close_write_def)
  next
    case 3 from w shuts waiter_copying [OF w, of s] show ?case by (auto simp: waiter_ok_def close_write_def)
  qed
next
  case (closes_client r)
  note ok = relay_okD [OF closes_client(4), of Client]
  show ?case
  proof (rule relay_okI [of _ Client], goal_cases)
    case 1 from ok(1) show ?case by (simp add: direction_ok_def)
  next
    case 2 from ok(2) show ?case by (simp add: direction_ok_def)
  next
    case 3
    have "ry_copier r t = Copied" for t using closes_client(1,2) by (cases t) simp_all
    then show ?case by (simp add: waiter_ok_def)
  qed
next
  case (closes_target r)
  note ok = relay_okD [OF closes_target(2), of Target]
  show ?case
  proof (rule relay_okI [of _ Target], goal_cases)
    case 1 from ok(1) show ?case by (simp add: direction_ok_def)
  next
    case 2 from ok(2) show ?case by (simp add: direction_ok_def)
  next
    case 3 from relay_ok_waiter [OF closes_target(2)] closes_target(1) show ?case by (auto simp: waiter_ok_def)
  qed
qed


lemma relay_ok_reachable:
  "relay_step\<^sup>*\<^sup>* (relay_start c d) r \<Longrightarrow> new_conn c \<Longrightarrow> new_conn d \<Longrightarrow> relay_ok r"
proof (induction rule: rtranclp_induct)
  case base
  then show ?case by (simp add: relay_ok_start)
next
  case (step y z)
  then show ?case using relay_ok_peer relay_ok_copy by (auto simp: relay_step_def)
qed

section \<open>Progress\<close>

text \<open>The copier of \<open>s\<close> waits for its peer: nothing to read, no end and no error.\<close>

definition waits :: "tcp_relay \<Rightarrow> side \<Rightarrow> bool" where
  "waits r s \<longleftrightarrow>
     ry_copier r s = Copying \<and> cn_unread (ry_conn r s) = [] \<and> \<not> cn_ended (ry_conn r s) \<and> \<not> read_fails (ry_conn r s)"

lemma copier_progress:
  assumes "ry_copier r s \<noteq> Copied" "\<not> waits r s"
  shows "\<exists>r'. copy_step r r'"
proof (cases "ry_copier r s")
  case Copying
  show ?thesis
  proof (cases "read_fails (ry_conn r s) \<or> cn_unread (ry_conn r s) = []")
    case True
    with Copying assms(2) show ?thesis using read_ends [OF Copying refl] by (auto simp: waits_def)
  next
    case False
    then show ?thesis using reads [OF Copying refl, of "cn_unread (ry_conn r s)" "[]"] by auto
  qed
next
  case (Writing xs)
  then show ?thesis using writes [OF Writing refl] write_ends [OF Writing refl] by blast
qed (use assms shuts in blast)+

lemma relay_progress:
  assumes "\<And>s. \<not> waits r s"
  shows "(\<exists>r'. copy_step r r') \<or> ry_waiter r = Released"
proof (cases "ry_waiter r")
  case Waiting
  then show ?thesis using closes_client copier_progress [OF _ assms] by blast
qed (use closes_target in auto)

fun copier_work :: "nat \<Rightarrow> copier \<Rightarrow> nat" where
  "copier_work n Copying = 2 * n + 2"
| "copier_work n (Writing xs) = 2 * n + 3"
| "copier_work n Shutting = 1"
| "copier_work n Copied = 0"

fun waiter_work :: "waiter \<Rightarrow> nat" where
  "waiter_work Waiting = 2"
| "waiter_work ClientClosed = 1"
| "waiter_work Released = 0"

definition side_work :: "tcp_relay \<Rightarrow> side \<Rightarrow> nat" where
  "side_work r s = copier_work (length (cn_unread (ry_conn r s))) (ry_copier r s)"

definition relay_work :: "tcp_relay \<Rightarrow> nat" where
  "relay_work r = side_work r Client + side_work r Target + waiter_work (ry_waiter r)"

lemma relay_work_side:
  "relay_work r = side_work r s + side_work r (opposite s) + waiter_work (ry_waiter r)"
  by (cases s) (simp_all add: relay_work_def)

lemma relay_work_less:
  assumes "side_work r' s < side_work r s" "side_work r' (opposite s) = side_work r (opposite s)"
    and "ry_waiter r' = ry_waiter r"
  shows "relay_work r' < relay_work r"
  using assms relay_work_side [of r s] relay_work_side [of r' s] by simp

lemma copy_step_work: "copy_step r r' \<Longrightarrow> relay_work r' < relay_work r"
proof (induction rule: copy_step.induct)
  case (reads r s c xs ys)
  then show ?case by (cases xs) (auto intro!: relay_work_less [of _ s] simp: side_work_def)
next
  case (read_ends r s c)
  then show ?case by (auto intro!: relay_work_less [of _ s] simp: side_work_def)
next
  case (writes r s xs d)
  then show ?case by (auto intro!: relay_work_less [of _ s] simp: side_work_def)
next
  case (write_ends r s xs d n)
  then show ?case by (auto intro!: relay_work_less [of _ s] simp: side_work_def)
next
  case (shuts r s)
  then show ?case by (auto intro!: relay_work_less [of _ s] simp: side_work_def)
qed (simp_all add: relay_work_def side_work_def)

lemma copy_steps_work: "(copy_step ^^ n) r r' \<Longrightarrow> n + relay_work r' \<le> relay_work r"
proof (induction n arbitrary: r')
  case (Suc n)
  then obtain y where "(copy_step ^^ n) r y" "copy_step y r'" by auto
  with Suc.IH [of y] copy_step_work [of y r'] show ?case by simp
qed simp

text \<open>The copying keeps the ends and the errors of the streams.\<close>

definition over :: "tcp_conn \<Rightarrow> bool" where
  "over c \<longleftrightarrow> cn_ended c \<or> read_fails c"

lemma copy_step_over: "copy_step r r' \<Longrightarrow> over (ry_conn r s) \<Longrightarrow> over (ry_conn r' s)"
  by (induction rule: copy_step.induct) (auto simp: over_def read_fails_def close_write_def)

lemma copy_steps_over: "(copy_step ^^ n) r r' \<Longrightarrow> over (ry_conn r s) \<Longrightarrow> over (ry_conn r' s)"
  by (induction n arbitrary: r') (auto dest: copy_step_over)

lemma copy_step_whole: "copy_step r r' \<Longrightarrow> unbroken r' = unbroken r"
  by (induction rule: copy_step.induct) auto

lemma copy_step_got: "copy_step r r' \<Longrightarrow> cn_got (ry_conn r' s) = cn_got (ry_conn r s)"
  by (induction rule: copy_step.induct) auto

lemma copy_steps_keep:
  "(copy_step ^^ n) r r' \<Longrightarrow> unbroken r' = unbroken r \<and> cn_got (ry_conn r' s) = cn_got (ry_conn r s) \<and> (relay_ok r \<longrightarrow> relay_ok r')"
proof (induction n arbitrary: r')
  case (Suc n)
  then obtain y where "(copy_step ^^ n) r y" "copy_step y r'" by auto
  with Suc.IH [of y] show ?case using copy_step_whole copy_step_got relay_ok_copy by auto
qed simp

text \<open>A relay that has released its connections does nothing more.\<close>

lemma released_relay_rests: "relay_ok r \<Longrightarrow> ry_waiter r = Released \<Longrightarrow> \<not> copy_step r r'"
  by (auto simp: relay_ok_def waiter_ok_def elim!: copy_stepE)

section \<open>Properties of the relay\<close>

text \<open>
  C8: a relayed connection is always well formed and never deadlocks.  However the peers and the
  goroutines interleave: a copier that still copies has lost, reordered and duplicated nothing; what
  has reached the other side is always a prefix of what has arrived; and as long as the relay has
  not released both connections, one of its goroutines can go on or a copier waits for its peer.
\<close>

theorem relay_well_formed:
  assumes "new_conn c" "new_conn d" "relay_step\<^sup>*\<^sup>* (relay_start c d) r"
  shows "relay_ok r \<and> (\<forall>s. prefix (cn_sent (ry_conn r (opposite s))) (cn_got (ry_conn r s))) \<and>
    ((\<exists>r'. copy_step r r') \<or> ry_waiter r = Released \<or> (\<exists>s. waits r s))"
proof -
  from relay_ok_reachable [OF assms(3,1,2)] have "relay_ok r" .
  then show ?thesis using relay_progress [of r] by (auto simp: relay_ok_def direction_ok_def)
qed

text \<open>
  C6: an end of stream is a half close.  While no connection is broken, the write side of a
  connection is shut only after the other peer has ended its stream and every byte of it has been
  written; and the connections are closed only when that holds in both directions, so the answer
  to a client that has finished sending is never cut off.
\<close>

theorem relay_half_close:
  assumes "new_conn c" "new_conn d" "relay_step\<^sup>*\<^sup>* (relay_start c d) r" "unbroken r"
  shows "(cn_shut (ry_conn r (opposite s)) \<longrightarrow> cn_ended (ry_conn r s) \<and> cn_sent (ry_conn r (opposite s)) = cn_got (ry_conn r s)) \<and>
    (cn_closed (ry_conn r t) \<longrightarrow>
      (\<forall>s. cn_ended (ry_conn r s) \<and> cn_sent (ry_conn r (opposite s)) = cn_got (ry_conn r s)))"
proof -
  from relay_ok_reachable [OF assms(3,1,2)] have ok: "relay_ok r" .
  then show ?thesis using assms(4)
    by (auto simp: relay_ok_def direction_ok_def waiter_ok_def unbroken_def)
qed



section \<open>Witnesses of the relay\<close>

lemma copying_stops: "\<exists>n r'. (copy_step ^^ n) r r' \<and> (\<forall>r''. \<not> copy_step r' r'')"
proof (induction r rule: measure_induct_rule [of relay_work])
  case (less r)
  show ?case
  proof (cases "\<exists>y. copy_step r y")
    case True
    then obtain y where y: "copy_step r y" by blast
    from less [OF copy_step_work [OF y]] obtain n r' where "(copy_step ^^ n) y r'" "\<forall>r''. \<not> copy_step r' r''" by blast
    with y have "(copy_step ^^ Suc n) r r'" by (metis relpowp_Suc_I2)
    with \<open>\<forall>r''. \<not> copy_step r' r''\<close> show ?thesis by blast
  next
    case False
    then show ?thesis by (metis relpowp_0_I)
  qed
qed

text \<open>A client that has sent one byte and finished, and a target that has not answered yet.\<close>

definition sample_conn :: "byte list \<Rightarrow> bool \<Rightarrow> tcp_conn" where
  "sample_conn xs ended = \<lparr>cn_got = xs, cn_unread = xs, cn_ended = ended, cn_reset = False, cn_sent = [],
     cn_half = True, cn_shut = False, cn_closed = False\<rparr>"

lemma sample_conn_new: "new_conn (sample_conn xs ended)"
  by (simp add: new_conn_def sample_conn_def)

lemma copy_relay: "copy_step r r' \<Longrightarrow> relay_step r r'"
  by (simp add: relay_step_def)

lemma sample_half_closed:
  obtains r where "relay_step\<^sup>*\<^sup>* (relay_start (sample_conn [7] True) (sample_conn [] False)) r" "unbroken r"
    "cn_shut (ry_conn r Target)" "\<not> cn_closed (ry_conn r Target)"
proof -
  let ?r0 = "relay_start (sample_conn [7] True) (sample_conn [] False)"
  let ?r1 = "set_copier Client (Writing [7]) (set_conn Client ((ry_conn ?r0 Client)\<lparr>cn_unread := []\<rparr>) ?r0)"
  let ?r2 = "set_copier Client Copying (set_conn Target ((ry_conn ?r1 Target)\<lparr>cn_sent := [7]\<rparr>) ?r1)"
  let ?r3 = "set_copier Client Shutting ?r2"
  let ?r4 = "set_copier Client Copied (set_conn Target (close_write (ry_conn ?r3 Target)) ?r3)"
  have 1: "copy_step ?r0 ?r1"
    by (rule reads [of _ _ _ "[7]"]) (simp_all add: relay_start_def sample_conn_def read_fails_def)
  have 2: "copy_step ?r1 ?r2"
    using writes [of ?r1 Client "[7]"] by (simp add: relay_start_def sample_conn_def write_fails_def)
  have 3: "copy_step ?r2 ?r3"
    by (rule read_ends [OF _ refl]) (auto simp: relay_start_def sample_conn_def)
  have 4: "copy_step ?r3 ?r4"
    using shuts [of ?r3 Client] by simp
  from copy_relay [OF 1] copy_relay [OF 2] copy_relay [OF 3] copy_relay [OF 4] have "relay_step\<^sup>*\<^sup>* ?r0 ?r4"
    by (meson converse_rtranclp_into_rtranclp rtranclp.rtrancl_refl)
  moreover have "unbroken ?r4"
    by (auto simp: unbroken_def relay_start_def sample_conn_def split: side.splits)
  ultimately show ?thesis
    using that by (simp add: close_write_def relay_start_def sample_conn_def)
qed

theorem relay_well_formed_witness:
  "relay_ok (relay_start (sample_conn [7] True) (sample_conn [] False))"
  using relay_well_formed [OF sample_conn_new [of "[7]" True] sample_conn_new [of "[]" False] rtranclp.rtrancl_refl] by blast

theorem relay_half_close_witness:
  "\<exists>r. relay_step\<^sup>*\<^sup>* (relay_start (sample_conn [7] True) (sample_conn [] False)) r \<and>
     cn_shut (ry_conn r Target) \<and> \<not> cn_closed (ry_conn r Target) \<and> cn_sent (ry_conn r Target) = cn_got (ry_conn r Client)"
proof -
  obtain r where r: "relay_step\<^sup>*\<^sup>* (relay_start (sample_conn [7] True) (sample_conn [] False)) r" "unbroken r"
    "cn_shut (ry_conn r Target)" "\<not> cn_closed (ry_conn r Target)" by (rule sample_half_closed)
  from relay_half_close [OF sample_conn_new sample_conn_new r(1,2), of Client] r show ?thesis by auto
qed


end
