(* ===== verification/Udp_Traffic.thy ===== *)
theory Udp_Traffic
  imports Forward_Socket
begin

text \<open>
  The datagrams of \<open>SocketForwarder\<close> around the client set of \<open>Forward_Socket\<close> (\<open>udpLoop\<close> and the reader
  of \<open>newUDPOutbound\<close> of \<open>internal/forward/socket.go\<close>), and the answers of \<open>testserver.go\<close>.
\<close>

section \<open>Datagrams of the UDP relay\<close>

text \<open>The limits of \<open>udpLoop\<close>, and how often it sweeps; times are in nanoseconds.\<close>

definition udp_client_limit :: "int \<Rightarrow> nat" where
  "udp_client_limit configured = (if configured \<le> 0 then max_udp_clients else nat configured)"

definition udp_client_idle :: "int \<Rightarrow> int" where
  "udp_client_idle configured = (if configured \<le> 0 then 120 * 10 ^ 9 else configured)"

definition sweep_every :: "int \<Rightarrow> int" where
  "sweep_every idle =
     (let half = idle div 2; capped = (if 30 * 10 ^ 9 < half then 30 * 10 ^ 9 else half)
      in if capped < 10 * 10 ^ 6 then 10 * 10 ^ 6 else capped)"

lemma sweep_every_bounds: "10 * 10 ^ 6 \<le> sweep_every idle \<and> sweep_every idle \<le> 30 * 10 ^ 9"
  by (simp add: sweep_every_def Let_def)

text \<open>
  The traffic around the steps of \<open>udp_step\<close>.  A socket is created for one address, which the closure
  of its reader keeps (\<open>owner\<close>); the main loop writes the datagram of the address it handles to the
  socket it holds; the reader of a socket that is not closed sends what it reads to its owner.
  Both read at most 8192 bytes of a datagram.
\<close>

datatype udp_event =
    ToTarget string nat "byte list"
  | ToClient string nat "byte list"

record udp_traffic =
  ut_relay :: udp_relay
  ut_owner :: "nat \<Rightarrow> string"
  ut_events :: "udp_event list"

definition udp_buffer :: nat where
  "udp_buffer = 8192"

fun note_owner :: "udp_main \<Rightarrow> (nat \<Rightarrow> string) \<Rightarrow> nat \<Rightarrow> string" where
  "note_owner (Created key conn) owner = owner(conn := key)"
| "note_owner _ owner = owner"

inductive traffic_step :: "nat \<Rightarrow> int \<Rightarrow> udp_traffic \<Rightarrow> udp_traffic \<Rightarrow> bool" for limit :: nat and idle :: int where
  control: "udp_step limit idle (ut_relay t) s' \<Longrightarrow>
    traffic_step limit idle t (t\<lparr>ut_relay := s', ut_owner := note_owner (up_main s') (ut_owner t)\<rparr>)"
| forwards: "up_main (ut_relay t) = Holding key conn \<Longrightarrow>
    traffic_step limit idle t (t\<lparr>ut_events := ut_events t @ [ToTarget key conn (take udp_buffer data)]\<rparr>)"
| replies: "conn < up_next (ut_relay t) \<Longrightarrow> conn \<notin> set (up_closed (ut_relay t)) \<Longrightarrow>
    traffic_step limit idle t (t\<lparr>ut_events := ut_events t @ [ToClient (ut_owner t conn) conn (take udp_buffer data)]\<rparr>)"

definition traffic_start :: udp_traffic where
  "traffic_start = \<lparr>ut_relay = udp_relay_start, ut_owner = (\<lambda>_. []), ut_events = []\<rparr>"

text \<open>Who owns a socket never changes: it is fixed when the socket is created.\<close>

fun event_owner :: "(nat \<Rightarrow> string) \<Rightarrow> nat \<Rightarrow> udp_event \<Rightarrow> bool" where
  "event_owner owner n (ToTarget key conn data) \<longleftrightarrow> owner conn = key \<and> conn < n"
| "event_owner owner n (ToClient key conn data) \<longleftrightarrow> owner conn = key \<and> conn < n"

definition main_owner :: "(nat \<Rightarrow> string) \<Rightarrow> nat \<Rightarrow> udp_main \<Rightarrow> bool" where
  "main_owner owner n m \<longleftrightarrow>
     (\<forall>key conn. m = Created key conn \<or> m = Holding key conn \<longrightarrow> owner conn = key \<and> conn < n)"

definition clients_owner :: "(nat \<Rightarrow> string) \<Rightarrow> nat \<Rightarrow> udp_clients \<Rightarrow> bool" where
  "clients_owner owner n cs \<longleftrightarrow> (\<forall>(key, conn, seen) \<in> set cs. owner conn = key \<and> conn < n)"

definition traffic_inv :: "udp_traffic \<Rightarrow> bool" where
  "traffic_inv t \<longleftrightarrow>
     main_owner (ut_owner t) (up_next (ut_relay t)) (up_main (ut_relay t)) \<and>
     clients_owner (ut_owner t) (up_next (ut_relay t)) (up_clients (ut_relay t)) \<and>
     list_all (event_owner (ut_owner t) (up_next (ut_relay t))) (ut_events t)"

lemma clients_owner_update:
  "clients_owner owner n cs \<Longrightarrow> owner conn = key \<Longrightarrow> conn < n \<Longrightarrow> clients_owner owner n (AList.update key (conn, seen) cs)"
  by (induction cs) (auto simp: clients_owner_def)

lemma clients_owner_subset: "clients_owner owner n cs \<Longrightarrow> set cs' \<subseteq> set cs \<Longrightarrow> clients_owner owner n cs'"
  by (auto simp: clients_owner_def)

lemma clients_owner_lookup: "clients_owner owner n cs \<Longrightarrow> map_of cs key = Some (conn, seen) \<Longrightarrow> owner conn = key \<and> conn < n"
  by (auto simp: clients_owner_def dest!: map_of_SomeD)

lemma touch_owner:
  assumes "touch now key cs = (r, cs')" "clients_owner owner n cs"
  shows "clients_owner owner n cs' \<and> (\<forall>conn. r = Some conn \<longrightarrow> owner conn = key \<and> conn < n)"
  using assms clients_owner_lookup [OF assms(2)] clients_owner_update [OF assms(2)]
  by (auto simp: touch_def split: option.splits)

lemma forget_subset: "forget key conn cs = (gone, cs') \<Longrightarrow> set cs' \<subseteq> set cs"
  by (auto simp: forget_def AList.delete_eq split: option.splits if_splits)

lemma sweep_subset: "sweep_idle idle now cs = (gone, cs') \<Longrightarrow> set cs' \<subseteq> set cs"
  by (auto simp: sweep_idle_def)

lemma owner_fresh:
  "clients_owner owner n cs \<Longrightarrow> clients_owner (owner(n := key)) (Suc n) cs"
  "list_all (event_owner owner n) es \<Longrightarrow> list_all (event_owner (owner(n := key)) (Suc n)) es"
proof -
  show "clients_owner (owner(n := key)) (Suc n) cs" if "clients_owner owner n cs"
    using that by (auto simp: clients_owner_def)
  have "event_owner owner n e \<Longrightarrow> event_owner (owner(n := key)) (Suc n) e" for e by (cases e) auto
  then show "list_all (event_owner (owner(n := key)) (Suc n)) es" if "list_all (event_owner owner n) es"
    using that by (auto elim: list.pred_mono_strong)
qed

lemma main_owner_simps [simp]:
  "main_owner owner n Reading" "main_owner owner n (Missed key)" "main_owner owner n Finished"
  "main_owner owner n (Created key conn) \<longleftrightarrow> owner conn = key \<and> conn < n"
  "main_owner owner n (Holding key conn) \<longleftrightarrow> owner conn = key \<and> conn < n"
  by (auto simp: main_owner_def)

lemma note_owner_same: "main_owner owner n m \<Longrightarrow> note_owner m owner = owner"
  by (cases m) auto

lemma traffic_inv_control:
  assumes "udp_step limit idle s s'" "main_owner owner (up_next s) (up_main s)" "clients_owner owner (up_next s) (up_clients s)"
    and "list_all (event_owner owner (up_next s)) es"
  shows "main_owner (note_owner (up_main s') owner) (up_next s') (up_main s') \<and>
    clients_owner (note_owner (up_main s') owner) (up_next s') (up_clients s') \<and>
    list_all (event_owner (note_owner (up_main s') owner) (up_next s')) es"
  using assms
proof (induction rule: udp_step.induct)
  case (known s now key conn cs)
  then show ?case using touch_owner [OF known(2)] by auto
next
  case (create s key)
  then show ?case using owner_fresh [unfolded fun_upd_def] by (simp add: fun_upd_def)
next
  case (added s key conn now cs)
  then show ?case by (auto simp: add_client_def clients_owner_update note_owner_same split: if_splits)
next
  case (write_failed s key conn gone cs)
  then show ?case using clients_owner_subset forget_subset by (auto simp: note_owner_same)
next
  case (reader_done key conn s gone cs)
  then show ?case using clients_owner_subset forget_subset by (auto simp: note_owner_same)
next
  case (swept now s gone cs)
  then show ?case using clients_owner_subset sweep_subset by (auto simp: note_owner_same)
next
  case (finished s gone cs)
  then show ?case by (auto simp: close_all_def clients_owner_def)
qed (auto simp: note_owner_same)

lemma traffic_inv_step: "traffic_step limit idle t t' \<Longrightarrow> traffic_inv t \<Longrightarrow> traffic_inv t'"
proof (induction rule: traffic_step.induct)
  case (control t s')
  then show ?case using traffic_inv_control [OF control(1), of "ut_owner t" "ut_events t"] by (simp add: traffic_inv_def)
qed (auto simp: traffic_inv_def)

lemma traffic_inv_start: "traffic_inv traffic_start"
  by (simp add: traffic_inv_def traffic_start_def udp_relay_start_def clients_owner_def)

lemma traffic_inv_reachable: "(traffic_step limit idle)\<^sup>*\<^sup>* traffic_start t \<Longrightarrow> traffic_inv t"
  by (induction rule: rtranclp_induct) (auto intro: traffic_inv_start traffic_inv_step)

text \<open>The relay below the traffic is the one whose bounds are proved.\<close>

lemma traffic_relay: "(traffic_step limit idle)\<^sup>*\<^sup>* traffic_start t \<Longrightarrow> (udp_step limit idle)\<^sup>*\<^sup>* udp_relay_start (ut_relay t)"
proof (induction rule: rtranclp_induct)
  case base
  then show ?case by (simp add: traffic_start_def)
next
  case (step t t')
  from step(2) have "(udp_step limit idle)\<^sup>*\<^sup>* (ut_relay t) (ut_relay t')"
    by (cases rule: traffic_step.cases) auto
  with step(3) show ?case by (rule rtranclp_trans)
qed

text \<open>
  C9: replies go back to the client they belong to.  However the main loop, the readers and the
  sweeper interleave, and however sockets are dropped and created again, the socket through which a
  client's datagrams leave sends what comes back to that client and to no other.
\<close>

theorem udp_replies_isolated:
  assumes "(traffic_step limit idle)\<^sup>*\<^sup>* traffic_start t"
    and "ToTarget key conn data \<in> set (ut_events t)" "ToClient key' conn data' \<in> set (ut_events t)"
  shows "key' = key"
proof -
  let ?owned = "event_owner (ut_owner t) (up_next (ut_relay t))"
  from traffic_inv_reachable [OF assms(1)] have "\<forall>e \<in> set (ut_events t). ?owned e"
    by (simp add: traffic_inv_def list_all_iff)
  with assms(2,3) have "?owned (ToTarget key conn data)" "?owned (ToClient key' conn data')" by blast+
  then show ?thesis by simp
qed


lemma sample_traffic:
  obtains t where "(traffic_step 1 5)\<^sup>*\<^sup>* traffic_start t" "ut_events t = [ToTarget ''a'' 0 [1], ToClient ''a'' 0 [2]]"
proof -
  let ?t1 = "traffic_start\<lparr>ut_relay := udp_relay_start\<lparr>up_main := Missed ''a''\<rparr>, ut_owner := (\<lambda>_. [])\<rparr>"
  let ?s2 = "udp_relay_start\<lparr>up_main := Created ''a'' 0, up_next := Suc 0\<rparr>"
  let ?t2 = "?t1\<lparr>ut_relay := ?s2, ut_owner := (\<lambda>_. [])(0 := ''a'')\<rparr>"
  let ?s3 = "?s2\<lparr>up_main := Holding ''a'' 0, up_clients := [(''a'', 0, 7)]\<rparr>"
  let ?t3 = "?t2\<lparr>ut_relay := ?s3, ut_owner := (\<lambda>_. [])(0 := ''a'')\<rparr>"
  let ?t4 = "?t3\<lparr>ut_events := [ToTarget ''a'' 0 [1]]\<rparr>"
  let ?t5 = "?t4\<lparr>ut_events := [ToTarget ''a'' 0 [1], ToClient ''a'' 0 [2]]\<rparr>"
  have "udp_step 1 5 udp_relay_start (udp_relay_start\<lparr>up_main := Missed ''a''\<rparr>)"
    by (rule unknown [where now = 7]) (simp_all add: udp_relay_start_def touch_def)
  then have 1: "traffic_step 1 5 traffic_start ?t1"
    using control [of 1 5 traffic_start "udp_relay_start\<lparr>up_main := Missed ''a''\<rparr>"] by (simp add: traffic_start_def)
  have "udp_step 1 5 (udp_relay_start\<lparr>up_main := Missed ''a''\<rparr>) ?s2"
    using create [of "udp_relay_start\<lparr>up_main := Missed ''a''\<rparr>" "''a''"] by (simp add: udp_relay_start_def)
  then have 2: "traffic_step 1 5 ?t1 ?t2" using control [of 1 5 ?t1 ?s2] by (simp add: traffic_start_def)
  have "udp_step 1 5 ?s2 ?s3"
    by (rule added [where now = 7]) (simp_all add: udp_relay_start_def add_client_def)
  then have 3: "traffic_step 1 5 ?t2 ?t3" using control [of 1 5 ?t2 ?s3] by (simp add: traffic_start_def)
  have 4: "traffic_step 1 5 ?t3 ?t4"
    using forwards [of ?t3 "''a''" 0 1 5 "[1]"] by (simp add: traffic_start_def udp_buffer_def)
  have 5: "traffic_step 1 5 ?t4 ?t5"
    using replies [of 0 ?t4 1 5 "[2]"] by (simp add: traffic_start_def udp_relay_start_def udp_buffer_def)
  from 1 2 3 4 5 have "(traffic_step 1 5)\<^sup>*\<^sup>* traffic_start ?t5"
    by (meson converse_rtranclp_into_rtranclp rtranclp.rtrancl_refl)
  then show ?thesis using that by simp
qed

theorem udp_replies_isolated_witness:
  "\<exists>t. (traffic_step 1 5)\<^sup>*\<^sup>* traffic_start t \<and> {key. ToClient key 0 [2] \<in> set (ut_events t)} = {''a''}"
proof -
  obtain t where t: "(traffic_step 1 5)\<^sup>*\<^sup>* traffic_start t" "ut_events t = [ToTarget ''a'' 0 [1], ToClient ''a'' 0 [2]]"
    by (rule sample_traffic)
  then have "ToTarget ''a'' 0 [1] \<in> set (ut_events t)" "ToClient ''a'' 0 [2] \<in> set (ut_events t)" by simp_all
  with t(1) udp_replies_isolated [OF t(1) this(1)] show ?thesis by blast
qed

section \<open>What the test server answers\<close>

definition crlf :: string where
  "crlf = [CHR 0x0D, CHR 0x0A]"

text \<open>The handler of the HTTP server: the headers it sets and the page, for every request.\<close>

definition test_page :: "(string \<times> string) list \<times> string" where
  "test_page = ([(''Content-Type'', ''text/html''), (''Server'', ''QNatter'')],
     ''<html><body><h1>It works!</h1><hr/>QNatter</body></html>'' @ crlf)"

text \<open>\<open>serveUDP\<close>: the writes for the reads, until the first read that fails.\<close>

definition test_answer :: string where
  "test_answer = ''It works! - QNatter'' @ crlf"

fun serve_udp :: "(goerror + byte list \<times> string) list \<Rightarrow> (string \<times> string) list" where
  "serve_udp [] = []"
| "serve_udp (Inl e # reads) = []"
| "serve_udp (Inr (data, sender) # reads) = (sender, test_answer) # serve_udp reads"

lemma serve_udp_answers_all:
  "serve_udp (map Inr packets @ Inl e # later) = map (\<lambda>(data, sender). (sender, test_answer)) packets"
  by (induction packets) auto

text \<open>
  The socket that the test server reports (\<open>Addr\<close>): the one of UDP if there is one, otherwise the one of TCP.
\<close>

definition test_server_addr :: "(nat \<Rightarrow> addr_port) \<Rightarrow> test_server \<Rightarrow> addr_port option" where
  "test_server_addr local s =
     (case ts_udp s of
        Some i \<Rightarrow> Some (local i)
      | None \<Rightarrow> (case ts_tcp s of Some i \<Rightarrow> Some (local i) | None \<Rightarrow> None))"

end
