(* ===== verification/Spec2Isabelle.thy ===== *)
theory Spec2Isabelle
  imports App_Ends Check_Run Qbittorrent Engine_Wire Upnp_Client Child_Process Tcp_Relay Udp_Traffic
begin

text \<open>
  Verification development for the Go core of QNatter, the NAT traversal daemon of an OpenWrt package
  (everything under \<open>src/go-qnatter\<close>; the paths below are relative to its \<open>internal\<close>).

  \<^bold>\<open>The program.\<close>  QNatter exposes a port behind a full-cone NAT.  It asks STUN servers for the
  outer address of a local port, keeps the NAT mapping open with a keep-alive connection from that
  port, forwards what arrives to a target, writes a status file, runs a script of the user, and asks
  for a UPnP mapping at the router in front.  One \<^emph>\<open>session\<close> acquires these in order and gives them
  back in the end; a loop ticks, keeps the mapping alive and looks for a changed outer address; a
  retry wrapper starts sessions again; \<open>--check\<close> tells the type of the NAT instead.

  \<^bold>\<open>How the outside is modelled.\<close>  What the program calls (sockets, nft and ip, child processes, HTTP,
  the router, files, random bytes) is a \<^emph>\<open>history\<close> of calls with their answers, and an environment
  record that answers the next call from the history so far.  The environment is arbitrary: every
  theorem holds for all answers, failures included.  A handle (connection, listening socket, child)
  is the position of the call that created it.  Errors are values of \<open>goerror\<close>, which carries the
  sentinels that \<open>errors.Is\<close> can find; a function that can fail returns a sum.  Bytes, ports and
  message fields are words of their width; Go's \<open>int\<close> is an \<open>int\<close> with the 64-bit range written out
  where a conversion or product could leave it; strings are lists of byte-sized characters.

  \<^bold>\<open>The theories, bottom up.\<close>

  \<^item> \<open>Go_Base\<close>: prelude.  Errors as sums (\<open>res_bind\<close>), slices and indices that panic, big-endian fields,
    decimal and hexadecimal numbers, string splitting, the collections \<open>go_defs\<close> and \<open>word_bytes\<close>.
    \<open>Go_Path\<close>: \<open>path/filepath\<close>, with cleaning and joining of paths.  \<open>Net_Addr\<close>: \<open>net/netip\<close> addresses
    with their parser and printer.  \<open>Socket_Options\<close>: \<open>socketopts\<close>, the options set on a socket.
  \<^item> \<open>Endpoint\<close>, \<open>Config\<close>: \<open>endpoint/endpoint.go\<close> and \<open>config/config.go\<close>, the command line with its
    validation.  Accepted configurations are valid; addresses are normalised once and for all.
  \<^item> \<open>Stun_Message\<close>, \<open>Stun_Client\<close>, \<open>Stun_Transport\<close>: \<open>stun/message.go\<close> and \<open>stun/client.go\<close>.  The parser of
    responses over words with every slice checked; failover and rotation of servers; framing of a
    response on a stream; the exchange over the network history.
  \<^item> \<open>Keep_Alive\<close>: \<open>keepalive/tcp.go\<close>, \<open>udp.go\<close>, with the locale \<open>keepalive_client\<close> (who owns which
    connection), interpreted on both clients.
  \<^item> \<open>Forward_Rules\<close>: \<open>forward/forward.go\<close>, \<open>factory.go\<close>, \<open>nftables.go\<close>, and the locale
    \<open>forwarder_contract\<close>: what \<open>Start\<close> acquires and \<open>Stop\<close> gives back.  \<open>Forward_Nft\<close>
    (\<open>nftables_executor.go\<close>), \<open>Forward_External\<close> (\<open>external.go\<close>) and \<open>Forward_Socket\<close> (\<open>socket.go\<close>,
    \<open>testserver.go\<close>, \<open>portconflict.go\<close>) hold the forwarders and interpret it on each.
  \<^item> \<open>Tcp_Relay\<close>, \<open>Udp_Traffic\<close>, \<open>Child_Process\<close>: the goroutines of \<open>socket.go\<close>, \<open>testserver.go\<close> and
    \<open>external.go\<close> as step relations whose steps interleave in any order, with their invariants.
  \<^item> \<open>Port_Check\<close>: \<open>portcheck/portcheck.go\<close>; the results are a linear order, closed, unknown, open.
    \<open>Status_File\<close>: \<open>status/status.go\<close> and \<open>notify/notify.go\<close>.
  \<^item> \<open>Engine_Session\<close>, \<open>Engine_Loop\<close>, \<open>Engine_Wire\<close>: \<open>engine/run_once.go\<close>, \<open>loop.go\<close>, \<open>retry.go\<close>, \<open>wire.go\<close>
    over a record of dependencies.  The locale \<open>session_env\<close> is the contract of those dependencies;
    inside it a failed start and every end of a session give back what was acquired.
  \<^item> \<open>Upnp_Service\<close>, \<open>Upnp_Discovery\<close>, \<open>Upnp_Client\<close>: \<open>upnp/service.go\<close>, \<open>discovery.go\<close>, \<open>device.go\<close>,
    \<open>client.go\<close> and \<open>engine/upnp.go\<close>.
  \<^item> \<open>App_Log\<close>, \<open>App_World\<close>, \<open>App\<close>, \<open>App_Ends\<close>: \<open>app/app.go\<close>, \<open>app/portcheck.go\<close> and \<open>procname\<close>.  The \<open>world\<close> is
    the record of all histories and of the objects of the running session; \<open>app_deps\<close> are the
    dependencies the program wires, and the interpretations of \<open>session_env\<close> on them carry the
    engine's lemmas to the program: once with the resources owed, once with the waits already done.
  \<^item> \<open>Check_Message\<close>, \<open>Check_Nat\<close>, \<open>Check_Net\<close>, \<open>Check_Run\<close>: \<open>check/check.go\<close>, on the same world.  Its option
    records keep their function fields, \<open>None\<close> for the \<open>nil\<close> that stands for a default.
  \<^item> \<open>Qbittorrent\<close>: \<open>qbittorrent/qbittorrent.go\<close>, which no other package calls.
  \<^item> This theory: \<open>program\<close>, the run of \<open>cmd/qnatter/main.go\<close>, and what spans all components.

  \<^bold>\<open>What the lemmas show.\<close>  Resources: each forwarder, keep-alive client and the mapper gives back what
  it acquires on every error path; a session does, the loop and the retries do, the check does, and
  so does the program, which also ends.  Parsers: no input makes the STUN parser panic; messages of the expected
  form are decoded exactly; the two STUN parsers of the program agree.  Relays: nothing is lost,
  reordered or misdelivered, half closes are kept apart from closes, the set of UDP clients is
  bounded.  UPnP: requests stay on the host that answered, SOAP arguments cannot inject elements,
  the discovery is bounded.  NAT check: the verdict is the type of the NAT for a NAT of each type.
  Status: names do not collide in the basic plane and cannot leave the run directory, the file is
  replaced as a whole or not at all.
  Time: delays stay in their bounds for every 64-bit interval, streaks of failures are counted
  exactly, loops return.

  \<^bold>\<open>Bounds and fuel.\<close>  The TCP keep-alive reads until its deadline; \<open>with_deadline n\<close> is a network whose
  deadline passes after at most \<open>n\<close> reads, for any \<open>n\<close>, and the fuel \<open>Suc n\<close> is then always enough
  (\<open>with_deadline_keep_alive\<close>).  The loop and the retries consume the list of events they will see;
  \<open>None\<close> is a program that still waits, and \<open>program_ends\<close> and \<open>run_loop_returns\<close> say which lists
  are enough.  The discovery consumes the events of its socket and stops by its own limits.  The
  relays have no fuel: they are relations, and \<open>relay_work\<close> bounds their steps.

  \<^bold>\<open>Not modelled.\<close>  The OpenWrt packaging, the LuCI pages and the shell scripts (no Go code); the
  \<open>setsockopt\<close> system calls, which are arguments; the builds for other systems than Linux, except
  of \<open>socketopts\<close>; the signal handler, which is the end of the context; the time stamps of log lines;
  the escapes of \<open>%q\<close> for unprintable runes above the ASCII range; the clocks behind timeouts, except
  where an answer of the environment stands for a deadline; \<open>net/url\<close>, \<open>encoding/xml\<close>,
  \<open>encoding/json\<close>, \<open>net/http\<close> and the resolver, which are arguments; the options of types that only
  tests set, outside \<open>check.go\<close>.
\<close>

section \<open>The program\<close>

text \<open>
  The entry points of \<open>app\<close>: \<open>RunContext\<close> with the engine of the program, \<open>RunWithContext\<close> with an
  engine of the caller, and \<open>RunWith\<close>, whose engine is a function of the configuration.  \<open>runs\<close> are
  the events of each run of the engine's loop; \<open>None\<close> is a program that still runs.
\<close>

definition run_with_runner ::
  "check_env \<Rightarrow> (string \<Rightarrow> bool option) \<Rightarrow> (config \<Rightarrow> world \<Rightarrow> (goerror option \<times> world) option) \<Rightarrow> string list \<Rightarrow> world \<Rightarrow>
   (nat \<times> string \<times> world) option" where
  "run_with_runner env stat engine = run_with_context (se_getenv (ae_sys (ke_app env))) stat engine (check_run env)"

definition run_context ::
  "check_env \<Rightarrow> (string \<Rightarrow> bool option) \<Rightarrow> loop_event list list \<Rightarrow> string list \<Rightarrow> world \<Rightarrow> (nat \<times> string \<times> world) option" where
  "run_context env stat runs =
     run_with_context (se_getenv (ae_sys (ke_app env))) stat (run_engine (ke_app env) runs) (check_run env)"

definition run_with ::
  "check_env \<Rightarrow> (string \<Rightarrow> bool option) \<Rightarrow> (config \<Rightarrow> world \<Rightarrow> goerror option \<times> world) \<Rightarrow> string list \<Rightarrow> world \<Rightarrow>
   (nat \<times> string \<times> world) option" where
  "run_with env stat run = run_with_runner env stat (\<lambda>cfg w. Some (run cfg w))"

text \<open>\<open>main\<close> of \<open>cmd/qnatter\<close>: the process name, the arguments, then the check or the engine, on one world.\<close>

definition program ::
  "check_env \<Rightarrow> goerror option \<Rightarrow> (string \<Rightarrow> bool option) \<Rightarrow> loop_event list list \<Rightarrow> string list \<Rightarrow> world \<Rightarrow>
   (nat \<times> string \<times> world) option" where
  "program env name_error stat runs = main_run name_error (run_context env stat runs)"

lemmas program_defs = program_def run_context_def main_run_def

text \<open>
  A predicate of the world that writing to the log keeps, and the check, and every run of the engine that
  ends, holds when the program ends.
\<close>

lemma run_with_context_keeps:
  assumes "\<And>ls v. P v \<Longrightarrow> P (write_log ls v)" "\<And>cfg v. P v \<Longrightarrow> P (snd (check cfg v))"
    and "\<And>cfg v e v'. P v \<Longrightarrow> engine cfg v = Some (e, v') \<Longrightarrow> P v'"
    and w: "P w" and run: "run_with_context getenv stat engine check args w = Some (code, out, w')"
  shows "P w'"
proof (cases "early_output args")
  case (Some x)
  with run w show ?thesis by (simp add: run_with_context_def)
next
  case None
  show ?thesis
  proof (cases "parse_args getenv stat args")
    case (Inl e)
    with None run assms(1) [OF w] show ?thesis by (auto simp: run_with_context_def)
  next
    case (Inr cfg)
    show ?thesis
    proof (cases "cfg_check cfg")
      case True
      with None Inr run assms(2) [OF w, of cfg] assms(1) show ?thesis
        by (auto simp: run_with_context_def split: prod.splits option.splits)
    next
      case False
      define v where "v = (if cfg_verbose cfg then write_log (log_config cfg) (write_log (print_startup (args = [])) w)
        else write_log (print_startup (args = [])) w)"
      have v: "P v" using assms(1) w by (simp add: v_def)
      from False None Inr run obtain e w3 where "engine cfg v = Some (e, w3)"
        by (auto simp: run_with_context_def Let_def v_def split: option.splits)
      with assms(3) [OF v this] assms(1) False None Inr run show ?thesis
        by (auto simp: run_with_context_def Let_def v_def [symmetric] split: option.splits if_splits)
    qed
  qed
qed

text \<open>The program returns when its engine does.\<close>

lemma run_with_context_ends:
  assumes "\<And>cfg v. \<exists>e v'. engine cfg v = Some (e, v')"
  shows "\<exists>code out w'. run_with_context getenv stat engine check args w = Some (code, out, w') \<and> code \<in> {0, 1, 2}"
proof (cases "early_output args")
  case None
  show ?thesis
  proof (cases "parse_args getenv stat args")
    case (Inr cfg)
    define v where "v = (if cfg_verbose cfg then write_log (log_config cfg) (write_log (print_startup (args = [])) w)
      else write_log (print_startup (args = [])) w)"
    obtain e v' where "engine cfg v = Some (e, v')" using assms by blast
    with None Inr show ?thesis
      by (auto simp: run_with_context_def Let_def v_def [symmetric] split: option.splits prod.splits)
  qed (simp add: run_with_context_def None)
qed (simp add: run_with_context_def)

text \<open>A run with an engine that is a function always returns, with one of the three codes.\<close>

lemma run_with_returns:
  "\<exists>code out w'. run_with env stat run args w = Some (code, out, w') \<and> code \<in> {0, 1, 2}"
  unfolding run_with_def run_with_runner_def by (rule run_with_context_ends) (metis prod.collapse)


definition sample_check :: check_env where
  "sample_check = \<lparr>ke_app = sample_app, ke_context = \<lambda>_. None, ke_resolve = \<lambda>_ _. Inr [Addr4 198 51 100 1],
     ke_random = \<lambda>_ n. Inr (replicate n 7), ke_tcp_read = \<lambda>_ _ _. Inr sample_answer,
     ke_tcp_local = \<lambda>_ _. InetAddr [192, 168, 1, 2] 8, ke_listen_local = \<lambda>_ _. InetAddr [192, 168, 1, 2] 8,
     ke_write_to = \<lambda>_ _ _ _ _. None, ke_packets = \<lambda>_ _ _ _ _. ([], errorf ''i/o timeout''), ke_goos = ''linux'',
     ke_stat = \<lambda>_. None, ke_read_file = \<lambda>_. Inl (errorf ''no such file''), ke_hostname = Inr ''qnatter'',
     ke_lookup_ip = \<lambda>_. Inr []\<rparr>"

definition sample_args :: "string list" where
  "sample_args = [''-u'', ''-s'', ''stun.example:5'', ''-h'', ''192.0.2.53'', ''-m'', ''socket'', ''-t'', ''192.168.1.9'', ''-p'', ''6'']"

lemma sample_arguments: "parse_args (\<lambda>_. []) (\<lambda>_. None) sample_args = Inr sample_config"
  by (simp add: sample_args_def sample_config_def go_defs)

lemma sample_engine_ends:
  "map_option fst (run_engine sample_app [[ContextDone]] sample_config (write_log (print_startup False) sample_world)) = Some None"
  by code_simp

lemma sample_program_ends:
  "\<exists>out w'. program sample_check None (\<lambda>_. None) [[ContextDone]] sample_args sample_world = Some (0, out, w')"
proof -
  from sample_engine_ends obtain w' where
    "run_engine sample_app [[ContextDone]] sample_config (write_log (print_startup False) sample_world) = Some (None, w')"
    by (auto simp: map_option_case split: option.splits)
  moreover have "early_output sample_args = None" by code_simp
  moreover have "sample_args \<noteq> []" by (simp add: sample_args_def)
  moreover have "cfg_check sample_config = False \<and> cfg_verbose sample_config = False" by code_simp
  moreover have "ke_app sample_check = sample_app \<and> se_getenv (ae_sys sample_app) = (\<lambda>_. [])"
    by (simp add: sample_check_def sample_app_def sample_sys_def)
  ultimately show ?thesis
    by (simp add: program_defs run_with_context_def sample_arguments)
qed

lemma sample_world_sane: "sane sample_app sample_world"
  by (simp add: resource_defs sample_world_def orderly_def live_def dialed_def closed_def mapper_ok_def
      new_upnp_mapper_from_config_def Let_def)

lemma sample_world_owes_nothing: "owed_resources sample_app sample_world = {}"
  by (simp add: owed_resources_def sample_world_def owed_rules_def owed_processes_def spawned_def owed_sockets_def
      live_def dialed_def owed_mappings_def)


text \<open>
  C2: the program ends when it is told to.  If every run of the engine's loop sees the end of its
  context, and the context is over after at most \<open>n\<close> waits between sessions, the program returns
  within \<open>n + 1\<close> sessions, whatever the arguments and whatever fails, with one of its three exit
  codes.
\<close>

theorem program_ends:
  assumes "context_over_after (ke_app env) n" "\<And>evs. evs \<in> set runs \<Longrightarrow> ContextDone \<in> set evs" "n < length runs"
  shows "\<exists>code out w'. program env name_error stat runs args w = Some (code, out, w') \<and> code \<in> {0, 1, 2}"
proof -
  have "runs \<noteq> []" using assms(3) by auto
  then have engine: "\<exists>e v'. run_engine (ke_app env) runs cfg v = Some (e, v')" for cfg v
    using run_engine_ends [OF assms(1), of runs v cfg] assms(2,3) by simp
  show ?thesis
    unfolding program_defs by (rule run_with_context_ends [OF engine])
qed

theorem program_ends_witness:
  "\<exists>code out w'. program (sample_check\<lparr>ke_app := sample_app\<lparr>ae_sys := sample_sys\<lparr>se_sleep := \<lambda>_ _. Some (errorf ''context canceled'')\<rparr>\<rparr>\<rparr>)
     None (\<lambda>_. None) [[Tick, ContextDone]] sample_args sample_world = Some (code, out, w') \<and> code \<in> {0, 1, 2}"
  by (rule program_ends [where n = 0]) (simp_all add: context_over_after_def)

end
